theory Spec2Isabelle
  imports Complex_Main "HOL-Library.AList"
begin

section \<open>Python values, floats and exceptions\<close>

text \<open>
  A score is a Python float or \<open>None\<close>. Only the comparisons of IEEE floats matter to
  the code, so a float is NaN, an infinity or a finite real; \<open>None\<close> is the \<open>None\<close>
  of \<open>pyfloat option\<close>.
\<close>

datatype pyfloat = NaN | NegInf | Finite real | PosInf

type_synonym score = "pyfloat option"

text \<open>\<open>a < b\<close> on Python floats: every comparison with NaN is false.\<close>

fun float_lt :: "pyfloat \<Rightarrow> pyfloat \<Rightarrow> bool" where
  "float_lt NaN b = False"
| "float_lt a NaN = False"
| "float_lt NegInf NegInf = False"
| "float_lt NegInf b = True"
| "float_lt (Finite x) NegInf = False"
| "float_lt (Finite x) (Finite y) = (x < y)"
| "float_lt (Finite x) PosInf = True"
| "float_lt PosInf b = False"

text \<open>\<open>pd.isnull(score)\<close> on a scalar: true for \<open>None\<close> and for NaN, false for infinities.\<close>

fun isnull :: "score \<Rightarrow> bool" where
  "isnull None = True"
| "isnull (Some NaN) = True"
| "isnull (Some a) = False"

text \<open>
  The values that reach the constructor and the tuner: scalars, lists, dicts (insertion
  ordered, keyed by strings) and the three \<open>skopt.space\<close> dimension classes.
\<close>

datatype pyval =
    PNone
  | PBool bool
  | PInt int
  | PFloat pyfloat
  | PStr string
  | PList "pyval list"
  | PDict "(string \<times> pyval) list"
  | Integer int int
  | Real pyfloat pyfloat
  | Categorical "pyval list"

text \<open>Nested pipeline parameters: component name, then parameter name.\<close>

type_synonym component_parameters = "(string \<times> pyval) list"
type_synonym params = "(string \<times> component_parameters) list"

datatype exn_class =
    ValueError | AttributeError | IndexError | KeyError | TypeError
  | ParameterError | OtherError string

text \<open>An exception is its class and its message: \<open>str(e)\<close> is the message.\<close>

datatype exn = Exn exn_class string

fun str_exn :: "exn \<Rightarrow> string" where
  "str_exn (Exn c m) = m"

fun exn_class_of :: "exn \<Rightarrow> exn_class" where
  "exn_class_of (Exn c m) = c"

section \<open>Programs that mutate a state and may raise\<close>

text \<open>
  A method is a function from the state before the call to its outcome (an exception or
  a value) and the state the call leaves behind: a raise keeps the mutations done before it.
\<close>

type_synonym ('a, 's) prog = "'s \<Rightarrow> (exn + 'a) \<times> 's"

definition ret :: "'a \<Rightarrow> ('a, 's) prog" where
  "ret x = (\<lambda>s. (Inr x, s))"

definition raise :: "exn \<Rightarrow> ('a, 's) prog" where
  "raise e = (\<lambda>s. (Inl e, s))"

definition bind :: "('a, 's) prog \<Rightarrow> ('a \<Rightarrow> ('b, 's) prog) \<Rightarrow> ('b, 's) prog" where
  "bind m f = (\<lambda>s. case m s of (Inl e, s') \<Rightarrow> (Inl e, s') | (Inr x, s') \<Rightarrow> f x s')"

definition get_state :: "('s, 's) prog" where
  "get_state = (\<lambda>s. (Inr s, s))"

definition modify :: "('s \<Rightarrow> 's) \<Rightarrow> (unit, 's) prog" where
  "modify f = (\<lambda>s. (Inr (), f s))"

text \<open>A pure collaborator call that may raise.\<close>

definition lift :: "exn + 'a \<Rightarrow> ('a, 's) prog" where
  "lift r = (\<lambda>s. (r, s))"

text \<open>A list comprehension or \<open>for\<close> loop whose body runs in the state, collecting the results.\<close>

fun for_each :: "('a \<Rightarrow> ('b, 's) prog) \<Rightarrow> 'a list \<Rightarrow> ('b list, 's) prog" where
  "for_each f [] = ret []"
| "for_each f (x # xs) = bind (f x) (\<lambda>y. bind (for_each f xs) (\<lambda>ys. ret (y # ys)))"

definition returns :: "(exn + 'a) \<times> 's \<Rightarrow> bool" where
  "returns r = (case fst r of Inl e \<Rightarrow> False | Inr x \<Rightarrow> True)"

section \<open>The tuner (\<open>tuners/skopt_tuner.py\<close>)\<close>

text \<open>
  \<open>SKOptTuner\<close> holds the optimizer \<open>opt\<close> and the flattened search space of its base
  class. The optimizer backend and the base class \<open>Tuner\<close> are collaborators: their
  operations are the fields of \<open>backend\<close>, over any optimizer state \<open>'o\<close>.
\<close>

record 'o SKOptTuner =
  search_space_ranges :: "pyval list"
  opt :: "'o"

datatype log_level = DEBUG | ERROR

type_synonym log = "(log_level \<times> string) list"

record 'o backend =
  convert_to_flat_parameters :: "'o SKOptTuner \<Rightarrow> params \<Rightarrow> exn + pyval list"
  convert_to_pipeline_parameters :: "'o SKOptTuner \<Rightarrow> pyval list \<Rightarrow> exn + params"
  opt_tell :: "pyval list \<Rightarrow> score \<Rightarrow> (unit, 'o) prog"
  opt_ask :: "(pyval list, 'o) prog"
  str_params :: "params \<Rightarrow> string"
  str_score :: "score \<Rightarrow> string"
  str_flat :: "pyval list \<Rightarrow> string"

text \<open>The one message of the backend that \<open>add\<close> turns into a \<open>ParameterError\<close>.\<close>

definition not_supported_msg :: string where
  "not_supported_msg =
     CHR 0x27 # ''<=' not supported between instances of 'int' and 'NoneType'' @ [CHR 0x27]"

text \<open>
  The two format strings of \<open>add\<close>. The debug record is filled positionally with
  \<open>(pipeline_parameters, score, flat_parameter_values, e)\<close>, so the parameters stand
  after \<open>Score:\<close> and the score after \<open>Parameters:\<close>, as in the source.
\<close>

definition debug_msg :: "'o backend \<Rightarrow> params \<Rightarrow> score \<Rightarrow> pyval list \<Rightarrow> exn \<Rightarrow> string" where
  "debug_msg B pipeline_parameters sc flat e =
     ''SKOpt tuner received error during add. Score: '' @ str_params B pipeline_parameters
     @ [CHR 0x0A] @ ''Parameters: '' @ str_score B sc
     @ [CHR 0x0A] @ ''Flat parameter values: '' @ str_flat B flat
     @ [CHR 0x0A] @ ''Error: '' @ str_exn e"

definition parameter_error_msg :: "'o backend \<Rightarrow> params \<Rightarrow> exn \<Rightarrow> string" where
  "parameter_error_msg B pipeline_parameters e =
     ''Invalid parameters specified to SKOptTuner.add: parameters ''
     @ str_params B pipeline_parameters @ '' error '' @ str_exn e"

text \<open>
  \<open>SKOptTuner.add\<close>: the outcome, the tuner after the call and the log records written.
  \<open>_convert_to_flat_parameters\<close> runs before the \<open>try\<close>, so what it raises is not caught.
\<close>

definition add ::
  "'o backend \<Rightarrow> params \<Rightarrow> score \<Rightarrow> 'o SKOptTuner \<Rightarrow> ((exn + unit) \<times> 'o SKOptTuner) \<times> log" where
  "add B pipeline_parameters sc t =
     (if isnull sc then ((Inr (), t), [])
      else case convert_to_flat_parameters B t pipeline_parameters of
        Inl e \<Rightarrow> ((Inl e, t), [])
      | Inr flat_parameter_values \<Rightarrow>
          (case opt_tell B flat_parameter_values sc (opt t) of
             (Inr u, o') \<Rightarrow> ((Inr (), t\<lparr>opt := o'\<rparr>), [])
           | (Inl e, o') \<Rightarrow>
               (if str_exn e = not_supported_msg
                then ((Inl (Exn ParameterError (parameter_error_msg B pipeline_parameters e)),
                       t\<lparr>opt := o'\<rparr>),
                      [(DEBUG, debug_msg B pipeline_parameters sc flat_parameter_values e),
                       (ERROR, parameter_error_msg B pipeline_parameters e)])
                else ((Inl e, t\<lparr>opt := o'\<rparr>),
                      [(DEBUG, debug_msg B pipeline_parameters sc flat_parameter_values e)]))))"

text \<open>\<open>SKOptTuner.propose\<close>: an empty search space never reaches the optimizer.\<close>

definition propose :: "'o backend \<Rightarrow> (params, 'o SKOptTuner) prog" where
  "propose B t =
     (if length (search_space_ranges t) = 0
      then (convert_to_pipeline_parameters B t [], t)
      else case opt_ask B (opt t) of
        (Inl e, o') \<Rightarrow> (Inl e, t\<lparr>opt := o'\<rparr>)
      | (Inr flat_parameters, o') \<Rightarrow>
          (convert_to_pipeline_parameters B (t\<lparr>opt := o'\<rparr>) flat_parameters, t\<lparr>opt := o'\<rparr>))"

text \<open>The proposals of \<open>n\<close> successive \<open>propose()\<close> calls.\<close>

fun proposals :: "'o backend \<Rightarrow> nat \<Rightarrow> 'o SKOptTuner \<Rightarrow> (exn + params) list" where
  "proposals B 0 t = []"
| "proposals B (Suc n) t = (case propose B t of (r, t') \<Rightarrow> r # proposals B n t')"

subsection \<open>A concrete backend\<close>

text \<open>
  An optimizer that records its observations, proposes the number of observations it has
  as the single flat value, and rejects a negative first value with the message that
  \<open>add\<close> looks for, and a first value above 100 with another message.
\<close>

fun show_score :: "score \<Rightarrow> string" where
  "show_score None = ''None''"
| "show_score (Some NaN) = ''nan''"
| "show_score (Some PosInf) = ''inf''"
| "show_score (Some NegInf) = ''-inf''"
| "show_score (Some (Finite x)) = (if x = 1 then ''1.0'' else if x = 2 then ''2.0'' else ''x'')"

definition list_tell :: "pyval list \<Rightarrow> score \<Rightarrow> (unit, (pyval list \<times> score) list) prog" where
  "list_tell flat sc obs =
     (case flat of
        PInt i # rest \<Rightarrow>
          (if i < 0 then (Inl (Exn TypeError not_supported_msg), obs)
           else if 100 < i then (Inl (Exn ValueError ''Point is not within the bounds''), obs)
           else (Inr (), obs @ [(flat, sc)]))
      | other \<Rightarrow> (Inr (), obs @ [(flat, sc)]))"

definition list_backend :: "(pyval list \<times> score) list backend" where
  "list_backend = \<lparr>
     convert_to_flat_parameters =
       (\<lambda>t ps. case ps of
          [] \<Rightarrow> Inl (Exn TypeError ''Pipeline parameters missing required field'')
        | cp # rest \<Rightarrow> Inr (concat (map (\<lambda>cp. map snd (snd cp)) ps))),
     convert_to_pipeline_parameters =
       (\<lambda>t flat. case flat of
          [] \<Rightarrow> Inr []
        | v # vs \<Rightarrow> Inr [(''Estimator'', [(''x'', v)])]),
     opt_tell = list_tell,
     opt_ask = (\<lambda>obs. (Inr [PInt (int (length obs))], obs)),
     str_params = (\<lambda>ps. concat (map fst ps)),
     str_score = show_score,
     str_flat = (\<lambda>flat. ''[..]'') \<rparr>"

definition tuner0 :: "(pyval list \<times> score) list SKOptTuner" where
  "tuner0 = \<lparr> search_space_ranges = [Integer 0 100], opt = [] \<rparr>"

section \<open>The batch algorithm (\<open>automl/automl_algorithm/evalml_algorithm.py\<close>)\<close>

subsection \<open>Pipelines and the algorithm's state\<close>

text \<open>
  The members of the enumeration \<open>ModelFamily\<close> that the sources name; the algorithm
  only ever compares a family with \<open>ENSEMBLE\<close>.
\<close>

datatype model_family =
    ENSEMBLE | LINEAR_MODEL | RANDOM_FOREST | SVM | DECISION_TREE
  | VOWPAL_WABBIT | PROPHET | NONE

datatype problem_type =
    BINARY | MULTICLASS | REGRESSION
  | TIME_SERIES_REGRESSION | TIME_SERIES_BINARY | TIME_SERIES_MULTICLASS

text \<open>A component class is identified by its name.\<close>

type_synonym component_class = string

text \<open>The attributes of a pipeline object that the algorithm reads.\<close>

record pipeline =
  name :: string
  model_family :: model_family
  parameters :: params
  component_graph :: "(string \<times> component_class) list"
  linearized_component_graph :: "(string \<times> component_class) list"
  estimator :: component_class
  problem_type :: problem_type

text \<open>
  One entry of \<open>_best_pipeline_info\<close>: the dict with the keys \<open>mean_cv_score\<close>,
  \<open>pipeline\<close>, \<open>parameters\<close> and \<open>id\<close>.
\<close>

record best_info =
  mean_cv_score :: pyfloat
  info_pipeline :: pipeline
  info_parameters :: params
  info_id :: pyval

text \<open>
  The instance attributes. The dicts are association lists in insertion order:
  \<open>AList.update\<close> overwrites a present key in place and appends a new one, as a
  Python dict does, and the order of \<open>_best_pipeline_info.values()\<close> decides the first
  input pipeline of the ensemble and the ties of the top-n sort.
\<close>

record 'o evalml_algorithm =
  self_problem_type :: problem_type
  sampler_name :: pyval
  random_seed :: int
  n_jobs :: pyval
  number_features :: pyval
  text_in_ensembling :: pyval
  pipeline_params :: pyval
  custom_hyperparameters :: pyval
  batch_number :: nat
  pipeline_number :: nat
  tuners :: "(string \<times> 'o SKOptTuner) list"
  best_pipeline_info :: "(model_family \<times> best_info) list"
  selected_cols :: "string list option"
  top_n_pipelines :: "pipeline list option"

text \<open>
  The collaborators of the algorithm: the pipeline factory, the component registry, the
  search-space extractor, the tuner class and the base class's \<open>add_result\<close>, each a
  field. \<open>X\<close> and \<open>y\<close> are fixed inside \<open>make_pipeline\<close>.
\<close>

record 'o collaborators =
  is_regression :: "problem_type \<Rightarrow> bool"
  handle_component_class :: "string \<Rightarrow> exn + component_class"
  get_estimators :: "problem_type \<Rightarrow> exn + component_class list"
  make_pipeline ::
    "component_class \<Rightarrow> problem_type \<Rightarrow> pyval \<Rightarrow> component_class list \<Rightarrow> exn + pipeline"
  pipeline_new :: "pipeline \<Rightarrow> params \<Rightarrow> int \<Rightarrow> exn + pipeline"
  make_stacked_ensemble_pipeline ::
    "pipeline list \<Rightarrow> problem_type \<Rightarrow> int \<Rightarrow> pyval \<Rightarrow> exn + pipeline"
  get_hyperparameter_ranges :: "(string \<times> component_class) list \<Rightarrow> pyval \<Rightarrow> exn + pyval"
  tuner_class :: "pyval \<Rightarrow> int \<Rightarrow> exn + 'o SKOptTuner"
  tuner_backend :: "'o backend"
  has_n_jobs :: "component_class \<Rightarrow> bool"
  get_component_names :: "pipeline \<Rightarrow> string \<Rightarrow> exn + string list"
  base_add_result ::
    "score \<Rightarrow> pipeline \<Rightarrow> (string \<times> pyval) list \<Rightarrow> (unit, (string \<times> 'o SKOptTuner) list) prog"

subsection \<open>The constructor\<close>

text \<open>Python's truth value of an argument.\<close>

fun truthy :: "pyval \<Rightarrow> bool" where
  "truthy PNone = False"
| "truthy (PBool b) = b"
| "truthy (PInt i) = (i \<noteq> 0)"
| "truthy (PFloat x) = (x \<noteq> Finite 0)"
| "truthy (PStr s) = (s \<noteq> [])"
| "truthy (PList xs) = (xs \<noteq> [])"
| "truthy (PDict kvs) = (kvs \<noteq> [])"
| "truthy (Integer lo hi) = True"
| "truthy (Real lo hi) = True"
| "truthy (Categorical cs) = True"

fun isinstance_dict :: "pyval \<Rightarrow> bool" where
  "isinstance_dict (PDict kvs) = True"
| "isinstance_dict v = False"

text \<open>\<open>isinstance(v, (Integer, Real, Categorical))\<close>.\<close>

fun isinstance_space :: "pyval \<Rightarrow> bool" where
  "isinstance_space (Integer lo hi) = True"
| "isinstance_space (Real lo hi) = True"
| "isinstance_space (Categorical cs) = True"
| "isinstance_space v = False"

fun type_name :: "pyval \<Rightarrow> string" where
  "type_name PNone = ''NoneType''"
| "type_name (PBool b) = ''bool''"
| "type_name (PInt i) = ''int''"
| "type_name (PFloat x) = ''float''"
| "type_name (PStr s) = ''str''"
| "type_name (PList xs) = ''list''"
| "type_name (PDict kvs) = ''dict''"
| "type_name (Integer lo hi) = ''Integer''"
| "type_name (Real lo hi) = ''Real''"
| "type_name (Categorical cs) = ''Categorical''"

definition no_attribute :: "pyval \<Rightarrow> string \<Rightarrow> exn" where
  "no_attribute v attr =
     Exn AttributeError
       ([CHR 0x27] @ type_name v @ [CHR 0x27] @ '' object has no attribute ''
        @ [CHR 0x27] @ attr @ [CHR 0x27])"

text \<open>\<open>v.values()\<close> and \<open>v.items()\<close>: only a dict has them.\<close>

fun dict_values :: "pyval \<Rightarrow> exn + pyval list" where
  "dict_values (PDict kvs) = Inr (map snd kvs)"
| "dict_values v = Inl (no_attribute v ''values'')"

fun dict_items :: "pyval \<Rightarrow> exn + (string \<times> pyval) list" where
  "dict_items (PDict kvs) = Inr kvs"
| "dict_items v = Inl (no_attribute v ''items'')"

definition pipeline_params_error :: exn where
  "pipeline_params_error = Exn ValueError
     ''Pipeline parameters should not contain skopt.Space variables, please pass them to custom_hyperparameters instead!''"

definition custom_hyperparameters_error :: exn where
  "custom_hyperparameters_error = Exn ValueError
     ''Custom hyperparameters should only contain skopt.Space variables such as Categorical, Integer, and Real!''"

definition not_dict_error :: "pyval \<Rightarrow> exn" where
  "not_dict_error v = Exn ValueError
     (''If custom_hyperparameters provided, must be of type dict. Received <class ''
      @ [CHR 0x27] @ type_name v @ [CHR 0x27] @ ''>'')"

text \<open>
  The two validation loops of \<open>__init__\<close>: the outer one over the per-component values,
  the inner one over the items of each; the first offending leaf raises \<open>err\<close>, and a
  per-component value without \<open>items\<close> raises before its leaves are looked at.
\<close>

fun check_leaves :: "(pyval \<Rightarrow> bool) \<Rightarrow> exn \<Rightarrow> (string \<times> pyval) list \<Rightarrow> exn + unit" where
  "check_leaves bad err [] = Inr ()"
| "check_leaves bad err ((k, v) # kvs) =
     (if bad v then Inl err else check_leaves bad err kvs)"

fun check_components :: "(pyval \<Rightarrow> bool) \<Rightarrow> exn \<Rightarrow> pyval list \<Rightarrow> exn + unit" where
  "check_components bad err [] = Inr ()"
| "check_components bad err (name_val # rest) =
     (case dict_items name_val of
        Inl e \<Rightarrow> Inl e
      | Inr kvs \<Rightarrow>
          (case check_leaves bad err kvs of
             Inl e \<Rightarrow> Inl e
           | Inr u \<Rightarrow> check_components bad err rest))"

definition check_mapping :: "(pyval \<Rightarrow> bool) \<Rightarrow> exn \<Rightarrow> pyval \<Rightarrow> exn + unit" where
  "check_mapping bad err m =
     (case dict_values m of
        Inl e \<Rightarrow> Inl e
      | Inr vals \<Rightarrow> check_components bad err vals)"

text \<open>
  \<open>EvalMLAlgorithm.__init__\<close>. Modelled from the spec: the base class's constructor,
  whose source is absent, starts both counters at 0 with an empty tuner table.
\<close>

definition init ::
  "problem_type \<Rightarrow> pyval \<Rightarrow> int \<Rightarrow> pyval \<Rightarrow> pyval \<Rightarrow> pyval \<Rightarrow> pyval \<Rightarrow> pyval
   \<Rightarrow> exn + 'o evalml_algorithm" where
  "init pt sampler seed pipeline_params_arg custom_hyperparameters_arg n_jobs_arg
        number_features_arg text_in_ensembling_arg =
     (let self = \<lparr>
            self_problem_type = pt,
            sampler_name = sampler,
            random_seed = seed,
            n_jobs = n_jobs_arg,
            number_features = number_features_arg,
            text_in_ensembling = text_in_ensembling_arg,
            pipeline_params =
              (if truthy pipeline_params_arg then pipeline_params_arg else PDict []),
            custom_hyperparameters =
              (if truthy custom_hyperparameters_arg then custom_hyperparameters_arg else PDict []),
            batch_number = 0,
            pipeline_number = 0,
            tuners = [],
            best_pipeline_info = [],
            selected_cols = None,
            top_n_pipelines = None \<rparr>
      in if truthy custom_hyperparameters_arg \<and> \<not> isinstance_dict custom_hyperparameters_arg
         then Inl (not_dict_error custom_hyperparameters_arg)
         else case check_mapping isinstance_space pipeline_params_error (pipeline_params self) of
           Inl e \<Rightarrow> Inl e
         | Inr u \<Rightarrow>
             (case check_mapping (\<lambda>v. \<not> isinstance_space v) custom_hyperparameters_error
                     (custom_hyperparameters self) of
                Inl e \<Rightarrow> Inl e
              | Inr u \<Rightarrow> Inr self))"

text \<open>A nested mapping: a dict whose every per-component value is a dict.\<close>

fun nested_mapping :: "pyval \<Rightarrow> bool" where
  "nested_mapping (PDict kvs) = list_all (\<lambda>kv. isinstance_dict (snd kv)) kvs"
| "nested_mapping v = False"

text \<open>The leaves of a nested mapping, in iteration order.\<close>

fun leaves :: "pyval \<Rightarrow> pyval list" where
  "leaves (PDict kvs) =
     concat (map (\<lambda>kv. case snd kv of PDict ps \<Rightarrow> map snd ps | other \<Rightarrow> []) kvs)"
| "leaves v = []"

subsection \<open>Building the batches\<close>

definition naive_estimators :: "'o collaborators \<Rightarrow> (component_class list, 'o evalml_algorithm) prog" where
  "naive_estimators C =
     bind get_state (\<lambda>self.
       if is_regression C (self_problem_type self)
       then for_each (\<lambda>estimator. lift (handle_component_class C estimator))
              [''Linear Regressor'', ''Random Forest Regressor'']
       else for_each (\<lambda>estimator. lift (handle_component_class C estimator))
              [''Logistic Regression Classifier'', ''Random Forest Classifier''])"

definition create_naive_pipelines :: "'o collaborators \<Rightarrow> (pipeline list, 'o evalml_algorithm) prog" where
  "create_naive_pipelines C =
     bind (naive_estimators C) (\<lambda>estimators.
     bind get_state (\<lambda>self.
       for_each (\<lambda>estimator.
           lift (make_pipeline C estimator (self_problem_type self) (sampler_name self) []))
         estimators))"

definition create_naive_pipelines_with_feature_selection ::
  "'o collaborators \<Rightarrow> (pipeline list, 'o evalml_algorithm) prog" where
  "create_naive_pipelines_with_feature_selection C =
     bind get_state (\<lambda>self.
     let feature_selector =
           (if is_regression C (self_problem_type self)
            then ''RFRegressorSelectFromModel'' else ''RFClassifierSelectFromModel'')
     in bind (naive_estimators C) (\<lambda>estimators.
        for_each (\<lambda>estimator.
            lift (make_pipeline C estimator (self_problem_type self) (sampler_name self)
                    [feature_selector]))
          estimators))"

definition create_tuner :: "'o collaborators \<Rightarrow> pipeline \<Rightarrow> (unit, 'o evalml_algorithm) prog" where
  "create_tuner C pipeline =
     bind get_state (\<lambda>self.
     bind (lift (get_hyperparameter_ranges C (component_graph pipeline)
                   (custom_hyperparameters self))) (\<lambda>pipeline_hyperparameters.
     bind (lift (tuner_class C pipeline_hyperparameters (random_seed self))) (\<lambda>tuner.
       modify (\<lambda>s. s\<lparr>tuners := AList.update (name pipeline) tuner (tuners s)\<rparr>))))"

text \<open>The value bound to \<open>columns\<close>: \<open>self._selected_cols\<close>, a list of names or \<open>None\<close>.\<close>

definition columns_value :: "string list option \<Rightarrow> pyval" where
  "columns_value cols = (case cols of None \<Rightarrow> PNone | Some names \<Rightarrow> PList (map PStr names))"

definition select_columns_parameters :: "string list option \<Rightarrow> component_parameters" where
  "select_columns_parameters cols = [(''columns'', columns_value cols)]"

text \<open>
  The comprehension of \<open>_create_fast_final\<close> calls \<open>_naive_estimators()\<close> once for
  every registered estimator it filters.
\<close>

definition create_fast_final :: "'o collaborators \<Rightarrow> (pipeline list, 'o evalml_algorithm) prog" where
  "create_fast_final C =
     bind get_state (\<lambda>self.
     bind (lift (get_estimators C (self_problem_type self))) (\<lambda>registered.
     bind (for_each (\<lambda>estimator.
              bind (naive_estimators C) (\<lambda>naive. ret (estimator, estimator \<notin> set naive)))
            registered) (\<lambda>marked.
     let estimators = map fst (filter snd marked)
     in bind (for_each (\<lambda>estimator.
                 lift (make_pipeline C estimator (self_problem_type self) (sampler_name self)
                         [''SelectColumns'']))
               estimators) (\<lambda>pipelines.
        bind (for_each (\<lambda>pipeline.
                 lift (pipeline_new C pipeline
                         [(''Select Columns Transformer'',
                           select_columns_parameters (selected_cols self))]
                         (random_seed self)))
               pipelines) (\<lambda>pipelines.
        bind (for_each (create_tuner C) pipelines) (\<lambda>u.
          ret pipelines))))))"

text \<open>
  \<open>_transform_parameters\<close>. \<open>proposed_parameters.get(name, {})\<close> hands out the dict
  stored under \<open>name\<close> itself, so setting \<open>n_jobs\<close> in it also changes the caller's
  \<open>proposed_parameters\<close>: one step returns the parameters built so far and the proposed
  parameters as the loop leaves them.
\<close>

fun transform_step ::
  "'o collaborators \<Rightarrow> pyval \<Rightarrow> params \<times> params \<Rightarrow> string \<times> component_class \<Rightarrow> params \<times> params" where
  "transform_step C jobs (parameters', proposed_parameters) (component_name, component_class) =
     (case map_of proposed_parameters component_name of
        None \<Rightarrow>
          (AList.update component_name
             (if has_n_jobs C component_class then [(''n_jobs'', jobs)] else []) parameters',
           proposed_parameters)
      | Some component_parameters \<Rightarrow>
          (let component_parameters' =
                 (if has_n_jobs C component_class
                  then AList.update ''n_jobs'' jobs component_parameters
                  else component_parameters)
           in (AList.update component_name component_parameters' parameters',
               AList.update component_name component_parameters' proposed_parameters)))"

definition transform_parameters ::
  "'o collaborators \<Rightarrow> 'o evalml_algorithm \<Rightarrow> pipeline \<Rightarrow> params \<Rightarrow> params \<times> params" where
  "transform_parameters C self pipeline proposed_parameters =
     foldl (transform_step C (n_jobs self)) ([], proposed_parameters)
       (linearized_component_graph pipeline)"

text \<open>
  One round of the loop of \<open>_create_ensemble\<close>, for the entry of one family: the
  parameters stored in the entry are the dict that \<open>_transform_parameters\<close> writes to.
\<close>

definition ensemble_input :: "'o collaborators \<Rightarrow> model_family \<Rightarrow> (pipeline, 'o evalml_algorithm) prog" where
  "ensemble_input C family =
     bind get_state (\<lambda>self.
       case map_of (best_pipeline_info self) family of
         None \<Rightarrow> raise (Exn KeyError ''family'')
       | Some pipeline_dict \<Rightarrow>
           (case transform_parameters C self (info_pipeline pipeline_dict)
                   (info_parameters pipeline_dict) of
              (parameters', pipeline_params') \<Rightarrow>
                bind (modify (\<lambda>s. s\<lparr>best_pipeline_info :=
                         AList.update family (pipeline_dict\<lparr>info_parameters := pipeline_params'\<rparr>)
                           (best_pipeline_info s)\<rparr>)) (\<lambda>u.
                  lift (pipeline_new C (info_pipeline pipeline_dict) parameters' (random_seed self)))))"

definition create_ensemble :: "'o collaborators \<Rightarrow> (pipeline list, 'o evalml_algorithm) prog" where
  "create_ensemble C =
     bind get_state (\<lambda>self.
     bind (for_each (ensemble_input C) (map fst (best_pipeline_info self))) (\<lambda>input_pipelines.
     let n_jobs_ensemble = (if truthy (text_in_ensembling self) then PInt 1 else n_jobs self)
     in case input_pipelines of
          [] \<Rightarrow> raise (Exn IndexError ''list index out of range'')
        | first # others \<Rightarrow>
            bind (lift (make_stacked_ensemble_pipeline C input_pipelines (problem_type first)
                          (random_seed self) n_jobs_ensemble)) (\<lambda>ensemble.
              ret [ensemble])))"

text \<open>
  \<open>estimators.sort(key=...)\<close>: a stable sort by the score. The scores of the table are
  never NaN, so \<open>float_lt\<close> orders them totally.
\<close>

fun insort_score :: "'a \<times> pyfloat \<Rightarrow> ('a \<times> pyfloat) list \<Rightarrow> ('a \<times> pyfloat) list" where
  "insort_score x [] = [x]"
| "insort_score x (y # ys) =
     (if float_lt (snd y) (snd x) then y # insort_score x ys else x # y # ys)"

definition sort_by_score :: "('a \<times> pyfloat) list \<Rightarrow> ('a \<times> pyfloat) list" where
  "sort_by_score xs = foldr insort_score xs []"

text \<open>
  The body that the loops of \<open>_create_long_top_n\<close> and of \<open>next_batch\<close> share: ask the
  pipeline's tuner for a proposal, fix \<open>n_jobs\<close>, bind the selected columns and
  instantiate the pipeline.
\<close>

definition propose_pipeline :: "'o collaborators \<Rightarrow> pipeline \<Rightarrow> (pipeline, 'o evalml_algorithm) prog" where
  "propose_pipeline C pipeline =
     bind get_state (\<lambda>self.
       case map_of (tuners self) (name pipeline) of
         None \<Rightarrow> raise (Exn KeyError (name pipeline))
       | Some tuner \<Rightarrow>
           (case propose (tuner_backend C) tuner of
              (outcome, tuner') \<Rightarrow>
                bind (modify (\<lambda>s. s\<lparr>tuners := AList.update (name pipeline) tuner' (tuners s)\<rparr>)) (\<lambda>u.
                bind (lift outcome) (\<lambda>proposed_parameters.
                let parameters =
                      AList.update ''Select Columns Transformer''
                        (select_columns_parameters (selected_cols self))
                        (fst (transform_parameters C self pipeline proposed_parameters))
                in lift (pipeline_new C pipeline parameters (random_seed self))))))"

definition propose_with_tuner :: "'o collaborators \<Rightarrow> pipeline \<Rightarrow> (pipeline, 'o evalml_algorithm) prog" where
  "propose_with_tuner C pipeline =
     bind get_state (\<lambda>self.
     bind (if name pipeline \<notin> fst ` set (tuners self) then create_tuner C pipeline else ret ()) (\<lambda>u.
       propose_pipeline C pipeline))"

definition create_long_top_n :: "'o collaborators \<Rightarrow> nat \<Rightarrow> (pipeline list, 'o evalml_algorithm) prog" where
  "create_long_top_n C n =
     bind get_state (\<lambda>self.
     let estimators =
           map (\<lambda>pipeline_dict. (estimator (info_pipeline pipeline_dict), mean_cv_score pipeline_dict))
             (map snd (best_pipeline_info self));
         estimators = take n (sort_by_score estimators);
         estimators = map fst estimators
     in bind (for_each (\<lambda>estimator.
                 lift (make_pipeline C estimator (self_problem_type self) (sampler_name self)
                         [''SelectColumns'']))
               estimators) (\<lambda>pipelines.
        bind (modify (\<lambda>s. s\<lparr>top_n_pipelines := Some pipelines\<rparr>)) (\<lambda>u.
          for_each (propose_with_tuner C) (concat (replicate 50 pipelines)))))"

subsection \<open>\<open>next_batch\<close> and \<open>add_result\<close>\<close>

definition next_batch :: "'o collaborators \<Rightarrow> (pipeline list, 'o evalml_algorithm) prog" where
  "next_batch C =
     bind get_state (\<lambda>self.
     bind (if batch_number self = 0 then create_naive_pipelines C
           else if batch_number self = 1 then create_naive_pipelines_with_feature_selection C
           else if batch_number self = 2 then create_fast_final C
           else if batch_number self = 3 then create_ensemble C
           else if batch_number self = 4 then create_long_top_n C 3
           else if batch_number self mod 2 \<noteq> 0 then create_ensemble C
           else (case top_n_pipelines self of
                   None \<Rightarrow> raise (Exn TypeError
                             ([CHR 0x27] @ ''NoneType'' @ [CHR 0x27] @ '' object is not iterable''))
                 | Some pipelines \<Rightarrow>
                     for_each (propose_pipeline C) (concat (replicate 10 pipelines))))
       (\<lambda>next_batch.
     bind (modify (\<lambda>s. s\<lparr>pipeline_number := pipeline_number s + length next_batch\<rparr>)) (\<lambda>u.
     bind (modify (\<lambda>s. s\<lparr>batch_number := batch_number s + 1\<rparr>)) (\<lambda>u.
       ret next_batch))))"

text \<open>
  The call of the base class's \<open>add_result\<close>, whose source is absent: the collaborator
  \<open>base_add_result\<close>, run on the tuner table.
  Modelled from the spec: the base class's bookkeeping registers the result with the
  tuners and touches no other attribute of the algorithm.
\<close>

definition super_add_result ::
  "'o collaborators \<Rightarrow> score \<Rightarrow> pipeline \<Rightarrow> (string \<times> pyval) list \<Rightarrow> (unit, 'o evalml_algorithm) prog" where
  "super_add_result C score_to_minimize pipeline trained_pipeline_results =
     (\<lambda>self. case base_add_result C score_to_minimize pipeline trained_pipeline_results (tuners self) of
        (outcome, tuners') \<Rightarrow> (outcome, self\<lparr>tuners := tuners'\<rparr>))"

text \<open>\<open>self._best_pipeline_info.get(family, {}).get("mean_cv_score", np.inf)\<close>.\<close>

definition current_best_score :: "'o evalml_algorithm \<Rightarrow> model_family \<Rightarrow> pyfloat" where
  "current_best_score self family =
     (case map_of (best_pipeline_info self) family of
        None \<Rightarrow> PosInf
      | Some pipeline_dict \<Rightarrow> mean_cv_score pipeline_dict)"

definition add_result ::
  "'o collaborators \<Rightarrow> score \<Rightarrow> pipeline \<Rightarrow> (string \<times> pyval) list \<Rightarrow> (unit, 'o evalml_algorithm) prog" where
  "add_result C score_to_minimize pipeline trained_pipeline_results =
     bind get_state (\<lambda>self.
     bind (if model_family pipeline \<noteq> ENSEMBLE
           then (if batch_number self \<ge> 3
                 then super_add_result C score_to_minimize pipeline trained_pipeline_results
                 else ret ())
           else ret ()) (\<lambda>u.
     bind get_state (\<lambda>self.
     bind (if batch_number self = 2 \<and> selected_cols self = None
           then (if is_regression C (self_problem_type self)
                 then bind (lift (get_component_names C pipeline ''RF Regressor Select From Model''))
                        (\<lambda>names. modify (\<lambda>s. s\<lparr>selected_cols := Some names\<rparr>))
                 else bind (lift (get_component_names C pipeline ''RF Classifier Select From Model''))
                        (\<lambda>names. modify (\<lambda>s. s\<lparr>selected_cols := Some names\<rparr>)))
           else ret ()) (\<lambda>u.
     bind get_state (\<lambda>self.
       case score_to_minimize of
         None \<Rightarrow> ret ()
       | Some new_score \<Rightarrow>
           if float_lt new_score (current_best_score self (model_family pipeline))
              \<and> model_family pipeline \<noteq> ENSEMBLE
           then (case map_of trained_pipeline_results ''id'' of
                   None \<Rightarrow> raise (Exn KeyError ([CHR 0x27] @ ''id'' @ [CHR 0x27]))
                 | Some result_id \<Rightarrow>
                     modify (\<lambda>s. s\<lparr>best_pipeline_info :=
                       AList.update (model_family pipeline)
                         \<lparr> mean_cv_score = new_score,
                           info_pipeline = pipeline,
                           info_parameters = parameters pipeline,
                           info_id = result_id \<rparr>
                         (best_pipeline_info s)\<rparr>))
           else ret ())))))"

subsection \<open>The driver\<close>

text \<open>
  The external driver calls \<open>next_batch\<close> and \<open>add_result\<close> in some order. A run
  continues after a call that raised, in the state that call left behind.
\<close>

datatype call = NextBatch | AddResult score pipeline "(string \<times> pyval) list"

fun call_of :: "'o collaborators \<Rightarrow> call \<Rightarrow> (pipeline list, 'o evalml_algorithm) prog" where
  "call_of C NextBatch = next_batch C"
| "call_of C (AddResult score_to_minimize pipeline trained_pipeline_results) =
     bind (add_result C score_to_minimize pipeline trained_pipeline_results) (\<lambda>u. ret [])"

fun run :: "'o collaborators \<Rightarrow> call list \<Rightarrow> 'o evalml_algorithm \<Rightarrow> 'o evalml_algorithm" where
  "run C [] self = self"
| "run C (c # cs) self = run C cs (snd (call_of C c self))"

text \<open>The batches that the \<open>next_batch\<close> calls of a run returned, in order.\<close>

fun returned_batches ::
  "'o collaborators \<Rightarrow> call list \<Rightarrow> 'o evalml_algorithm \<Rightarrow> pipeline list list" where
  "returned_batches C [] self = []"
| "returned_batches C (NextBatch # cs) self =
     (case next_batch C self of
        (Inl e, self') \<Rightarrow> returned_batches C cs self'
      | (Inr batch, self') \<Rightarrow> batch # returned_batches C cs self')"
| "returned_batches C (c # cs) self = returned_batches C cs (snd (call_of C c self))"

definition is_next_batch :: "call \<Rightarrow> bool" where
  "is_next_batch c = (case c of NextBatch \<Rightarrow> True | AddResult sc p r \<Rightarrow> False)"

text \<open>Every \<open>next_batch\<close> call of the run returns.\<close>

fun all_batches_returned :: "'o collaborators \<Rightarrow> call list \<Rightarrow> 'o evalml_algorithm \<Rightarrow> bool" where
  "all_batches_returned C [] self = True"
| "all_batches_returned C (NextBatch # cs) self =
     (returns (next_batch C self) \<and> all_batches_returned C cs (snd (next_batch C self)))"
| "all_batches_returned C (c # cs) self = all_batches_returned C cs (snd (call_of C c self))"

text \<open>
  The float scores of the \<open>add_result\<close> calls of a run that returned, for the
  non-ensemble pipelines of one family, in order.
\<close>

fun seen_scores ::
  "'o collaborators \<Rightarrow> model_family \<Rightarrow> call list \<Rightarrow> 'o evalml_algorithm \<Rightarrow> pyfloat list" where
  "seen_scores C family [] self = []"
| "seen_scores C family (AddResult (Some x) pipeline r # cs) self =
     (if model_family pipeline = family \<and> family \<noteq> ENSEMBLE
         \<and> returns (add_result C (Some x) pipeline r self)
      then x # seen_scores C family cs (snd (add_result C (Some x) pipeline r self))
      else seen_scores C family cs (snd (add_result C (Some x) pipeline r self)))"
| "seen_scores C family (c # cs) self = seen_scores C family cs (snd (call_of C c self))"

text \<open>The lowest of a start value and a list of floats, by \<open><\<close>.\<close>

definition lowest :: "pyfloat \<Rightarrow> pyfloat list \<Rightarrow> pyfloat" where
  "lowest start xs = foldl (\<lambda>best x. if float_lt x best then x else best) start xs"

subsection \<open>Concrete collaborators\<close>

text \<open>
  A small registry of three classifiers, a factory that names a pipeline after its
  estimator and extra components, and a base class that hands each result to the tuner of
  the pipeline's name.
\<close>

definition demo_family :: "component_class \<Rightarrow> model_family" where
  "demo_family c =
     (if c = ''Logistic Regression Classifier'' then LINEAR_MODEL
      else if c = ''Random Forest Classifier'' then RANDOM_FOREST
      else if c = ''Decision Tree Classifier'' then DECISION_TREE
      else NONE)"

definition demo_component_name :: "component_class \<Rightarrow> string" where
  "demo_component_name c =
     (if c = ''SelectColumns'' then ''Select Columns Transformer''
      else if c = ''RFClassifierSelectFromModel'' then ''RF Classifier Select From Model''
      else if c = ''RFRegressorSelectFromModel'' then ''RF Regressor Select From Model''
      else c)"

definition demo_make_pipeline ::
  "component_class \<Rightarrow> problem_type \<Rightarrow> pyval \<Rightarrow> component_class list \<Rightarrow> exn + pipeline" where
  "demo_make_pipeline est pt sampler extra_components =
     Inr \<lparr> name = concat (est # extra_components),
           model_family = demo_family est,
           parameters = [],
           component_graph = map (\<lambda>c. (demo_component_name c, c)) (extra_components @ [est]),
           linearized_component_graph =
             map (\<lambda>c. (demo_component_name c, c)) (extra_components @ [est]),
           estimator = est,
           problem_type = pt \<rparr>"

definition demo_ensemble :: "problem_type \<Rightarrow> pipeline" where
  "demo_ensemble pt =
     \<lparr> name = ''Stacked Ensemble Classification Pipeline'',
       model_family = ENSEMBLE,
       parameters = [],
       component_graph = [],
       linearized_component_graph = [],
       estimator = ''Stacked Ensemble Classifier'',
       problem_type = pt \<rparr>"

definition demo_base_add_result ::
  "score \<Rightarrow> pipeline \<Rightarrow> (string \<times> pyval) list
   \<Rightarrow> (unit, (string \<times> (pyval list \<times> score) list SKOptTuner) list) prog" where
  "demo_base_add_result sc p r ts =
     (case map_of ts (name p) of
        None \<Rightarrow> (Inl (Exn (OtherError ''PipelineNotFoundError'') (name p)), ts)
      | Some t \<Rightarrow>
          (case fst (add list_backend (parameters p) sc t) of
             (outcome, t') \<Rightarrow> (outcome, AList.update (name p) t' ts)))"

definition demo :: "(pyval list \<times> score) list collaborators" where
  "demo = \<lparr>
     is_regression = (\<lambda>pt. pt = REGRESSION \<or> pt = TIME_SERIES_REGRESSION),
     handle_component_class = (\<lambda>c. Inr c),
     get_estimators = (\<lambda>pt. Inr [''Logistic Regression Classifier'',
                                  ''Random Forest Classifier'', ''Decision Tree Classifier'']),
     make_pipeline = demo_make_pipeline,
     pipeline_new = (\<lambda>p ps seed. Inr (p\<lparr>parameters := ps\<rparr>)),
     make_stacked_ensemble_pipeline = (\<lambda>inputs pt seed jobs. Inr (demo_ensemble pt)),
     get_hyperparameter_ranges = (\<lambda>graph custom. Inr (PDict [])),
     tuner_class = (\<lambda>ranges seed. Inr tuner0),
     tuner_backend = list_backend,
     has_n_jobs = (\<lambda>c. c = ''Random Forest Classifier''),
     get_component_names =
       (\<lambda>p component. if component \<in> fst ` set (component_graph p) then Inr [''a'', ''b'']
                       else Inl (Exn ValueError component)),
     base_add_result = demo_base_add_result \<rparr>"

text \<open>The algorithm that the constructor builds for a binary problem with the defaults.\<close>

definition demo_self :: "(pyval list \<times> score) list evalml_algorithm" where
  "demo_self = \<lparr>
     self_problem_type = BINARY,
     sampler_name = PNone,
     random_seed = 0,
     n_jobs = PInt (- 1),
     number_features = PNone,
     text_in_ensembling = PNone,
     pipeline_params = PDict [],
     custom_hyperparameters = PDict [],
     batch_number = 0,
     pipeline_number = 0,
     tuners = [],
     best_pipeline_info = [],
     selected_cols = None,
     top_n_pipelines = None \<rparr>"


text \<open>
  The reading of "not a finite number" in the spec's words: \<open>None\<close>, NaN and the two
  infinities are not finite numbers.
\<close>

fun is_finite_number :: "score \<Rightarrow> bool" where
  "is_finite_number (Some (Finite x)) = True"
| "is_finite_number sc = False"

definition params_in_range :: params where
  "params_in_range = [(''Estimator'', [(''x'', PInt 5)])]"

definition params_out_of_range :: params where
  "params_out_of_range = [(''Estimator'', [(''x'', PInt (- 1))])]"

definition params_too_large :: params where
  "params_too_large = [(''Estimator'', [(''x'', PInt 101)])]"

text \<open>Arguments of the constructor: the scenarios of the specification and well-formed ones.\<close>

definition plain_int_leaf :: pyval where
  "plain_int_leaf = PDict [(''Estimator'', PDict [(''x'', PInt 5)])]"

definition range_leaf :: pyval where
  "range_leaf = PDict [(''Estimator'', PDict [(''n_jobs'', Integer 1 4)])]"

definition good_hyperparameters :: pyval where
  "good_hyperparameters = PDict [(''Estimator'', PDict [(''x'', Integer 1 4)])]"

definition good_pipeline_params :: pyval where
  "good_pipeline_params = PDict [(''Estimator'', PDict [(''n_jobs'', PInt 2)])]"

definition not_nested :: pyval where
  "not_nested = PDict [(''Estimator'', PInt 5)]"

subsection \<open>What a call leaves unchanged\<close>

text \<open>A program keeps an observation \<open>g\<close> of the state when no run of it changes \<open>g\<close>.\<close>

definition keeps :: "('s \<Rightarrow> 'x) \<Rightarrow> ('a, 's) prog \<Rightarrow> bool" where
  "keeps g m = (\<forall>s. g (snd (m s)) = g s)"

text \<open>The two counters of the algorithm.\<close>

definition counters :: "'o evalml_algorithm \<Rightarrow> nat \<times> nat" where
  "counters s = (batch_number s, pipeline_number s)"

text \<open>A pipeline of the first batch and a run of the driver around it.\<close>

definition logistic_pipeline :: pipeline where
  "logistic_pipeline = \<lparr> name = ''Logistic Regression Classifier'',
       model_family = LINEAR_MODEL,
       parameters = [],
       component_graph = [(''Logistic Regression Classifier'', ''Logistic Regression Classifier'')],
       linearized_component_graph = [(''Logistic Regression Classifier'', ''Logistic Regression Classifier'')],
       estimator = ''Logistic Regression Classifier'',
       problem_type = BINARY \<rparr>"

definition demo_calls :: "call list" where
  "demo_calls = [NextBatch, AddResult (Some (Finite 1)) logistic_pipeline [(''id'', PInt 0)],
                 NextBatch, NextBatch]"

subsection \<open>The statements of \<open>add_result\<close> and states of a run\<close>

definition state_after :: "nat \<Rightarrow> (pyval list \<times> score) list evalml_algorithm" where
  "state_after n = run demo (replicate n NextBatch) demo_self"

definition fast_final_pipeline :: pipeline where
  "fast_final_pipeline = \<lparr> name = ''Decision Tree ClassifierSelectColumns'',
       model_family = DECISION_TREE,
       parameters = [(''Select Columns Transformer'', [(''columns'', PNone)])],
       component_graph = [(''Select Columns Transformer'', ''SelectColumns''),
                          (''Decision Tree Classifier'', ''Decision Tree Classifier'')],
       linearized_component_graph = [(''Select Columns Transformer'', ''SelectColumns''),
                          (''Decision Tree Classifier'', ''Decision Tree Classifier'')],
       estimator = ''Decision Tree Classifier'',
       problem_type = BINARY \<rparr>"

definition rf_selector_name :: "'o collaborators \<Rightarrow> 'o evalml_algorithm \<Rightarrow> string" where
  "rf_selector_name C self =
     (if is_regression C (self_problem_type self) then ''RF Regressor Select From Model''
      else ''RF Classifier Select From Model'')"

text \<open>The last statement of \<open>add_result\<close>, run in the state \<open>s\<close>.\<close>

definition record_best ::
  "score \<Rightarrow> pipeline \<Rightarrow> (string \<times> pyval) list \<Rightarrow> (unit, 'o evalml_algorithm) prog" where
  "record_best sc p r s =
     (case sc of
        None \<Rightarrow> (Inr (), s)
      | Some x \<Rightarrow>
          if float_lt x (current_best_score s (model_family p)) \<and> model_family p \<noteq> ENSEMBLE
          then (case map_of r ''id'' of
                  None \<Rightarrow> (Inl (Exn KeyError ([CHR 0x27] @ ''id'' @ [CHR 0x27])), s)
                | Some i \<Rightarrow>
                    (Inr (), s\<lparr>best_pipeline_info :=
                       AList.update (model_family p)
                         \<lparr> mean_cv_score = x, info_pipeline = p,
                           info_parameters = parameters p, info_id = i \<rparr>
                         (best_pipeline_info s)\<rparr>))
          else (Inr (), s))"

text \<open>The middle statement: the extraction of the selected columns.\<close>

definition extract_cols :: "'o collaborators \<Rightarrow> pipeline \<Rightarrow> (unit, 'o evalml_algorithm) prog" where
  "extract_cols C p s =
     (if batch_number s = 2 \<and> selected_cols s = None
      then (case get_component_names C p (rf_selector_name C s) of
              Inl e \<Rightarrow> (Inl e, s)
            | Inr names \<Rightarrow> (Inr (), s\<lparr>selected_cols := Some names\<rparr>))
      else (Inr (), s))"

definition forward :: "'o collaborators \<Rightarrow> score \<Rightarrow> pipeline \<Rightarrow> (string \<times> pyval) list \<Rightarrow> (unit, 'o evalml_algorithm) prog" where
  "forward C sc p r s =
     (if model_family p \<noteq> ENSEMBLE \<and> 3 \<le> batch_number s
      then super_add_result C sc p r s else (Inr (), s))"

definition selector_pipeline :: pipeline where
  "selector_pipeline = \<lparr> name = ''Logistic Regression ClassifierRFClassifierSelectFromModel'',
       model_family = LINEAR_MODEL,
       parameters = [],
       component_graph = [(''RF Classifier Select From Model'', ''RFClassifierSelectFromModel''),
                          (''Logistic Regression Classifier'', ''Logistic Regression Classifier'')],
       linearized_component_graph =
                         [(''RF Classifier Select From Model'', ''RFClassifierSelectFromModel''),
                          (''Logistic Regression Classifier'', ''Logistic Regression Classifier'')],
       estimator = ''Logistic Regression Classifier'',
       problem_type = BINARY \<rparr>"

definition forest_selector_pipeline :: pipeline where
  "forest_selector_pipeline = \<lparr> name = ''Random Forest ClassifierRFClassifierSelectFromModel'',
       model_family = RANDOM_FOREST,
       parameters = [],
       component_graph = [(''RF Classifier Select From Model'', ''RFClassifierSelectFromModel''),
                          (''Random Forest Classifier'', ''Random Forest Classifier'')],
       linearized_component_graph =
                         [(''RF Classifier Select From Model'', ''RFClassifierSelectFromModel''),
                          (''Random Forest Classifier'', ''Random Forest Classifier'')],
       estimator = ''Random Forest Classifier'',
       problem_type = BINARY \<rparr>"

definition with_cols :: "(pyval list \<times> score) list evalml_algorithm" where
  "with_cols = snd (add_result demo (Some (Finite 1)) selector_pipeline [(''id'', PInt 0)]
                     (state_after 2))"

text \<open>The scores of the table, family by family, in the order of the table.\<close>

definition score_table :: "'o evalml_algorithm \<Rightarrow> (model_family \<times> pyfloat) list" where
  "score_table s = map (\<lambda>kd. (fst kd, mean_cv_score (snd kd))) (best_pipeline_info s)"

definition scored_calls :: "call list" where
  "scored_calls =
     [NextBatch,
      AddResult (Some (Finite 2)) logistic_pipeline [(''id'', PInt 0)],
      AddResult (Some (Finite 1)) logistic_pipeline [(''id'', PInt 1)],
      AddResult (Some (Finite 3)) logistic_pipeline [(''id'', PInt 2)],
      AddResult (Some NaN) logistic_pipeline [(''id'', PInt 3)],
      AddResult None logistic_pipeline [(''id'', PInt 4)],
      AddResult (Some (Finite 0)) (demo_ensemble BINARY) [(''id'', PInt 5)]]"

text \<open>\<open>n_jobs_ensemble\<close> of \<open>_create_ensemble\<close>.\<close>

definition n_jobs_ensemble :: "'o evalml_algorithm \<Rightarrow> pyval" where
  "n_jobs_ensemble self = (if truthy (text_in_ensembling self) then PInt 1 else n_jobs self)"

text \<open>The table entry and the state after the run \<open>demo_calls\<close>.\<close>

definition logistic_info :: best_info where
  "logistic_info = \<lparr> mean_cv_score = Finite 1, info_pipeline = logistic_pipeline,
                      info_parameters = [], info_id = PInt 0 \<rparr>"

definition one_family_state :: "(pyval list \<times> score) list evalml_algorithm" where
  "one_family_state = run demo demo_calls demo_self"

subsection \<open>The cycle in the words of the specification\<close>

text \<open>
  The specification describes the batches from index 4 on by what happens to the tuners.
  The definitions below follow its words, on the tuner table alone; the theorems compare
  them with \<open>next_batch\<close>.
\<close>

text \<open>A program on the tuner table, run on the table of the algorithm.\<close>

definition on_tuners ::
  "('a, (string \<times> 'o SKOptTuner) list) prog \<Rightarrow> ('a, 'o evalml_algorithm) prog" where
  "on_tuners m self = (case m (tuners self) of (outcome, ts) \<Rightarrow> (outcome, self\<lparr>tuners := ts\<rparr>))"

text \<open>The values that a list of fallible calls returned, or the first error.\<close>

fun gather :: "(exn + 'a) list \<Rightarrow> exn + 'a list" where
  "gather [] = Inr []"
| "gather (x # xs) =
     (case x of
        Inl e \<Rightarrow> Inl e
      | Inr y \<Rightarrow> (case gather xs of Inl e \<Rightarrow> Inl e | Inr ys \<Rightarrow> Inr (y # ys)))"

text \<open>
  One tuner proposal for the pipeline \<open>p\<close>: the tuner stored under the name of \<open>p\<close> is
  asked and stored back, \<open>n_jobs\<close> is fixed in the parameters it proposed, the column
  selection is bound to \<open>cols\<close>, and \<open>p\<close> is instantiated with the result.
\<close>

definition tuner_proposal ::
  "'o collaborators \<Rightarrow> pyval \<Rightarrow> string list option \<Rightarrow> int \<Rightarrow> pipeline
   \<Rightarrow> (pipeline, (string \<times> 'o SKOptTuner) list) prog" where
  "tuner_proposal C jobs cols seed p ts =
     (case map_of ts (name p) of
        None \<Rightarrow> (Inl (Exn KeyError (name p)), ts)
      | Some tuner \<Rightarrow>
          (case propose (tuner_backend C) tuner of
             (outcome, tuner') \<Rightarrow>
               ((case outcome of
                   Inl e \<Rightarrow> Inl e
                 | Inr proposed_parameters \<Rightarrow>
                     pipeline_new C p
                       (AList.update ''Select Columns Transformer''
                          [(''columns'', columns_value cols)]
                          (fst (foldl (transform_step C jobs) ([], proposed_parameters)
                                  (linearized_component_graph p))))
                       seed),
                AList.update (name p) tuner' ts)))"

text \<open>The tuner of the pipeline \<open>p\<close>, created when the table has none under its name.\<close>

definition tuner_on_first_use ::
  "'o collaborators \<Rightarrow> pyval \<Rightarrow> int \<Rightarrow> pipeline
   \<Rightarrow> (unit, (string \<times> 'o SKOptTuner) list) prog" where
  "tuner_on_first_use C custom seed p ts =
     (if name p \<in> fst ` set ts then (Inr (), ts)
      else case get_hyperparameter_ranges C (component_graph p) custom of
        Inl e \<Rightarrow> (Inl e, ts)
      | Inr ranges \<Rightarrow>
          (case tuner_class C ranges seed of
             Inl e \<Rightarrow> (Inl e, ts)
           | Inr tuner \<Rightarrow> (Inr (), AList.update (name p) tuner ts)))"

definition first_proposal ::
  "'o collaborators \<Rightarrow> pyval \<Rightarrow> pyval \<Rightarrow> string list option \<Rightarrow> int \<Rightarrow> pipeline
   \<Rightarrow> (pipeline, (string \<times> 'o SKOptTuner) list) prog" where
  "first_proposal C custom jobs cols seed p =
     bind (tuner_on_first_use C custom seed p) (\<lambda>u. tuner_proposal C jobs cols seed p)"

text \<open>
  The outcome of a batch whose pipelines are proposals: the tuner table is stored, and
  when every proposal returned the two counters advance.
\<close>

definition batch_outcome ::
  "'o evalml_algorithm \<Rightarrow> (exn + pipeline list) \<times> (string \<times> 'o SKOptTuner) list
   \<Rightarrow> (exn + pipeline list) \<times> 'o evalml_algorithm" where
  "batch_outcome self outcome =
     (case outcome of
        (Inl e, ts) \<Rightarrow> (Inl e, self\<lparr>tuners := ts\<rparr>)
      | (Inr batch, ts) \<Rightarrow>
          (Inr batch, self\<lparr>tuners := ts,
                            pipeline_number := pipeline_number self + length batch,
                            batch_number := batch_number self + 1\<rparr>))"

text \<open>The estimators of the table with their scores, and the \<open>n\<close> best of them.\<close>

definition scored_estimators ::
  "(model_family \<times> best_info) list \<Rightarrow> (component_class \<times> pyfloat) list" where
  "scored_estimators table =
     map (\<lambda>entry. (estimator (info_pipeline (snd entry)), mean_cv_score (snd entry))) table"

definition top_estimators :: "nat \<Rightarrow> (model_family \<times> best_info) list \<Rightarrow> component_class list" where
  "top_estimators n table = map fst (take n (sort_by_score (scored_estimators table)))"

text \<open>
  The ensemble step: one input pipeline per entry of the table, in the order of the
  table, instantiated with the entry's parameters after \<open>n_jobs\<close> is fixed in them, and
  the stacked ensemble of these inputs.
\<close>

definition ensemble_inputs ::
  "'o collaborators \<Rightarrow> pyval \<Rightarrow> int \<Rightarrow> (model_family \<times> best_info) list \<Rightarrow> exn + pipeline list" where
  "ensemble_inputs C jobs seed table =
     gather (map (\<lambda>entry.
         pipeline_new C (info_pipeline (snd entry))
           (fst (foldl (transform_step C jobs) ([], info_parameters (snd entry))
                   (linearized_component_graph (info_pipeline (snd entry)))))
           seed) table)"

definition stacked_ensemble ::
  "'o collaborators \<Rightarrow> pyval \<Rightarrow> pyval \<Rightarrow> int \<Rightarrow> (model_family \<times> best_info) list
   \<Rightarrow> exn + pipeline list" where
  "stacked_ensemble C jobs jobs_of_ensemble seed table =
     (case ensemble_inputs C jobs seed table of
        Inl e \<Rightarrow> Inl e
      | Inr inputs \<Rightarrow>
          (case inputs of
             [] \<Rightarrow> Inl (Exn IndexError ''list index out of range'')
           | first # others \<Rightarrow>
               (case make_stacked_ensemble_pipeline C inputs (problem_type first) seed
                       jobs_of_ensemble of
                  Inl e \<Rightarrow> Inl e
                | Inr ensemble \<Rightarrow> Inr [ensemble])))"

text \<open>Ascending by score, for scores that are not NaN.\<close>

definition ascending :: "('a \<times> pyfloat) list \<Rightarrow> bool" where
  "ascending xs = sorted_wrt (\<lambda>a b. \<not> float_lt (snd b) (snd a)) xs"

text \<open>No score of the table is NaN.\<close>

definition no_nan :: "(model_family \<times> best_info) list \<Rightarrow> bool" where
  "no_nan table = (\<forall>entry \<in> set table. mean_cv_score (snd entry) \<noteq> NaN)"

subsection \<open>A run over three families\<close>

text \<open>
  Results for three families arrive during the first four batches: the logistic
  regression scores 3, the random forest 1, and the decision tree of the third batch 2;
  the feature-selection result of the second batch yields the selected columns.
\<close>

definition forest_pipeline :: pipeline where
  "forest_pipeline = \<lparr> name = ''Random Forest Classifier'',
       model_family = RANDOM_FOREST,
       parameters = [],
       component_graph = [(''Random Forest Classifier'', ''Random Forest Classifier'')],
       linearized_component_graph = [(''Random Forest Classifier'', ''Random Forest Classifier'')],
       estimator = ''Random Forest Classifier'',
       problem_type = BINARY \<rparr>"

definition tree_pipeline :: pipeline where
  "tree_pipeline = fast_final_pipeline\<lparr>parameters :=
     [(''Select Columns Transformer'', [(''columns'', PList [PStr ''a'', PStr ''b''])])]\<rparr>"

definition three_family_calls :: "call list" where
  "three_family_calls =
     [NextBatch,
      AddResult (Some (Finite 3)) logistic_pipeline [(''id'', PInt 0)],
      AddResult (Some (Finite 1)) forest_pipeline [(''id'', PInt 1)],
      NextBatch,
      AddResult (Some (Finite 4)) selector_pipeline [(''id'', PInt 2)],
      NextBatch,
      AddResult (Some (Finite 2)) tree_pipeline [(''id'', PInt 3)],
      NextBatch]"

text \<open>
  Collaborators whose tuners propose a value for a hyperparameter of each estimator, the
  number of proposals and observations so far, and record every proposal they made.
\<close>

definition cycle_backend :: "(pyval list \<times> score) list backend" where
  "cycle_backend = list_backend\<lparr>
     convert_to_pipeline_parameters :=
       (\<lambda>t flat. case flat of
          [] \<Rightarrow> Inr []
        | v # vs \<Rightarrow> Inr [(''Random Forest Classifier'', [(''n_estimators'', v)]),
                         (''Decision Tree Classifier'', [(''max_depth'', v)]),
                         (''Logistic Regression Classifier'', [(''C'', v)])]),
     opt_ask := (\<lambda>obs. (Inr [PInt (int (length obs))], obs @ [([], None)])) \<rparr>"

definition cycle_demo :: "(pyval list \<times> score) list collaborators" where
  "cycle_demo = demo\<lparr>tuner_backend := cycle_backend\<rparr>"

definition state_at_four :: "(pyval list \<times> score) list evalml_algorithm" where
  "state_at_four = run cycle_demo three_family_calls demo_self"

text \<open>The pipeline that the factory builds for an estimator with column selection.\<close>

definition selected :: "component_class \<Rightarrow> pipeline" where
  "selected est = \<lparr> name = est @ ''SelectColumns'',
       model_family = demo_family est,
       parameters = [],
       component_graph = [(''Select Columns Transformer'', ''SelectColumns''), (est, est)],
       linearized_component_graph = [(''Select Columns Transformer'', ''SelectColumns''), (est, est)],
       estimator = est,
       problem_type = BINARY \<rparr>"

definition top_pipelines :: "pipeline list" where
  "top_pipelines = [selected ''Random Forest Classifier'', selected ''Decision Tree Classifier'',
                    selected ''Logistic Regression Classifier'']"

text \<open>
  The proposals of round \<open>i\<close> for the three top pipelines, and the tuner table before
  that round: the tuner of the decision tree has one observation more, the result of the
  third batch.
\<close>

definition round_proposals :: "nat \<Rightarrow> pipeline list" where
  "round_proposals i =
     [(selected ''Random Forest Classifier'')\<lparr>parameters :=
        [(''Select Columns Transformer'', [(''columns'', PList [PStr ''a'', PStr ''b''])]),
         (''Random Forest Classifier'', [(''n_estimators'', PInt (int i)), (''n_jobs'', PInt (- 1))])]\<rparr>,
      (selected ''Decision Tree Classifier'')\<lparr>parameters :=
        [(''Select Columns Transformer'', [(''columns'', PList [PStr ''a'', PStr ''b''])]),
         (''Decision Tree Classifier'', [(''max_depth'', PInt (int i + 1))])]\<rparr>,
      (selected ''Logistic Regression Classifier'')\<lparr>parameters :=
        [(''Select Columns Transformer'', [(''columns'', PList [PStr ''a'', PStr ''b''])]),
         (''Logistic Regression Classifier'', [(''C'', PInt (int i))])]\<rparr>]"

definition tuners_in_round :: "nat \<Rightarrow> (string \<times> (pyval list \<times> score) list SKOptTuner) list" where
  "tuners_in_round i =
     [(''Decision Tree ClassifierSelectColumns'',
       \<lparr> search_space_ranges = [Integer 0 100],
         opt = ([PList [PStr ''a'', PStr ''b'']], Some (Finite 2)) # replicate i ([], None) \<rparr>),
      (''Random Forest ClassifierSelectColumns'',
       \<lparr> search_space_ranges = [Integer 0 100], opt = replicate i ([], None) \<rparr>),
      (''Logistic Regression ClassifierSelectColumns'',
       \<lparr> search_space_ranges = [Integer 0 100], opt = replicate i ([], None) \<rparr>)]"

text \<open>The states of the run after the batches of index 4, 5 and 6.\<close>

definition state_at_five :: "(pyval list \<times> score) list evalml_algorithm" where
  "state_at_five = state_at_four\<lparr>
     tuners := tuners_in_round 50,
     top_n_pipelines := Some top_pipelines,
     pipeline_number := 156,
     batch_number := 5 \<rparr>"

definition state_at_six :: "(pyval list \<times> score) list evalml_algorithm" where
  "state_at_six = state_at_five\<lparr>pipeline_number := 157, batch_number := 6\<rparr>"

definition state_at_seven :: "(pyval list \<times> score) list evalml_algorithm" where
  "state_at_seven = state_at_six\<lparr>
     tuners := tuners_in_round 60,
     pipeline_number := 187,
     batch_number := 7 \<rparr>"

section \<open>Properties of the tuner\<close>

lemma add_isnull:
  "isnull sc \<Longrightarrow> add B ps sc t = ((Inr (), t), [])"
  by (simp add: add_def)

lemma isnull_iff: "isnull sc \<longleftrightarrow> sc = None \<or> sc = Some NaN"
  by (cases sc rule: isnull.cases) simp_all

text \<open>
  Claim C5 (as amended). When the score is not null, the parameters flatten and the
  optimizer's \<open>tell\<close> raises \<open>e\<close>: if the message of \<open>e\<close> is exactly the comparison
  message that \<open>add\<close> looks for, \<open>add\<close> raises a \<open>ParameterError\<close> whose message is
  built from the pipeline parameters and the message of \<open>e\<close>, and from nothing else, and
  it writes two log records, the debug record, which holds the parameters, the score, the
  flat values and the message of \<open>e\<close>, and the error record with the message of the
  \<open>ParameterError\<close>; otherwise \<open>add\<close> raises \<open>e\<close> itself and writes the debug record
  alone. Either way the tuner keeps the optimizer as \<open>tell\<close> left it. What the
  flattening raises reaches the caller unchanged too, with nothing logged.
\<close>

theorem add_backend_error:
  "(\<not> isnull sc \<and> convert_to_flat_parameters B t ps = Inr flat
      \<and> opt_tell B flat sc (opt t) = (Inl e, o') \<longrightarrow>
      add B ps sc t =
        (if str_exn e = not_supported_msg
         then ((Inl (Exn ParameterError
                  (''Invalid parameters specified to SKOptTuner.add: parameters ''
                   @ str_params B ps @ '' error '' @ str_exn e)),
                t\<lparr>opt := o'\<rparr>),
               [(DEBUG,
                 ''SKOpt tuner received error during add. Score: '' @ str_params B ps
                 @ [CHR 0x0A] @ ''Parameters: '' @ str_score B sc
                 @ [CHR 0x0A] @ ''Flat parameter values: '' @ str_flat B flat
                 @ [CHR 0x0A] @ ''Error: '' @ str_exn e),
                (ERROR,
                 ''Invalid parameters specified to SKOptTuner.add: parameters ''
                 @ str_params B ps @ '' error '' @ str_exn e)])
         else ((Inl e, t\<lparr>opt := o'\<rparr>),
               [(DEBUG,
                 ''SKOpt tuner received error during add. Score: '' @ str_params B ps
                 @ [CHR 0x0A] @ ''Parameters: '' @ str_score B sc
                 @ [CHR 0x0A] @ ''Flat parameter values: '' @ str_flat B flat
                 @ [CHR 0x0A] @ ''Error: '' @ str_exn e)])))
   \<and> (\<not> isnull sc \<and> convert_to_flat_parameters B t ps = Inl e' \<longrightarrow>
        add B ps sc t = ((Inl e', t), []))"
  by (simp add: add_def parameter_error_msg_def debug_msg_def)

theorem add_backend_error_witness:
  "add list_backend params_out_of_range (Some (Finite 1)) tuner0 =
     ((Inl (Exn ParameterError
         (''Invalid parameters specified to SKOptTuner.add: parameters Estimator error ''
          @ not_supported_msg)),
       tuner0),
      [(DEBUG,
        ''SKOpt tuner received error during add. Score: Estimator''
        @ [CHR 0x0A] @ ''Parameters: 1.0''
        @ [CHR 0x0A] @ ''Flat parameter values: [..]''
        @ [CHR 0x0A] @ ''Error: '' @ not_supported_msg),
       (ERROR,
        ''Invalid parameters specified to SKOptTuner.add: parameters Estimator error ''
        @ not_supported_msg)])
   \<and> add list_backend params_too_large (Some (Finite 2)) tuner0 =
     ((Inl (Exn ValueError ''Point is not within the bounds''), tuner0),
      [(DEBUG,
        ''SKOpt tuner received error during add. Score: Estimator''
        @ [CHR 0x0A] @ ''Parameters: 2.0''
        @ [CHR 0x0A] @ ''Flat parameter values: [..]''
        @ [CHR 0x0A] @ ''Error: Point is not within the bounds'')])
   \<and> add list_backend [] (Some (Finite 1)) tuner0 =
       ((Inl (Exn TypeError ''Pipeline parameters missing required field''), tuner0), [])"
proof -
  have a: "\<not> isnull (Some (Finite 1))" "\<not> isnull (Some (Finite 2))" by simp_all
  have b: "convert_to_flat_parameters list_backend tuner0 params_out_of_range = Inr [PInt (- 1)]"
    by (simp add: list_backend_def params_out_of_range_def)
  have c: "opt_tell list_backend [PInt (- 1)] (Some (Finite 1)) (opt tuner0)
             = (Inl (Exn TypeError not_supported_msg), [])"
    by (simp add: list_backend_def list_tell_def tuner0_def)
  have b': "convert_to_flat_parameters list_backend tuner0 params_too_large = Inr [PInt 101]"
    by (simp add: list_backend_def params_too_large_def)
  have c': "opt_tell list_backend [PInt 101] (Some (Finite 2)) (opt tuner0)
             = (Inl (Exn ValueError ''Point is not within the bounds''), [])"
    by (simp add: list_backend_def list_tell_def tuner0_def)
  have d: "convert_to_flat_parameters list_backend tuner0 []
             = Inl (Exn TypeError ''Pipeline parameters missing required field'')"
    by (simp add: list_backend_def)
  have n: "''Point is not within the bounds'' \<noteq> not_supported_msg"
    by (simp add: not_supported_msg_def)
  have s: "str_params list_backend params_out_of_range = ''Estimator''"
    "str_params list_backend params_too_large = ''Estimator''"
    "str_score list_backend (Some (Finite 1)) = ''1.0''"
    "str_score list_backend (Some (Finite 2)) = ''2.0''"
    "str_flat list_backend [PInt (- 1)] = ''[..]''"
    "str_flat list_backend [PInt 101] = ''[..]''"
    by (simp_all add: list_backend_def params_out_of_range_def params_too_large_def)
  have o: "tuner0\<lparr>opt := []\<rparr> = tuner0" by (simp add: tuner0_def)
  have 1: "add list_backend params_out_of_range (Some (Finite 1)) tuner0 =
     ((Inl (Exn ParameterError
         (''Invalid parameters specified to SKOptTuner.add: parameters Estimator error ''
          @ not_supported_msg)),
       tuner0),
      [(DEBUG,
        ''SKOpt tuner received error during add. Score: Estimator''
        @ [CHR 0x0A] @ ''Parameters: 1.0''
        @ [CHR 0x0A] @ ''Flat parameter values: [..]''
        @ [CHR 0x0A] @ ''Error: '' @ not_supported_msg),
       (ERROR,
        ''Invalid parameters specified to SKOptTuner.add: parameters Estimator error ''
        @ not_supported_msg)])"
    using add_backend_error [of "Some (Finite 1)" list_backend tuner0 params_out_of_range
            "[PInt (- 1)]" "Exn TypeError not_supported_msg" "[]"]
          a b c s o
    by simp
  have 2: "add list_backend params_too_large (Some (Finite 2)) tuner0 =
     ((Inl (Exn ValueError ''Point is not within the bounds''), tuner0),
      [(DEBUG,
        ''SKOpt tuner received error during add. Score: Estimator''
        @ [CHR 0x0A] @ ''Parameters: 2.0''
        @ [CHR 0x0A] @ ''Flat parameter values: [..]''
        @ [CHR 0x0A] @ ''Error: Point is not within the bounds'')])"
    using add_backend_error [of "Some (Finite 2)" list_backend tuner0 params_too_large
            "[PInt 101]" "Exn ValueError ''Point is not within the bounds''" "[]"]
          a b' c' n s o
    by simp
  have 3: "add list_backend [] (Some (Finite 1)) tuner0 =
       ((Inl (Exn TypeError ''Pipeline parameters missing required field''), tuner0), [])"
    using add_backend_error [of "Some (Finite 1)" list_backend tuner0 "[]" "[]"
            "Exn TypeError []" "[]"
            "Exn TypeError ''Pipeline parameters missing required field''"]
          a d
    by simp
  show ?thesis using 1 2 3 by (intro conjI)
qed

text \<open>
  Claim C5 as stated fails: the \<open>ParameterError\<close> does not carry the score. The same
  rejected parameters with the scores 1.0 and 2.0, which print differently, raise the
  same exception, message included.
\<close>

theorem parameter_error_without_score:
  "fst (fst (add list_backend params_out_of_range (Some (Finite 1)) tuner0)) =
     Inl (Exn ParameterError
       (''Invalid parameters specified to SKOptTuner.add: parameters Estimator error ''
        @ not_supported_msg))
   \<and> fst (fst (add list_backend params_out_of_range (Some (Finite 2)) tuner0)) =
     Inl (Exn ParameterError
       (''Invalid parameters specified to SKOptTuner.add: parameters Estimator error ''
        @ not_supported_msg))
   \<and> str_score list_backend (Some (Finite 1)) \<noteq> str_score list_backend (Some (Finite 2))"
  by (simp add: add_def list_backend_def list_tell_def tuner0_def params_out_of_range_def
        parameter_error_msg_def)

text \<open>
  Claim C6 (as amended). \<open>add\<close> is a silent no-op exactly for the null scores, \<open>None\<close>
  and NaN: it returns without raising, writes no log record and leaves the tuner as it
  was, so every later sequence of proposals is the one the tuner would have given
  anyway. Any other score, the infinities included, is handed to the optimizer's
  \<open>tell\<close> once the parameters flatten.
\<close>

theorem add_null_score_is_noop:
  "(isnull sc \<longrightarrow>
      add B ps sc t = ((Inr (), t), [])
      \<and> (\<forall>n. proposals B n (snd (fst (add B ps sc t))) = proposals B n t))
   \<and> (\<not> isnull sc \<and> convert_to_flat_parameters B t ps = Inr flat \<longrightarrow>
        opt (snd (fst (add B ps sc t))) = snd (opt_tell B flat sc (opt t)))"
  by (auto simp add: add_def split: prod.splits sum.splits)

theorem add_null_score_is_noop_witness:
  "add list_backend params_in_range None tuner0 = ((Inr (), tuner0), [])
   \<and> add list_backend params_in_range (Some NaN) tuner0 = ((Inr (), tuner0), [])
   \<and> proposals list_backend 3 (snd (fst (add list_backend params_in_range (Some NaN) tuner0)))
       = proposals list_backend 3 tuner0
   \<and> opt (snd (fst (add list_backend params_in_range (Some NegInf) tuner0)))
       = [([PInt 5], Some NegInf)]"
proof -
  have a: "isnull None" "isnull (Some NaN)" "\<not> isnull (Some NegInf)" by simp_all
  have b: "convert_to_flat_parameters list_backend tuner0 params_in_range = Inr [PInt 5]"
    by (simp add: list_backend_def params_in_range_def)
  have c: "snd (opt_tell list_backend [PInt 5] (Some NegInf) (opt tuner0)) = [([PInt 5], Some NegInf)]"
    by (simp add: list_backend_def list_tell_def tuner0_def)
  show ?thesis
    using add_null_score_is_noop [of None list_backend params_in_range tuner0]
          add_null_score_is_noop [of "Some NaN" list_backend params_in_range tuner0]
          add_null_score_is_noop [of "Some NegInf" list_backend params_in_range tuner0 "[PInt 5]"]
          a b c
    by simp
qed

text \<open>
  Claim C6 as stated fails for an infinite score: positive infinity is not a finite
  number, yet \<open>add\<close> feeds it to the optimizer, and the next proposal differs from the
  one the untouched tuner gives.
\<close>

theorem infinite_score_is_observed:
  "\<not> is_finite_number (Some PosInf)
   \<and> opt (snd (fst (add list_backend params_in_range (Some PosInf) tuner0)))
       = [([PInt 5], Some PosInf)]
   \<and> opt tuner0 = []
   \<and> proposals list_backend 1 (snd (fst (add list_backend params_in_range (Some PosInf) tuner0)))
       = [Inr [(''Estimator'', [(''x'', PInt 1)])]]
   \<and> proposals list_backend 1 tuner0 = [Inr [(''Estimator'', [(''x'', PInt 0)])]]"
  by (simp add: add_def list_backend_def list_tell_def tuner0_def params_in_range_def
        propose_def)

section \<open>Properties of the constructor\<close>

lemma check_leaves_eq:
  "check_leaves bad err kvs = (if \<exists>v\<in>set (map snd kvs). bad v then Inl err else Inr ())"
  by (induction bad err kvs rule: check_leaves.induct) auto

lemma leaves_Cons:
  "leaves (PDict ((k, PDict ps) # kvs)) = map snd ps @ leaves (PDict kvs)"
  by simp

lemma check_components_nested:
  "list_all (\<lambda>kv. isinstance_dict (snd kv)) kvs \<Longrightarrow>
   check_components bad err (map snd kvs) =
     (if \<exists>v\<in>set (leaves (PDict kvs)). bad v then Inl err else Inr ())"
proof (induction kvs)
  case Nil
  then show ?case by simp
next
  case (Cons kv kvs)
  obtain k v where kv: "kv = (k, v)" by (cases kv)
  from Cons.prems kv obtain ps where v: "v = PDict ps" by (cases v) auto
  from Cons have IH: "check_components bad err (map snd kvs) =
     (if \<exists>v\<in>set (leaves (PDict kvs)). bad v then Inl err else Inr ())" by simp
  have "check_components bad err (map snd (kv # kvs)) =
      (if \<exists>v\<in>set (map snd ps). bad v then Inl err
       else check_components bad err (map snd kvs))"
    using kv v by (simp add: check_leaves_eq)
  also have "\<dots> = (if \<exists>v\<in>set (map snd ps @ leaves (PDict kvs)). bad v then Inl err else Inr ())"
    unfolding IH by (simp only: set_append bex_Un split: if_splits) simp
  finally show ?case unfolding kv v leaves_Cons .
qed

lemma check_mapping_nested:
  "nested_mapping m \<Longrightarrow>
   check_mapping bad err m = (if \<exists>v\<in>set (leaves m). bad v then Inl err else Inr ())"
proof (cases m)
  case (PDict kvs)
  assume "nested_mapping m"
  then have "list_all (\<lambda>kv. isinstance_dict (snd kv)) kvs" using PDict by simp
  from check_components_nested [OF this, of bad err] show ?thesis
    using PDict by (simp add: check_mapping_def)
qed simp_all

lemma check_mapping_empty: "check_mapping bad err (PDict []) = Inr ()"
  by (simp add: check_mapping_def)

lemma nested_mapping_dict: "nested_mapping m \<Longrightarrow> isinstance_dict m"
  by (cases m) simp_all

lemma falsy_leaves: "\<not> truthy m \<Longrightarrow> leaves m = []"
  by (cases m) auto

text \<open>What the two validation loops decide for an argument that is falsy or a nested mapping.\<close>

lemma check_stored:
  assumes "\<not> truthy m \<or> nested_mapping m"
  shows "check_mapping bad err (if truthy m then m else PDict []) =
           (if \<exists>v\<in>set (leaves m). bad v then Inl err else Inr ())"
proof (cases "truthy m")
  case True
  then show ?thesis using assms by (simp add: check_mapping_nested)
next
  case False
  have "leaves m = []" using False by (rule falsy_leaves)
  then show ?thesis using False by (simp add: check_mapping_empty)
qed

text \<open>
  Claim C4 (as amended). The configuration error of the specification is the
  \<open>ValueError\<close> that the constructor raises. The constructor raises a \<open>ValueError\<close>
  when \<open>custom_hyperparameters\<close> is truthy and is not a dict;
  when \<open>pipeline_params\<close> is a nested mapping with a leaf that is a range object;
  and when \<open>custom_hyperparameters\<close> is a nested mapping with a leaf that is not a range
  object, \<open>pipeline_params\<close> being absent or a nested mapping.
  With both arguments absent or nested mappings, no range among the leaves of
  \<open>pipeline_params\<close> and only ranges among those of \<open>custom_hyperparameters\<close>, the
  constructor returns the algorithm.
\<close>

theorem init_validation:
  "(truthy chp \<and> \<not> isinstance_dict chp \<longrightarrow>
      (init pt sm seed pp chp jobs nf te :: exn + 'o evalml_algorithm) = Inl (not_dict_error chp)
      \<and> exn_class_of (not_dict_error chp) = ValueError)
   \<and> (nested_mapping pp \<and> (\<exists>v\<in>set (leaves pp). isinstance_space v) \<longrightarrow>
        (\<exists>msg. (init pt sm seed pp chp jobs nf te :: exn + 'o evalml_algorithm) = Inl (Exn ValueError msg)))
   \<and> ((\<not> truthy pp \<or> nested_mapping pp) \<and> nested_mapping chp
        \<and> (\<exists>v\<in>set (leaves chp). \<not> isinstance_space v) \<longrightarrow>
        (\<exists>msg. (init pt sm seed pp chp jobs nf te :: exn + 'o evalml_algorithm) = Inl (Exn ValueError msg)))
   \<and> ((\<not> truthy pp \<or> nested_mapping pp) \<and> (\<not> truthy chp \<or> nested_mapping chp)
        \<and> (\<forall>v\<in>set (leaves pp). \<not> isinstance_space v)
        \<and> (\<forall>v\<in>set (leaves chp). isinstance_space v) \<longrightarrow>
        (\<exists>self. (init pt sm seed pp chp jobs nf te :: exn + 'o evalml_algorithm) = Inr self))"
proof (intro conjI impI)
  assume "truthy chp \<and> \<not> isinstance_dict chp"
  then show "(init pt sm seed pp chp jobs nf te :: exn + 'o evalml_algorithm) = Inl (not_dict_error chp)"
    by (simp add: init_def)
next
  show "exn_class_of (not_dict_error chp) = ValueError"
    by (simp add: not_dict_error_def)
next
  assume a: "nested_mapping pp \<and> (\<exists>v\<in>set (leaves pp). isinstance_space v)"
  then have "check_mapping isinstance_space pipeline_params_error
               (if truthy pp then pp else PDict []) = Inl pipeline_params_error"
    using check_stored [of pp isinstance_space pipeline_params_error] by simp
  then show "\<exists>msg. (init pt sm seed pp chp jobs nf te :: exn + 'o evalml_algorithm) = Inl (Exn ValueError msg)"
    by (auto simp add: init_def Let_def not_dict_error_def pipeline_params_error_def)
next
  assume a: "(\<not> truthy pp \<or> nested_mapping pp) \<and> nested_mapping chp
        \<and> (\<exists>v\<in>set (leaves chp). \<not> isinstance_space v)"
  then have p: "check_mapping isinstance_space pipeline_params_error
               (if truthy pp then pp else PDict []) =
               (if \<exists>v\<in>set (leaves pp). isinstance_space v
                then Inl pipeline_params_error else Inr ())"
    using check_stored [of pp isinstance_space pipeline_params_error] by simp
  from a have c: "check_mapping (\<lambda>v. \<not> isinstance_space v) custom_hyperparameters_error
               (if truthy chp then chp else PDict []) = Inl custom_hyperparameters_error"
    using check_stored [of chp "\<lambda>v. \<not> isinstance_space v" custom_hyperparameters_error] by simp
  from a have d: "isinstance_dict chp" by (simp add: nested_mapping_dict)
  show "\<exists>msg. (init pt sm seed pp chp jobs nf te :: exn + 'o evalml_algorithm) = Inl (Exn ValueError msg)"
    using p c d
    by (auto simp add: init_def Let_def pipeline_params_error_def custom_hyperparameters_error_def)
next
  assume a: "(\<not> truthy pp \<or> nested_mapping pp) \<and> (\<not> truthy chp \<or> nested_mapping chp)
        \<and> (\<forall>v\<in>set (leaves pp). \<not> isinstance_space v)
        \<and> (\<forall>v\<in>set (leaves chp). isinstance_space v)"
  then have p: "check_mapping isinstance_space pipeline_params_error
               (if truthy pp then pp else PDict []) = Inr ()"
    using check_stored [of pp isinstance_space pipeline_params_error] by simp
  from a have c: "check_mapping (\<lambda>v. \<not> isinstance_space v) custom_hyperparameters_error
               (if truthy chp then chp else PDict []) = Inr ()"
    using check_stored [of chp "\<lambda>v. \<not> isinstance_space v" custom_hyperparameters_error] by simp
  from a have d: "truthy chp \<longrightarrow> isinstance_dict chp" by (auto simp add: nested_mapping_dict)
  show "\<exists>self. (init pt sm seed pp chp jobs nf te :: exn + 'o evalml_algorithm) = Inr self"
    using p c d by (simp add: init_def Let_def)
qed

theorem init_validation_witness:
  "(init BINARY PNone 0 PNone (PList [PInt 1]) (PInt (- 1)) PNone PNone
      :: exn + unit evalml_algorithm) = Inl (not_dict_error (PList [PInt 1]))
   \<and> exn_class_of (not_dict_error (PList [PInt 1])) = ValueError
   \<and> (\<exists>msg. (init BINARY PNone 0 range_leaf PNone (PInt (- 1)) PNone PNone
         :: exn + unit evalml_algorithm) = Inl (Exn ValueError msg))
   \<and> (\<exists>msg. (init BINARY PNone 0 PNone plain_int_leaf (PInt (- 1)) PNone PNone
         :: exn + unit evalml_algorithm) = Inl (Exn ValueError msg))
   \<and> (\<exists>self. (init BINARY PNone 0 good_pipeline_params good_hyperparameters (PInt (- 1)) PNone PNone
         :: exn + unit evalml_algorithm) = Inr self)"
proof -
  have a: "truthy (PList [PInt 1]) \<and> \<not> isinstance_dict (PList [PInt 1])" by simp
  have b: "nested_mapping range_leaf \<and> (\<exists>v\<in>set (leaves range_leaf). isinstance_space v)"
    by (simp add: range_leaf_def)
  have c: "(\<not> truthy PNone \<or> nested_mapping PNone) \<and> nested_mapping plain_int_leaf
        \<and> (\<exists>v\<in>set (leaves plain_int_leaf). \<not> isinstance_space v)"
    by (simp add: plain_int_leaf_def)
  have d: "(\<not> truthy good_pipeline_params \<or> nested_mapping good_pipeline_params)
        \<and> (\<not> truthy good_hyperparameters \<or> nested_mapping good_hyperparameters)
        \<and> (\<forall>v\<in>set (leaves good_pipeline_params). \<not> isinstance_space v)
        \<and> (\<forall>v\<in>set (leaves good_hyperparameters). isinstance_space v)"
    by (simp add: good_pipeline_params_def good_hyperparameters_def)
  have 1: "(init BINARY PNone 0 PNone (PList [PInt 1]) (PInt (- 1)) PNone PNone
              :: exn + unit evalml_algorithm) = Inl (not_dict_error (PList [PInt 1]))
           \<and> exn_class_of (not_dict_error (PList [PInt 1])) = ValueError"
    by (rule mp [OF init_validation [where ?'o = unit, THEN conjunct1] a])
  have 2: "\<exists>msg. (init BINARY PNone 0 range_leaf PNone (PInt (- 1)) PNone PNone
         :: exn + unit evalml_algorithm) = Inl (Exn ValueError msg)"
    by (rule mp [OF init_validation [where ?'o = unit, THEN conjunct2, THEN conjunct1] b])
  have 3: "\<exists>msg. (init BINARY PNone 0 PNone plain_int_leaf (PInt (- 1)) PNone PNone
         :: exn + unit evalml_algorithm) = Inl (Exn ValueError msg)"
    by (rule mp [OF init_validation [where ?'o = unit, THEN conjunct2, THEN conjunct2,
                   THEN conjunct1] c])
  have 4: "\<exists>self. (init BINARY PNone 0 good_pipeline_params good_hyperparameters (PInt (- 1))
         PNone PNone :: exn + unit evalml_algorithm) = Inr self"
    by (rule mp [OF init_validation [where ?'o = unit, THEN conjunct2, THEN conjunct2,
                   THEN conjunct2] d])
  from 1 2 3 4 show ?thesis by (intro conjI) (erule conjunct1, erule conjunct2, assumption+)
qed

text \<open>
  Claim C4 as stated fails in two ways. An empty list for \<open>custom_hyperparameters\<close> is
  provided and is not a mapping, yet the constructor returns the algorithm, with the
  empty dict stored. And with the plain int leaf of the specification's scenario in
  \<open>custom_hyperparameters\<close>, or a range leaf in \<open>pipeline_params\<close>, the constructor
  raises the \<open>AttributeError\<close> of a per-component value that comes first, not a
  \<open>ValueError\<close>.
\<close>

theorem init_validation_gaps:
  "\<not> isinstance_dict (PList [])
   \<and> init BINARY PNone 0 PNone (PList []) (PInt (- 1)) PNone PNone = Inr demo_self
   \<and> init BINARY PNone 0 PNone (PInt 0) (PInt (- 1)) PNone PNone = Inr demo_self
   \<and> \<not> isinstance_space (PInt 5)
   \<and> (init BINARY PNone 0 not_nested plain_int_leaf (PInt (- 1)) PNone PNone
         :: exn + unit evalml_algorithm)
       = Inl (Exn AttributeError
           (CHR 0x27 # ''int' object has no attribute 'items'' @ [CHR 0x27]))
   \<and> isinstance_space (Integer 1 4)
   \<and> (init BINARY PNone 0
          (PDict [(''A'', PInt 5), (''Estimator'', PDict [(''n_jobs'', Integer 1 4)])])
          PNone (PInt (- 1)) PNone PNone :: exn + unit evalml_algorithm)
       = Inl (Exn AttributeError
           (CHR 0x27 # ''int' object has no attribute 'items'' @ [CHR 0x27]))"
  by (simp add: init_def demo_self_def check_mapping_def not_nested_def plain_int_leaf_def
        no_attribute_def)

text \<open>
  Claim C10. A per-component value that is not a dict, first in the iteration order of
  \<open>pipeline_params\<close> or of \<open>custom_hyperparameters\<close>, makes the constructor raise the
  \<open>AttributeError\<close> of the missing \<open>items\<close>, not a \<open>ValueError\<close>: for
  \<open>pipeline_params\<close> whenever the check of \<open>custom_hyperparameters\<close> being a dict
  passes, for \<open>custom_hyperparameters\<close> whenever \<open>pipeline_params\<close> passes its loop.
\<close>

theorem init_attribute_error:
  "(\<not> isinstance_dict v \<and> \<not> (truthy chp \<and> \<not> isinstance_dict chp) \<longrightarrow>
      (init pt sm seed (PDict ((k, v) # rest)) chp jobs nf te :: exn + 'o evalml_algorithm)
        = Inl (no_attribute v ''items''))
   \<and> (\<not> isinstance_dict v \<and> (\<not> truthy pp \<or> nested_mapping pp)
        \<and> (\<forall>w\<in>set (leaves pp). \<not> isinstance_space w) \<longrightarrow>
      (init pt sm seed pp (PDict ((k, v) # rest)) jobs nf te :: exn + 'o evalml_algorithm)
        = Inl (no_attribute v ''items''))
   \<and> exn_class_of (no_attribute v ''items'') = AttributeError"
proof (intro conjI impI)
  assume a: "\<not> isinstance_dict v \<and> \<not> (truthy chp \<and> \<not> isinstance_dict chp)"
  then have "dict_items v = Inl (no_attribute v ''items'')" by (cases v) simp_all
  then show "init pt sm seed (PDict ((k, v) # rest)) chp jobs nf te = Inl (no_attribute v ''items'')"
    using a by (auto simp add: init_def Let_def check_mapping_def)
next
  assume a: "\<not> isinstance_dict v \<and> (\<not> truthy pp \<or> nested_mapping pp)
        \<and> (\<forall>w\<in>set (leaves pp). \<not> isinstance_space w)"
  then have i: "dict_items v = Inl (no_attribute v ''items'')" by (cases v) simp_all
  from a have p: "check_mapping isinstance_space pipeline_params_error
               (if truthy pp then pp else PDict []) = Inr ()"
    using check_stored [of pp isinstance_space pipeline_params_error] by simp
  show "init pt sm seed pp (PDict ((k, v) # rest)) jobs nf te = Inl (no_attribute v ''items'')"
    using i p by (simp add: init_def Let_def check_mapping_def)
next
  show "exn_class_of (no_attribute v ''items'') = AttributeError"
    by (simp add: no_attribute_def)
qed

theorem init_attribute_error_witness:
  "(init BINARY PNone 0 PNone not_nested (PInt (- 1)) PNone PNone :: exn + unit evalml_algorithm)
     = Inl (Exn AttributeError
         (CHR 0x27 # ''int' object has no attribute 'items'' @ [CHR 0x27]))
   \<and> (init BINARY PNone 0 not_nested PNone (PInt (- 1)) PNone PNone :: exn + unit evalml_algorithm)
     = Inl (Exn AttributeError
         (CHR 0x27 # ''int' object has no attribute 'items'' @ [CHR 0x27]))"
proof -
  have a: "\<not> isinstance_dict (PInt 5) \<and> \<not> (truthy PNone \<and> \<not> isinstance_dict PNone)" by simp
  have b: "\<not> isinstance_dict (PInt 5) \<and> (\<not> truthy PNone \<or> nested_mapping PNone)
        \<and> (\<forall>w\<in>set (leaves PNone). \<not> isinstance_space w)" by simp
  have c: "no_attribute (PInt 5) ''items'' =
     Exn AttributeError (CHR 0x27 # ''int' object has no attribute 'items'' @ [CHR 0x27])"
    by (simp add: no_attribute_def)
  show ?thesis
    using init_attribute_error [where ?'o = unit, of "PInt 5" PNone BINARY PNone 0 "''Estimator''" "[]"
            "PInt (- 1)" PNone PNone PNone]
          a b c
    by (simp add: not_nested_def)
qed

section \<open>Frame rules\<close>

named_theorems keeps_intros

lemma keeps_ret [keeps_intros]: "keeps g (ret x)"
  by (simp add: keeps_def ret_def)

lemma keeps_raise [keeps_intros]: "keeps g (raise e)"
  by (simp add: keeps_def raise_def)

lemma keeps_lift [keeps_intros]: "keeps g (lift r)"
  by (simp add: keeps_def lift_def)

lemma keeps_get_state [keeps_intros]: "keeps g get_state"
  by (simp add: keeps_def get_state_def)

lemma keeps_modify: "(\<And>s. g (f s) = g s) \<Longrightarrow> keeps g (modify f)"
  by (simp add: keeps_def modify_def)

lemma keeps_bind [keeps_intros]:
  assumes "keeps g m" and "\<And>x. keeps g (f x)"
  shows "keeps g (bind m f)"
proof -
  have "g (snd (bind m f s)) = g s" for s
  proof (cases "m s")
    case (Pair r s')
    have s': "g s' = g s" using assms(1) Pair by (metis keeps_def snd_conv)
    show ?thesis
    proof (cases r)
      case (Inl e)
      then show ?thesis using Pair s' by (simp add: bind_def)
    next
      case (Inr x)
      have "g (snd (f x s')) = g s'" using assms(2) by (simp add: keeps_def)
      then show ?thesis using Pair Inr s' by (simp add: bind_def)
    qed
  qed
  then show ?thesis by (simp add: keeps_def)
qed

lemma keeps_for_each [keeps_intros]:
  assumes "\<And>x. keeps g (f x)"
  shows "keeps g (for_each f xs)"
  by (induction xs) (auto intro!: keeps_intros assms)

lemma keeps_if [keeps_intros]: "keeps g a \<Longrightarrow> keeps g b \<Longrightarrow> keeps g (if c then a else b)"
  by simp

lemma keeps_case_option [keeps_intros]:
  "keeps g a \<Longrightarrow> (\<And>y. keeps g (b y)) \<Longrightarrow> keeps g (case x of None \<Rightarrow> a | Some y \<Rightarrow> b y)"
  by (cases x) simp_all

lemma keeps_case_prod [keeps_intros]:
  "(\<And>a b. keeps g (f a b)) \<Longrightarrow> keeps g (case x of (a, b) \<Rightarrow> f a b)"
  by (cases x) simp

lemma keeps_case_list [keeps_intros]:
  "keeps g a \<Longrightarrow> (\<And>y ys. keeps g (b y ys)) \<Longrightarrow> keeps g (case x of [] \<Rightarrow> a | y # ys \<Rightarrow> b y ys)"
  by (cases x) simp_all

lemma keeps_Let [keeps_intros]: "keeps g (f v) \<Longrightarrow> keeps g (let x = v in f x)"
  by simp

lemma keeps_super_add_result:
  "(\<And>s ts. g (s\<lparr>tuners := ts\<rparr>) = g s) \<Longrightarrow> keeps g (super_add_result C sc p r)"
  by (simp add: keeps_def super_add_result_def split: prod.splits)


section \<open>The counters\<close>

lemma keeps_naive_estimators: "keeps g (naive_estimators C)"
  unfolding naive_estimators_def by (intro keeps_intros)

lemma keeps_create_naive_pipelines: "keeps g (create_naive_pipelines C)"
  unfolding create_naive_pipelines_def by (intro keeps_intros keeps_naive_estimators)

lemma keeps_create_naive_pipelines_with_feature_selection:
  "keeps g (create_naive_pipelines_with_feature_selection C)"
  unfolding create_naive_pipelines_with_feature_selection_def
  by (intro keeps_intros keeps_naive_estimators)

lemma keeps_create_tuner:
  "(\<And>s ts. g (s\<lparr>tuners := ts\<rparr>) = g s) \<Longrightarrow> keeps g (create_tuner C p)"
  unfolding create_tuner_def by (intro keeps_intros keeps_modify) simp

lemma keeps_create_fast_final:
  "(\<And>s ts. g (s\<lparr>tuners := ts\<rparr>) = g s) \<Longrightarrow> keeps g (create_fast_final C)"
  unfolding create_fast_final_def
  by (intro keeps_intros keeps_naive_estimators keeps_create_tuner) simp

lemma keeps_ensemble_input:
  "(\<And>s b. g (s\<lparr>best_pipeline_info := b\<rparr>) = g s) \<Longrightarrow> keeps g (ensemble_input C f)"
  unfolding ensemble_input_def by (intro keeps_intros keeps_modify) simp

lemma keeps_create_ensemble:
  "(\<And>s b. g (s\<lparr>best_pipeline_info := b\<rparr>) = g s) \<Longrightarrow> keeps g (create_ensemble C)"
  unfolding create_ensemble_def by (intro keeps_intros keeps_ensemble_input) simp

lemma keeps_propose_pipeline:
  "(\<And>s ts. g (s\<lparr>tuners := ts\<rparr>) = g s) \<Longrightarrow> keeps g (propose_pipeline C p)"
  unfolding propose_pipeline_def by (intro keeps_intros keeps_modify) simp

lemma keeps_propose_with_tuner:
  "(\<And>s ts. g (s\<lparr>tuners := ts\<rparr>) = g s) \<Longrightarrow> keeps g (propose_with_tuner C p)"
  unfolding propose_with_tuner_def
  by (intro keeps_intros keeps_propose_pipeline keeps_create_tuner) simp_all

lemma keeps_create_long_top_n:
  "(\<And>s ts. g (s\<lparr>tuners := ts\<rparr>) = g s) \<Longrightarrow> (\<And>s ps. g (s\<lparr>top_n_pipelines := ps\<rparr>) = g s)
   \<Longrightarrow> keeps g (create_long_top_n C n)"
  unfolding create_long_top_n_def
  by (intro keeps_intros keeps_propose_with_tuner keeps_modify) simp_all

lemma keeps_add_result:
  assumes "\<And>s ts. g (s\<lparr>tuners := ts\<rparr>) = g s"
    and "\<And>s c. g (s\<lparr>selected_cols := c\<rparr>) = g s"
    and "\<And>s b. g (s\<lparr>best_pipeline_info := b\<rparr>) = g s"
  shows "keeps g (add_result C sc p r)"
  unfolding add_result_def
  by (intro keeps_intros keeps_modify keeps_super_add_result) (simp_all add: assms)

lemma counters_simps:
  "counters (s\<lparr>tuners := ts\<rparr>) = counters s"
  "counters (s\<lparr>selected_cols := c\<rparr>) = counters s"
  "counters (s\<lparr>best_pipeline_info := b\<rparr>) = counters s"
  "counters (s\<lparr>top_n_pipelines := ps\<rparr>) = counters s"
  by (simp_all add: counters_def)

lemma add_result_counters: "counters (snd (add_result C sc p r s)) = counters s"
  using keeps_add_result [of counters C sc p r] by (simp add: keeps_def counters_simps)

text \<open>The end of \<open>next_batch\<close>: the two increments after the batch is built.\<close>

lemma finish_batch:
  assumes "keeps counters m"
  shows "counters (snd (bind m (\<lambda>nb.
           bind (modify (\<lambda>s. s\<lparr>pipeline_number := pipeline_number s + length nb\<rparr>)) (\<lambda>u.
           bind (modify (\<lambda>s. s\<lparr>batch_number := batch_number s + 1\<rparr>)) (\<lambda>u. ret nb))) s))
         = (case fst (m s) of
              Inl e \<Rightarrow> counters s
            | Inr b \<Rightarrow> (batch_number s + 1, pipeline_number s + length b))
       \<and> fst (bind m (\<lambda>nb.
           bind (modify (\<lambda>s. s\<lparr>pipeline_number := pipeline_number s + length nb\<rparr>)) (\<lambda>u.
           bind (modify (\<lambda>s. s\<lparr>batch_number := batch_number s + 1\<rparr>)) (\<lambda>u. ret nb))) s)
         = fst (m s)"
proof (cases "m s")
  case (Pair r s')
  have "counters s' = counters s" using assms Pair by (metis keeps_def snd_conv)
  then have c: "batch_number s' = batch_number s" "pipeline_number s' = pipeline_number s"
    by (simp_all add: counters_def)
  show ?thesis
  proof (cases r)
    case (Inl e)
    then show ?thesis using Pair c by (simp add: bind_def counters_def)
  next
    case (Inr b)
    then show ?thesis using Pair c by (simp add: bind_def modify_def ret_def counters_def)
  qed
qed

lemma keeps_batch_body:
  "keeps counters
     (if batch_number self = 0 then create_naive_pipelines C
      else if batch_number self = 1 then create_naive_pipelines_with_feature_selection C
      else if batch_number self = 2 then create_fast_final C
      else if batch_number self = 3 then create_ensemble C
      else if batch_number self = 4 then create_long_top_n C 3
      else if batch_number self mod 2 \<noteq> 0 then create_ensemble C
      else (case top_n_pipelines self of
              None \<Rightarrow> raise (Exn TypeError
                        ([CHR 0x27] @ ''NoneType'' @ [CHR 0x27] @ '' object is not iterable''))
            | Some pipelines \<Rightarrow>
                for_each (propose_pipeline C) (concat (replicate 10 pipelines))))"
  by (intro keeps_intros keeps_create_naive_pipelines
        keeps_create_naive_pipelines_with_feature_selection keeps_create_fast_final
        keeps_create_ensemble keeps_create_long_top_n keeps_propose_pipeline)
     (simp_all add: counters_simps)

lemma next_batch_counters:
  "counters (snd (next_batch C s)) =
     (case fst (next_batch C s) of
        Inl e \<Rightarrow> counters s
      | Inr b \<Rightarrow> (batch_number s + 1, pipeline_number s + length b))"
proof -
  have "next_batch C s =
     bind (if batch_number s = 0 then create_naive_pipelines C
      else if batch_number s = 1 then create_naive_pipelines_with_feature_selection C
      else if batch_number s = 2 then create_fast_final C
      else if batch_number s = 3 then create_ensemble C
      else if batch_number s = 4 then create_long_top_n C 3
      else if batch_number s mod 2 \<noteq> 0 then create_ensemble C
      else (case top_n_pipelines s of
              None \<Rightarrow> raise (Exn TypeError
                        ([CHR 0x27] @ ''NoneType'' @ [CHR 0x27] @ '' object is not iterable''))
            | Some pipelines \<Rightarrow>
                for_each (propose_pipeline C) (concat (replicate 10 pipelines))))
       (\<lambda>nb.
           bind (modify (\<lambda>s. s\<lparr>pipeline_number := pipeline_number s + length nb\<rparr>)) (\<lambda>u.
           bind (modify (\<lambda>s. s\<lparr>batch_number := batch_number s + 1\<rparr>)) (\<lambda>u. ret nb))) s"
    unfolding next_batch_def by (subst bind_def) (simp add: get_state_def)
  then show ?thesis
    using finish_batch [OF keeps_batch_body [of s C], of s] by simp
qed

lemma call_of_add_result_snd:
  "snd (call_of C (AddResult sc p r) s) = snd (add_result C sc p r s)"
  by (simp add: bind_def ret_def split: prod.splits sum.splits)

text \<open>
  Claim C7. In every run of \<open>next_batch\<close> and \<open>add_result\<close> calls, from any state,
  \<open>batch_number\<close> grows by the number of batches that \<open>next_batch\<close> returned and
  \<open>pipeline_number\<close> by the sum of their lengths: \<open>add_result\<close> and a \<open>next_batch\<close>
  that raises change neither. When all \<open>n\<close> calls of \<open>next_batch\<close> return, the number
  of returned batches is \<open>n\<close>.
\<close>

theorem counters_of_run:
  "batch_number (run C cs s) = batch_number s + length (returned_batches C cs s)
   \<and> pipeline_number (run C cs s)
       = pipeline_number s + sum_list (map length (returned_batches C cs s))
   \<and> (all_batches_returned C cs s \<longrightarrow>
        length (returned_batches C cs s) = length (filter is_next_batch cs))"
proof (induction cs arbitrary: s)
  case Nil
  then show ?case by simp
next
  case (Cons c cs)
  show ?case
  proof (cases c)
    case NextBatch
    obtain r s' where n: "next_batch C s = (r, s')" by (cases "next_batch C s")
    have k: "counters s' = (case r of Inl e \<Rightarrow> counters s
               | Inr b \<Rightarrow> (batch_number s + 1, pipeline_number s + length b))"
      using next_batch_counters [of C s] n by simp
    show ?thesis
    proof (cases r)
      case (Inl e)
      then show ?thesis using Cons.IH [of s'] NextBatch n k
        by (simp add: counters_def returns_def is_next_batch_def)
    next
      case (Inr b)
      then show ?thesis using Cons.IH [of s'] NextBatch n k
        by (simp add: counters_def returns_def is_next_batch_def)
    qed
  next
    case (AddResult sc p r)
    have "counters (snd (call_of C c s)) = counters s"
      using AddResult add_result_counters [of C sc p r s]
      by (simp only: call_of_add_result_snd)
    then show ?thesis using Cons.IH [of "snd (call_of C c s)"] AddResult
      by (simp add: counters_def is_next_batch_def del: call_of.simps)
  qed
qed


theorem counters_of_run_witness:
  "all_batches_returned demo demo_calls demo_self
   \<and> length (filter is_next_batch demo_calls) = 3
   \<and> map length (returned_batches demo demo_calls demo_self) = [2, 2, 1]
   \<and> batch_number (run demo demo_calls demo_self) = 3
   \<and> pipeline_number (run demo demo_calls demo_self) = 5"
proof -
  have a: "all_batches_returned demo demo_calls demo_self" by code_simp
  have b: "map length (returned_batches demo demo_calls demo_self) = [2, 2, 1]" by code_simp
  have c: "length (filter is_next_batch demo_calls) = 3" by code_simp
  have d: "batch_number demo_self = 0" "pipeline_number demo_self = 0"
    by (simp_all add: demo_self_def)
  have e: "length (returned_batches demo demo_calls demo_self) = 3"
  proof -
    have "length (map length (returned_batches demo demo_calls demo_self)) = length [2, 2, 1 :: nat]"
      using b by simp
    then show ?thesis by simp
  qed
  show ?thesis
    using counters_of_run [of demo demo_calls demo_self] a b c d e by simp
qed

section \<open>Recording results\<close>

lemma bind_get_state: "bind get_state f s = f s s"
  by (simp add: bind_def get_state_def)

lemma bind_ret: "bind (ret x) f = f x"
  by (simp add: bind_def ret_def)

lemma bind_raise: "bind (raise e) f = raise e"
  by (simp add: bind_def raise_def)

lemma bind_modify: "bind (modify g) f s = f () (g s)"
  by (simp add: bind_def modify_def)

lemma bind_lift: "bind (lift r) f s = (case r of Inl e \<Rightarrow> (Inl e, s) | Inr x \<Rightarrow> f x s)"
  by (simp add: bind_def lift_def split: sum.splits)

lemma bind_if: "bind (if c then a else b) f = (if c then bind a f else bind b f)"
  by simp

lemma bind_super_add_result:
  "bind (super_add_result C sc p r) f s =
     (case base_add_result C sc p r (tuners s) of
        (Inl e, ts) \<Rightarrow> (Inl e, s\<lparr>tuners := ts\<rparr>)
      | (Inr u, ts) \<Rightarrow> f u (s\<lparr>tuners := ts\<rparr>))"
  by (simp add: bind_def super_add_result_def split: prod.splits sum.splits)

lemma bind_cong_at:
  "m s = m' s \<Longrightarrow> (\<And>x s'. f x s' = f' x s') \<Longrightarrow> bind m f s = bind m' f' s"
  by (simp add: bind_def split: prod.splits sum.splits)

lemma add_result_stages:
  "add_result C sc p r s =
     bind (forward C sc p r) (\<lambda>u. bind (extract_cols C p) (\<lambda>u. record_best sc p r)) s"
  unfolding add_result_def
  apply (subst bind_get_state)
  apply (rule bind_cong_at)
   apply (simp add: forward_def ret_def)
  apply (subst bind_get_state)
  apply (rule bind_cong_at)
   apply (simp add: extract_cols_def rf_selector_name_def bind_lift modify_def ret_def
            split: sum.splits)
  apply (subst bind_get_state)
  apply (simp add: record_best_def ret_def raise_def modify_def split: option.splits)
  done

lemma forward_frame:
  "best_pipeline_info (snd (forward C sc p r s)) = best_pipeline_info s"
  "selected_cols (snd (forward C sc p r s)) = selected_cols s"
  "batch_number (snd (forward C sc p r s)) = batch_number s"
  "self_problem_type (snd (forward C sc p r s)) = self_problem_type s"
  "top_n_pipelines (snd (forward C sc p r s)) = top_n_pipelines s"
  by (simp_all add: forward_def super_add_result_def split: prod.splits)

lemma forward_tuners:
  "tuners (snd (forward C sc p r s)) =
     (if model_family p \<noteq> ENSEMBLE \<and> 3 \<le> batch_number s
      then snd (base_add_result C sc p r (tuners s)) else tuners s)"
  by (simp add: forward_def super_add_result_def split: prod.splits)

lemma forward_fst:
  "fst (forward C sc p r s) =
     (if model_family p \<noteq> ENSEMBLE \<and> 3 \<le> batch_number s
      then fst (base_add_result C sc p r (tuners s)) else Inr ())"
  by (simp add: forward_def super_add_result_def split: prod.splits)

lemma extract_cols_frame:
  "best_pipeline_info (snd (extract_cols C p s)) = best_pipeline_info s"
  "tuners (snd (extract_cols C p s)) = tuners s"
  "top_n_pipelines (snd (extract_cols C p s)) = top_n_pipelines s"
  by (simp_all add: extract_cols_def split: sum.splits)

lemma extract_cols_selected:
  "selected_cols (snd (extract_cols C p s)) =
     (if batch_number s = 2 \<and> selected_cols s = None
      then (case get_component_names C p (rf_selector_name C s) of
              Inl e \<Rightarrow> None | Inr names \<Rightarrow> Some names)
      else selected_cols s)"
  by (simp add: extract_cols_def split: sum.splits)

lemma record_best_frame:
  "tuners (snd (record_best sc p r s)) = tuners s"
  "selected_cols (snd (record_best sc p r s)) = selected_cols s"
  "top_n_pipelines (snd (record_best sc p r s)) = top_n_pipelines s"
  by (simp_all add: record_best_def split: option.splits)

text \<open>The state after a \<open>bind\<close>, observed through \<open>g\<close>, when the continuation keeps \<open>g\<close>.\<close>

lemma bind_snd_keeps:
  "(\<And>x s'. g (snd (f x s')) = g s') \<Longrightarrow> g (snd (bind m f s)) = g (snd (m s))"
  by (simp add: bind_def split: prod.splits sum.splits)

lemma add_result_tuners:
  "tuners (snd (add_result C sc p r s)) =
     (if model_family p \<noteq> ENSEMBLE \<and> 3 \<le> batch_number s
      then snd (base_add_result C sc p r (tuners s)) else tuners s)"
proof -
  have "tuners (snd (add_result C sc p r s)) = tuners (snd (forward C sc p r s))"
    unfolding add_result_stages
  proof (rule bind_snd_keeps)
    fix x s'
    have "tuners (snd (bind (extract_cols C p) (\<lambda>u. record_best sc p r) s'))
            = tuners (snd (extract_cols C p s'))"
      by (rule bind_snd_keeps) (simp add: record_best_frame)
    then show "tuners (snd (bind (extract_cols C p) (\<lambda>u. record_best sc p r) s')) = tuners s'"
      by (simp add: extract_cols_frame)
  qed
  then show ?thesis by (simp add: forward_tuners)
qed

lemma bind_fst_raises: "fst (m s) = Inl e \<Longrightarrow> fst (bind m f s) = Inl e"
  by (cases "m s") (auto simp add: bind_def)

lemma add_result_base_raises:
  "model_family p \<noteq> ENSEMBLE \<Longrightarrow> 3 \<le> batch_number s \<Longrightarrow>
   fst (base_add_result C sc p r (tuners s)) = Inl e \<Longrightarrow>
   fst (add_result C sc p r s) = Inl e"
  unfolding add_result_stages by (rule bind_fst_raises) (simp add: forward_fst)

lemma extract_cols_base: "extract_cols (C\<lparr>base_add_result := f\<rparr>) p = extract_cols C p"
  by (rule ext) (simp add: extract_cols_def rf_selector_name_def)

lemma add_result_not_forwarded:
  assumes "\<not> (model_family p \<noteq> ENSEMBLE \<and> 3 \<le> batch_number s)"
  shows "add_result (C\<lparr>base_add_result := f\<rparr>) sc p r s = add_result C sc p r s"
proof -
  have "forward (C\<lparr>base_add_result := f\<rparr>) sc p r s = forward C sc p r s"
    using assms by (auto simp add: forward_def)
  then show ?thesis
    unfolding add_result_stages extract_cols_base by (rule bind_cong_at) simp
qed

lemma add_result_selected_cols:
  "selected_cols (snd (add_result C sc p r s)) =
     (if batch_number s = 2 \<and> selected_cols s = None
      then (case get_component_names C p (rf_selector_name C s) of
              Inl e \<Rightarrow> None | Inr names \<Rightarrow> Some names)
      else selected_cols s)"
proof (cases "forward C sc p r s")
  case (Pair o1 s1)
  have f: "selected_cols s1 = selected_cols s" "batch_number s1 = batch_number s"
    "self_problem_type s1 = self_problem_type s"
    using forward_frame [of C sc p r s] Pair by simp_all
  have k: "selected_cols (snd (bind (extract_cols C p) (\<lambda>u. record_best sc p r) s'))
            = selected_cols (snd (extract_cols C p s'))" for s'
    by (rule bind_snd_keeps) (simp add: record_best_frame)
  show ?thesis
  proof (cases o1)
    case (Inl e)
    have "\<not> (batch_number s = 2 \<and> selected_cols s = None)"
      using Inl Pair forward_fst [of C sc p r s] by (auto split: if_splits)
    then show ?thesis using Inl Pair f by (auto simp add: add_result_stages bind_def)
  next
    case (Inr u)
    have "add_result C sc p r s = bind (extract_cols C p) (\<lambda>u. record_best sc p r) s1"
      using Inr Pair by (simp add: add_result_stages bind_def)
    then show ?thesis using k [of s1] f
      by (simp add: extract_cols_selected rf_selector_name_def)
  qed
qed

lemma add_result_top_n_pipelines:
  "top_n_pipelines (snd (add_result C sc p r s)) = top_n_pipelines s"
proof -
  have "top_n_pipelines (snd (add_result C sc p r s)) = top_n_pipelines (snd (forward C sc p r s))"
    unfolding add_result_stages
  proof (rule bind_snd_keeps)
    fix x s'
    have "top_n_pipelines (snd (bind (extract_cols C p) (\<lambda>u. record_best sc p r) s'))
            = top_n_pipelines (snd (extract_cols C p s'))"
      by (rule bind_snd_keeps) (simp add: record_best_frame)
    then show "top_n_pipelines (snd (bind (extract_cols C p) (\<lambda>u. record_best sc p r) s'))
                 = top_n_pipelines s'"
      by (simp add: extract_cols_frame)
  qed
  then show ?thesis by (simp add: forward_frame)
qed

lemma keeps_next_batch_selected_cols: "keeps selected_cols (next_batch C)"
  unfolding next_batch_def
  by (intro keeps_intros keeps_modify keeps_create_naive_pipelines
        keeps_create_naive_pipelines_with_feature_selection keeps_create_fast_final
        keeps_create_ensemble keeps_create_long_top_n keeps_propose_pipeline)
     simp_all

lemma next_batch_selected_cols: "selected_cols (snd (next_batch C s)) = selected_cols s"
  using keeps_next_batch_selected_cols [of C] by (simp add: keeps_def)

lemma next_batch_batch_number:
  assumes "next_batch C s0 = (Inr batch, s1)"
  shows "batch_number s1 = batch_number s0 + 1"
  using next_batch_counters [of C s0] assms by (simp add: counters_def)

text \<open>
  Claim C3 (as amended). \<open>add_result\<close> hands a result to the base class exactly when the
  pipeline is not an ensemble and the counter \<open>batch_number\<close> is at least 3 at the call:
  then the tuner table after the call is the one the base class leaves, and what the base
  class raises is raised; otherwise the call does not depend on the base class at all and
  the tuner table is unchanged. \<open>next_batch\<close> increments the counter as it returns, so
  the results of the batch built at counter \<open>k\<close> arrive at counter \<open>k + 1\<close>: the results
  of batch 2 and of every later batch are forwarded, those of batches 0 and 1 never.
\<close>

theorem add_result_forwarding:
  "(model_family p \<noteq> ENSEMBLE \<and> 3 \<le> batch_number s \<longrightarrow>
      tuners (snd (add_result C sc p r s)) = snd (base_add_result C sc p r (tuners s))
      \<and> (\<forall>e. fst (base_add_result C sc p r (tuners s)) = Inl e \<longrightarrow>
             fst (add_result C sc p r s) = Inl e))
   \<and> (\<not> (model_family p \<noteq> ENSEMBLE \<and> 3 \<le> batch_number s) \<longrightarrow>
        add_result (C\<lparr>base_add_result := f\<rparr>) sc p r s = add_result C sc p r s
        \<and> tuners (snd (add_result C sc p r s)) = tuners s)
   \<and> (next_batch C s0 = (Inr batch, s1) \<longrightarrow>
        batch_number s1 = batch_number s0 + 1
        \<and> (model_family p \<noteq> ENSEMBLE \<and> 2 \<le> batch_number s0 \<longrightarrow>
              tuners (snd (add_result C sc p r s1)) = snd (base_add_result C sc p r (tuners s1)))
        \<and> (batch_number s0 < 2 \<longrightarrow>
              add_result (C\<lparr>base_add_result := f\<rparr>) sc p r s1 = add_result C sc p r s1
              \<and> tuners (snd (add_result C sc p r s1)) = tuners s1))"
proof (intro conjI impI allI)
  assume "model_family p \<noteq> ENSEMBLE \<and> 3 \<le> batch_number s"
  then show "tuners (snd (add_result C sc p r s)) = snd (base_add_result C sc p r (tuners s))"
    by (simp add: add_result_tuners)
next
  fix e
  assume "model_family p \<noteq> ENSEMBLE \<and> 3 \<le> batch_number s"
    and "fst (base_add_result C sc p r (tuners s)) = Inl e"
  then show "fst (add_result C sc p r s) = Inl e"
    by (simp add: add_result_base_raises)
next
  assume "\<not> (model_family p \<noteq> ENSEMBLE \<and> 3 \<le> batch_number s)"
  then show "add_result (C\<lparr>base_add_result := f\<rparr>) sc p r s = add_result C sc p r s"
    by (rule add_result_not_forwarded)
next
  assume "\<not> (model_family p \<noteq> ENSEMBLE \<and> 3 \<le> batch_number s)"
  then show "tuners (snd (add_result C sc p r s)) = tuners s"
    by (auto simp add: add_result_tuners)
next
  assume "next_batch C s0 = (Inr batch, s1)"
  then show "batch_number s1 = batch_number s0 + 1" by (rule next_batch_batch_number)
next
  assume n: "next_batch C s0 = (Inr batch, s1)"
    and "model_family p \<noteq> ENSEMBLE \<and> 2 \<le> batch_number s0"
  then show "tuners (snd (add_result C sc p r s1)) = snd (base_add_result C sc p r (tuners s1))"
    using next_batch_batch_number [OF n] by (simp add: add_result_tuners)
next
  assume n: "next_batch C s0 = (Inr batch, s1)" and "batch_number s0 < 2"
  then have "\<not> (model_family p \<noteq> ENSEMBLE \<and> 3 \<le> batch_number s1)"
    using next_batch_batch_number [OF n] by simp
  then show "add_result (C\<lparr>base_add_result := f\<rparr>) sc p r s1 = add_result C sc p r s1"
    by (rule add_result_not_forwarded)
next
  assume n: "next_batch C s0 = (Inr batch, s1)" and "batch_number s0 < 2"
  then have "\<not> (model_family p \<noteq> ENSEMBLE \<and> 3 \<le> batch_number s1)"
    using next_batch_batch_number [OF n] by simp
  then show "tuners (snd (add_result C sc p r s1)) = tuners s1"
    by (auto simp add: add_result_tuners)
qed

theorem add_result_forwarding_witness:
  "next_batch demo (state_after 2) = (Inr [fast_final_pipeline], state_after 3)
   \<and> batch_number (state_after 3) = batch_number (state_after 2) + 1
   \<and> tuners (snd (add_result demo (Some (Finite 1)) fast_final_pipeline [(''id'', PInt 0)]
               (state_after 3)))
       = snd (base_add_result demo (Some (Finite 1)) fast_final_pipeline [(''id'', PInt 0)]
               (tuners (state_after 3)))
   \<and> tuners (snd (add_result demo (Some (Finite 1)) logistic_pipeline [(''id'', PInt 0)]
               (state_after 1)))
       = tuners (state_after 1)"
proof -
  have a: "next_batch demo (state_after 2) = (Inr [fast_final_pipeline], state_after 3)"
    by code_simp
  have b: "model_family fast_final_pipeline \<noteq> ENSEMBLE \<and> 2 \<le> batch_number (state_after 2)"
    by code_simp
  have c: "\<not> (model_family logistic_pipeline \<noteq> ENSEMBLE \<and> 3 \<le> batch_number (state_after 1))"
    by code_simp
  show ?thesis
    using add_result_forwarding [of fast_final_pipeline "state_after 1" demo "Some (Finite 1)"
            "[(''id'', PInt 0)]" "base_add_result demo" "state_after 2" "[fast_final_pipeline]"
            "state_after 3"]
          add_result_forwarding [of logistic_pipeline "state_after 1" demo "Some (Finite 1)"
            "[(''id'', PInt 0)]" "base_add_result demo" "state_after 2" "[fast_final_pipeline]"
            "state_after 3"]
          a b c
    by blast
qed

text \<open>
  Claim C3 as stated fails for batch 2: the third call of \<open>next_batch\<close>, made at counter
  2, returns the pipeline of \<open>_create_fast_final\<close>; its result is added at counter 3 and
  reaches the base class, whose tuner records the observation.
\<close>

theorem batch_two_results_are_forwarded:
  "batch_number (state_after 2) = 2
   \<and> fst (next_batch demo (state_after 2)) = Inr [fast_final_pipeline]
   \<and> snd (next_batch demo (state_after 2)) = state_after 3
   \<and> model_family fast_final_pipeline \<noteq> ENSEMBLE
   \<and> map (\<lambda>nt. (fst nt, opt (snd nt))) (tuners (state_after 3))
        = [(''Decision Tree ClassifierSelectColumns'', [])]
   \<and> map (\<lambda>nt. (fst nt, opt (snd nt)))
        (tuners (snd (add_result demo (Some (Finite 1)) fast_final_pipeline [(''id'', PInt 0)]
                  (state_after 3))))
        = [(''Decision Tree ClassifierSelectColumns'', [([PNone], Some (Finite 1))])]"
  by code_simp

lemma run_selected_cols:
  "selected_cols s = Some cols \<Longrightarrow> selected_cols (run C cs s) = Some cols"
proof (induction cs arbitrary: s)
  case Nil
  then show ?case by simp
next
  case (Cons c cs)
  have "selected_cols (snd (call_of C c s)) = Some cols"
  proof (cases c)
    case NextBatch
    then show ?thesis using Cons.prems by (simp add: next_batch_selected_cols)
  next
    case (AddResult sc p r)
    then show ?thesis using Cons.prems
      by (simp only: call_of_add_result_snd add_result_selected_cols) simp
  qed
  then show ?case using Cons.IH by simp
qed

text \<open>
  Claim C2 (as amended). \<open>add_result\<close> extracts the selected columns exactly when the
  counter \<open>batch_number\<close> is 2 at the call and no columns are stored: it stores the names
  that \<open>get_names()\<close> of the pipeline's RF feature-selection component returns. At every
  other counter \<open>add_result\<close> leaves the stored columns as they are, \<open>next_batch\<close> never
  changes them, and columns once stored survive every later run of calls. The counter is 2
  after \<open>next_batch\<close> returned the batch built at counter 1, the batch with the RF
  feature-selection component.
\<close>

theorem selected_cols_extraction:
  "(batch_number s = 2 \<and> selected_cols s = None
      \<and> get_component_names C p (rf_selector_name C s) = Inr names \<longrightarrow>
      selected_cols (snd (add_result C sc p r s)) = Some names)
   \<and> (batch_number s \<noteq> 2 \<longrightarrow> selected_cols (snd (add_result C sc p r s)) = selected_cols s)
   \<and> (selected_cols s = Some cols \<longrightarrow> selected_cols (run C cs s) = Some cols)
   \<and> selected_cols (snd (next_batch C s)) = selected_cols s
   \<and> (next_batch C s0 = (Inr batch, s1) \<longrightarrow> (batch_number s1 = 2 \<longleftrightarrow> batch_number s0 = 1))"
proof (intro conjI impI)
  assume "batch_number s = 2 \<and> selected_cols s = None
      \<and> get_component_names C p (rf_selector_name C s) = Inr names"
  then show "selected_cols (snd (add_result C sc p r s)) = Some names"
    by (simp add: add_result_selected_cols)
next
  assume "batch_number s \<noteq> 2"
  then show "selected_cols (snd (add_result C sc p r s)) = selected_cols s"
    by (simp add: add_result_selected_cols)
next
  assume "selected_cols s = Some cols"
  then show "selected_cols (run C cs s) = Some cols" by (rule run_selected_cols)
next
  show "selected_cols (snd (next_batch C s)) = selected_cols s"
    by (rule next_batch_selected_cols)
next
  assume n: "next_batch C s0 = (Inr batch, s1)"
  show "batch_number s1 = 2 \<longleftrightarrow> batch_number s0 = 1"
    using next_batch_batch_number [OF n] by auto
qed

theorem selected_cols_extraction_witness:
  "next_batch demo (state_after 1)
     = (Inr [selector_pipeline, forest_selector_pipeline], state_after 2)
   \<and> batch_number (state_after 1) = 1
   \<and> batch_number (state_after 2) = 2
   \<and> selected_cols (state_after 2) = None
   \<and> selected_cols with_cols = Some [''a'', ''b'']
   \<and> selected_cols
        (run demo [AddResult (Some (Finite 2)) forest_selector_pipeline [(''id'', PInt 1)],
                   NextBatch] with_cols) = Some [''a'', ''b'']"
proof -
  have a: "next_batch demo (state_after 1)
     = (Inr [selector_pipeline, forest_selector_pipeline], state_after 2)"
    by code_simp
  have b: "batch_number (state_after 1) = 1" by code_simp
  have c: "batch_number (state_after 2) = 2 \<and> selected_cols (state_after 2) = None
      \<and> get_component_names demo selector_pipeline (rf_selector_name demo (state_after 2))
          = Inr [''a'', ''b'']"
    by code_simp
  have d: "selected_cols with_cols = Some [''a'', ''b'']"
    unfolding with_cols_def
    using selected_cols_extraction [of "state_after 2" demo selector_pipeline "[''a'', ''b'']"
            "Some (Finite 1)" "[(''id'', PInt 0)]" "[]" "[]" "state_after 1"
            "[selector_pipeline, forest_selector_pipeline]" "state_after 2"] c
    by blast
  have e: "selected_cols
        (run demo [AddResult (Some (Finite 2)) forest_selector_pipeline [(''id'', PInt 1)],
                   NextBatch] with_cols) = Some [''a'', ''b'']"
    using selected_cols_extraction [of with_cols demo selector_pipeline "[''a'', ''b'']"
            "Some (Finite 1)" "[(''id'', PInt 0)]" "[''a'', ''b'']"
            "[AddResult (Some (Finite 2)) forest_selector_pipeline [(''id'', PInt 1)], NextBatch]"
            "state_after 1" "[selector_pipeline, forest_selector_pipeline]" "state_after 2"] d
    by blast
  have f: "batch_number (state_after 2) = 2 \<longleftrightarrow> batch_number (state_after 1) = 1"
    using selected_cols_extraction [of with_cols demo selector_pipeline "[''a'', ''b'']"
            "Some (Finite 1)" "[(''id'', PInt 0)]" "[''a'', ''b'']" "[]"
            "state_after 1" "[selector_pipeline, forest_selector_pipeline]" "state_after 2"] a
    by blast
  show ?thesis using a b c d e f by blast
qed

text \<open>
  Claim C2 as stated fails for batch 2: with no columns stored, the result of the batch
  that \<open>next_batch\<close> built at counter 2 is added at counter 3, the call returns, and the
  selected columns are still \<open>None\<close>.
\<close>

theorem batch_two_result_extracts_nothing:
  "batch_number (state_after 2) = 2
   \<and> fst (next_batch demo (state_after 2)) = Inr [fast_final_pipeline]
   \<and> snd (next_batch demo (state_after 2)) = state_after 3
   \<and> selected_cols (state_after 3) = None
   \<and> returns (add_result demo (Some (Finite 1)) fast_final_pipeline [(''id'', PInt 0)]
                  (state_after 3))
   \<and> selected_cols (snd (add_result demo (Some (Finite 1)) fast_final_pipeline [(''id'', PInt 0)]
                  (state_after 3))) = None"
  by code_simp

section \<open>The best pipeline of a family\<close>


lemma map_of_map_snd:
  "map_of (map (\<lambda>kd. (fst kd, h (snd kd))) al) k = map_option h (map_of al k)"
  by (induction al) auto

lemma current_best_score_table:
  "current_best_score s f = (case map_of (score_table s) f of None \<Rightarrow> PosInf | Some x \<Rightarrow> x)"
  by (simp add: current_best_score_def score_table_def map_of_map_snd split: option.splits)

lemma update_same_score:
  "map_of al k = Some d \<Longrightarrow> h d' = h d \<Longrightarrow>
   map (\<lambda>kd. (fst kd, h (snd kd))) (AList.update k d' al) = map (\<lambda>kd. (fst kd, h (snd kd))) al"
  by (induction al) (auto split: if_splits)

lemma keeps_ensemble_input_scores: "keeps score_table (ensemble_input C f)"
proof -
  have "score_table (snd (ensemble_input C f s)) = score_table s" for s
  proof (cases "map_of (best_pipeline_info s) f")
    case None
    then show ?thesis by (simp add: ensemble_input_def bind_get_state raise_def)
  next
    case (Some d)
    obtain ps mut where t: "transform_parameters C s (info_pipeline d) (info_parameters d) = (ps, mut)"
      by (cases "transform_parameters C s (info_pipeline d) (info_parameters d)")
    have u: "score_table (s\<lparr>best_pipeline_info :=
                AList.update f (d\<lparr>info_parameters := mut\<rparr>) (best_pipeline_info s)\<rparr>)
             = score_table s"
      using update_same_score [OF Some, of mean_cv_score "d\<lparr>info_parameters := mut\<rparr>"]
      by (simp add: score_table_def)
    show ?thesis using Some t u
      by (simp add: ensemble_input_def bind_get_state bind_modify bind_lift lift_def
            split: sum.splits)
  qed
  then show ?thesis by (simp add: keeps_def)
qed

lemma score_table_simps:
  "score_table (s\<lparr>tuners := ts\<rparr>) = score_table s"
  "score_table (s\<lparr>selected_cols := c\<rparr>) = score_table s"
  "score_table (s\<lparr>top_n_pipelines := ps\<rparr>) = score_table s"
  "score_table (s\<lparr>batch_number := b\<rparr>) = score_table s"
  "score_table (s\<lparr>pipeline_number := n\<rparr>) = score_table s"
  by (simp_all add: score_table_def)

lemma keeps_create_ensemble_scores: "keeps score_table (create_ensemble C)"
  unfolding create_ensemble_def by (intro keeps_intros keeps_ensemble_input_scores)

lemma keeps_next_batch_scores: "keeps score_table (next_batch C)"
  unfolding next_batch_def
  by (intro keeps_intros keeps_modify keeps_create_naive_pipelines
        keeps_create_naive_pipelines_with_feature_selection keeps_create_fast_final
        keeps_create_ensemble_scores keeps_create_long_top_n keeps_propose_pipeline)
     (simp_all add: score_table_simps)

lemma next_batch_current_best_score:
  "current_best_score (snd (next_batch C s)) f = current_best_score s f"
  using keeps_next_batch_scores [of C] by (simp add: keeps_def current_best_score_table)

lemma next_batch_keys:
  "map fst (best_pipeline_info (snd (next_batch C s))) = map fst (best_pipeline_info s)"
proof -
  have "map fst (score_table (snd (next_batch C s))) = map fst (score_table s)"
    using keeps_next_batch_scores [of C] by (simp add: keeps_def)
  then show ?thesis by (simp add: score_table_def comp_def)
qed

lemma current_best_score_cong:
  "best_pipeline_info s' = best_pipeline_info s \<Longrightarrow>
   current_best_score s' f = current_best_score s f"
  by (simp add: current_best_score_def)

text \<open>The entry that \<open>add_result\<close> writes for a score \<open>x\<close>.\<close>

lemma record_best_result:
  "record_best sc p r s =
     (case sc of
        None \<Rightarrow> (Inr (), s)
      | Some x \<Rightarrow>
          if float_lt x (current_best_score s (model_family p)) \<and> model_family p \<noteq> ENSEMBLE
          then (case map_of r ''id'' of
                  None \<Rightarrow> (Inl (Exn KeyError ([CHR 0x27] @ ''id'' @ [CHR 0x27])), s)
                | Some i \<Rightarrow>
                    (Inr (), s\<lparr>best_pipeline_info :=
                       AList.update (model_family p)
                         \<lparr> mean_cv_score = x, info_pipeline = p,
                           info_parameters = parameters p, info_id = i \<rparr>
                         (best_pipeline_info s)\<rparr>))
          else (Inr (), s))"
  by (simp add: record_best_def)

lemma record_best_info:
  "best_pipeline_info (snd (record_best sc p r s)) =
     (case sc of
        None \<Rightarrow> best_pipeline_info s
      | Some x \<Rightarrow>
          if returns (record_best sc p r s)
             \<and> float_lt x (current_best_score s (model_family p)) \<and> model_family p \<noteq> ENSEMBLE
          then AList.update (model_family p)
                 \<lparr> mean_cv_score = x, info_pipeline = p, info_parameters = parameters p,
                   info_id = the (map_of r ''id'') \<rparr> (best_pipeline_info s)
          else best_pipeline_info s)"
  by (auto simp add: record_best_def returns_def split: option.splits)

lemma add_result_info:
  "best_pipeline_info (snd (add_result C sc p r s)) =
     (case sc of
        None \<Rightarrow> best_pipeline_info s
      | Some x \<Rightarrow>
          if returns (add_result C sc p r s)
             \<and> float_lt x (current_best_score s (model_family p)) \<and> model_family p \<noteq> ENSEMBLE
          then AList.update (model_family p)
                 \<lparr> mean_cv_score = x, info_pipeline = p, info_parameters = parameters p,
                   info_id = the (map_of r ''id'') \<rparr> (best_pipeline_info s)
          else best_pipeline_info s)"
proof (cases "forward C sc p r s")
  case (Pair o1 s1)
  have f1: "best_pipeline_info s1 = best_pipeline_info s"
    using forward_frame(1) [of C sc p r s] Pair by simp
  show ?thesis
  proof (cases o1)
    case (Inl e)
    then have "add_result C sc p r s = (Inl e, s1)"
      using Pair by (simp add: add_result_stages bind_def)
    then show ?thesis using f1 by (auto simp add: returns_def split: option.splits)
  next
    case (Inr u)
    then have a1: "add_result C sc p r s = bind (extract_cols C p) (\<lambda>u. record_best sc p r) s1"
      using Pair by (simp add: add_result_stages bind_def)
    show ?thesis
    proof (cases "extract_cols C p s1")
      case (Pair o2 s2)
      have f2: "best_pipeline_info s2 = best_pipeline_info s"
        using extract_cols_frame(1) [of C p s1] Pair f1 by simp
      show ?thesis
      proof (cases o2)
        case (Inl e)
        then have "add_result C sc p r s = (Inl e, s2)"
          using a1 Pair by (simp add: bind_def)
        then show ?thesis using f2 by (auto simp add: returns_def split: option.splits)
      next
        case (Inr u2)
        then have e: "add_result C sc p r s = record_best sc p r s2"
          using a1 Pair by (simp add: bind_def)
        show ?thesis
          by (simp only: e record_best_info f2 current_best_score_cong [OF f2])
      qed
    qed
  qed
qed

lemma current_best_score_update:
  "current_best_score (s\<lparr>best_pipeline_info := AList.update k d (best_pipeline_info s)\<rparr>) f
     = (if f = k then mean_cv_score d else current_best_score s f)"
  by (simp add: current_best_score_def update_conv')

lemma add_result_current_best_score:
  "current_best_score (snd (add_result C sc p r s)) f =
     (case sc of
        None \<Rightarrow> current_best_score s f
      | Some x \<Rightarrow>
          if model_family p = f \<and> f \<noteq> ENSEMBLE \<and> returns (add_result C sc p r s)
          then (if float_lt x (current_best_score s f) then x else current_best_score s f)
          else current_best_score s f)"
proof -
  have "current_best_score (snd (add_result C sc p r s)) f =
          (case map_of (best_pipeline_info (snd (add_result C sc p r s))) f of
             None \<Rightarrow> PosInf | Some d \<Rightarrow> mean_cv_score d)"
    by (simp add: current_best_score_def)
  then show ?thesis
    unfolding add_result_info
    by (auto simp add: current_best_score_def update_conv' split: option.splits)
qed

lemma lowest_Cons:
  "lowest start (x # xs) = lowest (if float_lt x start then x else start) xs"
  by (simp add: lowest_def)

lemma lowest_Nil: "lowest start [] = start"
  by (simp add: lowest_def)

lemma run_current_best_score:
  "current_best_score (run C cs s) f = lowest (current_best_score s f) (seen_scores C f cs s)"
proof (induction cs arbitrary: s)
  case Nil
  then show ?case by (simp add: lowest_Nil)
next
  case (Cons c cs)
  show ?case
  proof (cases c)
    case NextBatch
    then show ?thesis using Cons.IH [of "snd (next_batch C s)"]
      by (simp add: next_batch_current_best_score)
  next
    case (AddResult sc p r)
    have s: "snd (call_of C c s) = snd (add_result C sc p r s)"
      using AddResult by (simp only: call_of_add_result_snd)
    show ?thesis
    proof (cases sc)
      case None
      then show ?thesis using Cons.IH [of "snd (add_result C sc p r s)"] AddResult s
        by (simp add: add_result_current_best_score del: call_of.simps)
    next
      case (Some x)
      then show ?thesis using Cons.IH [of "snd (add_result C sc p r s)"] AddResult s
        by (simp add: add_result_current_best_score lowest_Cons del: call_of.simps)
    qed
  qed
qed

lemma float_lt_irrefl: "\<not> float_lt x x"
  by (cases x) simp_all

lemma float_lt_trans: "float_lt x y \<Longrightarrow> float_lt y z \<Longrightarrow> float_lt x z"
  by (cases x; cases y; cases z) simp_all

lemma float_lt_asym: "float_lt x y \<Longrightarrow> \<not> float_lt y x"
  by (cases x; cases y) simp_all

lemma float_lt_NaN_right: "float_lt a NaN = False"
  by (cases a) simp_all

lemma lowest_NaN: "lowest NaN xs = NaN"
  by (induction xs) (simp_all add: lowest_Nil lowest_Cons float_lt_NaN_right)

lemma lowest_below_start: "\<not> float_lt start (lowest start xs)"
proof (induction xs arbitrary: start)
  case Nil
  then show ?case by (simp add: lowest_Nil float_lt_irrefl)
next
  case (Cons x xs)
  show ?case
  proof (cases "float_lt x start")
    case True
    have "\<not> float_lt x (lowest x xs)" by (rule Cons.IH)
    then have "\<not> float_lt start (lowest x xs)"
      using True float_lt_trans by blast
    then show ?thesis using True by (simp add: lowest_Cons)
  next
    case False
    then show ?thesis using Cons.IH [of start] by (simp add: lowest_Cons)
  qed
qed

lemma lowest_lower_bound: "x \<in> set xs \<Longrightarrow> \<not> float_lt x (lowest start xs)"
proof (induction xs arbitrary: start)
  case Nil
  then show ?case by simp
next
  case (Cons y ys)
  show ?case
  proof (cases "x = y")
    case True
    show ?thesis
    proof (cases "float_lt y start")
      case t: True
      then show ?thesis using True lowest_below_start [of y ys] by (simp add: lowest_Cons)
    next
      case False
      have "\<not> float_lt y (lowest start ys)"
      proof (cases "start = NaN")
        case True
        then show ?thesis by (simp add: lowest_NaN float_lt_NaN_right)
      next
        case n: False
        have "\<not> float_lt start (lowest start ys)" by (rule lowest_below_start)
        then show ?thesis
        proof (rule contrapos_nn)
          assume a: "float_lt y (lowest start ys)"
          show "float_lt start (lowest start ys)"
            using a False n by (cases y; cases start; cases "lowest start ys") simp_all
        qed
      qed
      then show ?thesis using True False by (simp add: lowest_Cons)
    qed
  next
    case False
    then have "x \<in> set ys" using Cons.prems by simp
    then show ?thesis using Cons.IH by (simp add: lowest_Cons)
  qed
qed

lemma lowest_member: "lowest start xs = start \<or> lowest start xs \<in> set xs"
proof (induction xs arbitrary: start)
  case Nil
  then show ?case by (simp add: lowest_Nil)
next
  case (Cons x xs)
  show ?case using Cons.IH [of "if float_lt x start then x else start"]
    by (auto simp add: lowest_Cons split: if_splits)
qed

lemma add_result_keys:
  assumes "ENSEMBLE \<notin> fst ` set (best_pipeline_info s)"
  shows "ENSEMBLE \<notin> fst ` set (best_pipeline_info (snd (add_result C sc p r s)))"
  unfolding add_result_info using assms by (auto simp add: dom_update split: option.splits)

lemma run_keys:
  "ENSEMBLE \<notin> fst ` set (best_pipeline_info s) \<Longrightarrow>
   ENSEMBLE \<notin> fst ` set (best_pipeline_info (run C cs s))"
proof (induction cs arbitrary: s)
  case Nil
  then show ?case by simp
next
  case (Cons c cs)
  have "ENSEMBLE \<notin> fst ` set (best_pipeline_info (snd (call_of C c s)))"
  proof (cases c)
    case NextBatch
    have "set (map fst (best_pipeline_info (snd (next_batch C s))))
            = set (map fst (best_pipeline_info s))"
      by (simp only: next_batch_keys)
    then show ?thesis using NextBatch Cons.prems by simp
  next
    case (AddResult sc p r)
    have "snd (call_of C c s) = snd (add_result C sc p r s)"
      using AddResult by (simp only: call_of_add_result_snd)
    then show ?thesis using add_result_keys [OF Cons.prems, of C sc p r] by simp
  qed
  then show ?case using Cons.IH by simp
qed

text \<open>
  Claim C1. In every run of calls, from any state, the best score of a family (infinite
  while the family has no entry) is the lowest of the score before the run and the float
  scores that returning \<open>add_result\<close> calls received for non-ensemble pipelines of the
  family: no such score is below it and it is one of them or the score before the run.
  One \<open>add_result\<close> call changes the table only for a float score strictly below the
  family's best score and a pipeline that is not an ensemble, and then the family's best
  score is the new score; a higher score, or any score that is not strictly lower,
  leaves the table as it is; a pipeline of the family \<open>ENSEMBLE\<close> never changes the table,
  and no run inserts the key \<open>ENSEMBLE\<close>.
\<close>

theorem best_pipeline_info_lowest_score:
  "current_best_score (run C cs s) family
     = lowest (current_best_score s family) (seen_scores C family cs s)
   \<and> (\<forall>x\<in>set (seen_scores C family cs s).
         \<not> float_lt x (current_best_score (run C cs s) family))
   \<and> (current_best_score (run C cs s) family = current_best_score s family
       \<or> current_best_score (run C cs s) family \<in> set (seen_scores C family cs s))
   \<and> (best_pipeline_info (snd (add_result C sc p r s)) \<noteq> best_pipeline_info s \<longrightarrow>
        (\<exists>x. sc = Some x \<and> float_lt x (current_best_score s (model_family p))
             \<and> model_family p \<noteq> ENSEMBLE
             \<and> current_best_score (snd (add_result C sc p r s)) (model_family p) = x))
   \<and> (sc = Some y \<and> float_lt (current_best_score s (model_family p)) y \<longrightarrow>
        best_pipeline_info (snd (add_result C sc p r s)) = best_pipeline_info s)
   \<and> (sc = Some y \<and> \<not> float_lt y (current_best_score s (model_family p)) \<longrightarrow>
        best_pipeline_info (snd (add_result C sc p r s)) = best_pipeline_info s)
   \<and> (model_family p = ENSEMBLE \<longrightarrow>
        best_pipeline_info (snd (add_result C sc p r s)) = best_pipeline_info s)
   \<and> (ENSEMBLE \<notin> fst ` set (best_pipeline_info s) \<longrightarrow>
        ENSEMBLE \<notin> fst ` set (best_pipeline_info (run C cs s)))"
proof (intro conjI impI ballI)
  show "current_best_score (run C cs s) family
     = lowest (current_best_score s family) (seen_scores C family cs s)"
    by (rule run_current_best_score)
next
  fix x assume "x \<in> set (seen_scores C family cs s)"
  then show "\<not> float_lt x (current_best_score (run C cs s) family)"
    unfolding run_current_best_score by (rule lowest_lower_bound)
next
  show "current_best_score (run C cs s) family = current_best_score s family
       \<or> current_best_score (run C cs s) family \<in> set (seen_scores C family cs s)"
    unfolding run_current_best_score by (rule lowest_member)
next
  assume a: "best_pipeline_info (snd (add_result C sc p r s)) \<noteq> best_pipeline_info s"
  then obtain x where x: "sc = Some x" "float_lt x (current_best_score s (model_family p))"
    "model_family p \<noteq> ENSEMBLE" "returns (add_result C sc p r s)"
    unfolding add_result_info by (auto split: option.splits if_splits)
  have "current_best_score (snd (add_result C sc p r s)) (model_family p) = x"
    using x by (simp add: add_result_current_best_score)
  then show "\<exists>x. sc = Some x \<and> float_lt x (current_best_score s (model_family p))
             \<and> model_family p \<noteq> ENSEMBLE
             \<and> current_best_score (snd (add_result C sc p r s)) (model_family p) = x"
    using x by blast
next
  assume "sc = Some y \<and> float_lt (current_best_score s (model_family p)) y"
  then show "best_pipeline_info (snd (add_result C sc p r s)) = best_pipeline_info s"
    unfolding add_result_info using float_lt_asym by auto
next
  assume "sc = Some y \<and> \<not> float_lt y (current_best_score s (model_family p))"
  then show "best_pipeline_info (snd (add_result C sc p r s)) = best_pipeline_info s"
    unfolding add_result_info by auto
next
  assume "model_family p = ENSEMBLE"
  then show "best_pipeline_info (snd (add_result C sc p r s)) = best_pipeline_info s"
    unfolding add_result_info by (auto split: option.splits)
next
  assume "ENSEMBLE \<notin> fst ` set (best_pipeline_info s)"
  then show "ENSEMBLE \<notin> fst ` set (best_pipeline_info (run C cs s))" by (rule run_keys)
qed

theorem best_pipeline_info_lowest_score_witness:
  "seen_scores demo LINEAR_MODEL scored_calls demo_self = [Finite 2, Finite 1, Finite 3, NaN]
   \<and> current_best_score demo_self LINEAR_MODEL = PosInf
   \<and> current_best_score (run demo scored_calls demo_self) LINEAR_MODEL = Finite 1
   \<and> ENSEMBLE \<notin> fst ` set (best_pipeline_info (run demo scored_calls demo_self))
   \<and> best_pipeline_info
        (snd (add_result demo (Some (Finite 5)) logistic_pipeline [(''id'', PInt 6)]
               (run demo scored_calls demo_self)))
       = best_pipeline_info (run demo scored_calls demo_self)"
proof -
  have a: "seen_scores demo LINEAR_MODEL scored_calls demo_self
             = [Finite 2, Finite 1, Finite 3, NaN]"
    by code_simp
  have b: "current_best_score demo_self LINEAR_MODEL = PosInf" by code_simp
  have c: "ENSEMBLE \<notin> fst ` set (best_pipeline_info demo_self)" by code_simp
  have d: "model_family logistic_pipeline = LINEAR_MODEL" by code_simp
  have l: "lowest PosInf [Finite 2, Finite 1, Finite 3, NaN] = Finite 1"
    by (simp add: lowest_def)
  note t = best_pipeline_info_lowest_score [of demo scored_calls demo_self LINEAR_MODEL]
  have e: "current_best_score (run demo scored_calls demo_self) LINEAR_MODEL = Finite 1"
    using t a b l by simp
  have f: "ENSEMBLE \<notin> fst ` set (best_pipeline_info (run demo scored_calls demo_self))"
    using t c by blast
  have g: "float_lt (current_best_score (run demo scored_calls demo_self)
                       (model_family logistic_pipeline)) (Finite 5)"
    using d e by simp
  have h: "best_pipeline_info
        (snd (add_result demo (Some (Finite 5)) logistic_pipeline [(''id'', PInt 6)]
               (run demo scored_calls demo_self)))
       = best_pipeline_info (run demo scored_calls demo_self)"
    using best_pipeline_info_lowest_score [of demo "[]" "run demo scored_calls demo_self"
            LINEAR_MODEL "Some (Finite 5)" logistic_pipeline "[(''id'', PInt 6)]" "Finite 5"] g
    by blast
  show ?thesis using a b e f h by blast
qed

section \<open>The ensemble batch\<close>


lemma for_each_length:
  "for_each f xs s = (Inr ys, s') \<Longrightarrow> length ys = length xs"
proof (induction xs arbitrary: s ys s')
  case Nil
  then show ?case by (simp add: ret_def)
next
  case (Cons x xs)
  from Cons.prems obtain y s1 where y: "f x s = (Inr y, s1)"
    by (cases "f x s") (auto simp add: bind_def split: sum.splits)
  from Cons.prems y obtain zs where zs: "for_each f xs s1 = (Inr zs, s')" "ys = y # zs"
    by (cases "for_each f xs s1") (auto simp add: bind_def ret_def split: sum.splits)
  show ?case using Cons.IH [OF zs(1)] zs(2) by simp
qed

lemma bind_Inr: "m s = (Inr x, s') \<Longrightarrow> bind m f s = f x s'"
  by (simp add: bind_def)

lemma bind_Inl: "m s = (Inl e, s') \<Longrightarrow> bind m f s = (Inl e, s')"
  by (simp add: bind_def)

lemma create_ensemble_inputs:
  assumes "for_each (ensemble_input C) (map fst (best_pipeline_info s)) s = (Inr inputs, s')"
    and "best_pipeline_info s \<noteq> []"
    and "make_stacked_ensemble_pipeline C inputs (problem_type (hd inputs)) (random_seed s)
           (n_jobs_ensemble s) = Inr en"
  shows "fst (create_ensemble C s) = Inr [en]"
proof -
  have "length inputs = length (best_pipeline_info s)"
    using for_each_length [OF assms(1)] by simp
  then obtain first others where i: "inputs = first # others"
    using assms(2) by (cases inputs) auto
  have "create_ensemble C s =
          (case inputs of
             [] \<Rightarrow> raise (Exn IndexError ''list index out of range'')
           | first # others \<Rightarrow>
               bind (lift (make_stacked_ensemble_pipeline C inputs (problem_type first)
                             (random_seed s) (n_jobs_ensemble s))) (\<lambda>ensemble.
                 ret [ensemble])) s'"
    unfolding create_ensemble_def n_jobs_ensemble_def
    by (subst bind_get_state,
        subst bind_Inr [of "for_each (ensemble_input C) (map fst (best_pipeline_info s))" s
                          inputs s', OF assms(1)])
       (simp add: Let_def)
  then show ?thesis using assms(3) i by (simp add: bind_lift ret_def n_jobs_ensemble_def)
qed

lemma ensemble_input_Some:
  assumes "map_of (best_pipeline_info s) f = Some d"
  shows "ensemble_input C f s =
     (pipeline_new C (info_pipeline d)
        (fst (transform_parameters C s (info_pipeline d) (info_parameters d))) (random_seed s),
      s\<lparr>best_pipeline_info :=
          AList.update f
            (d\<lparr>info_parameters :=
                 snd (transform_parameters C s (info_pipeline d) (info_parameters d))\<rparr>)
            (best_pipeline_info s)\<rparr>)"
  by (simp add: ensemble_input_def bind_get_state assms bind_modify lift_def split: prod.splits)

lemma ensemble_input_single:
  assumes "best_pipeline_info s = [(f, d)]"
    and "pipeline_new C (info_pipeline d)
           (fst (transform_parameters C s (info_pipeline d) (info_parameters d)))
           (random_seed s) = Inr q"
  shows "fst (for_each (ensemble_input C) (map fst (best_pipeline_info s)) s) = Inr [q]"
proof -
  have m: "map_of (best_pipeline_info s) f = Some d" using assms(1) by simp
  obtain s1 where e: "ensemble_input C f s = (Inr q, s1)"
    using ensemble_input_Some [OF m, of C] assms(2) by simp
  have "for_each (ensemble_input C) [f] s = (Inr [q], s1)"
    by (simp add: bind_Inr [of "ensemble_input C f" s q s1, OF e] bind_ret) (simp add: ret_def)
  then show ?thesis using assms(1) by simp
qed

lemma next_batch_ensemble:
  assumes "batch_number s = 3 \<or> (5 \<le> batch_number s \<and> batch_number s mod 2 \<noteq> 0)"
  shows "fst (next_batch C s) = fst (create_ensemble C s)"
proof -
  have "next_batch C s =
     bind (create_ensemble C)
       (\<lambda>nb.
           bind (modify (\<lambda>s. s\<lparr>pipeline_number := pipeline_number s + length nb\<rparr>)) (\<lambda>u.
           bind (modify (\<lambda>s. s\<lparr>batch_number := batch_number s + 1\<rparr>)) (\<lambda>u. ret nb))) s"
    unfolding next_batch_def using assms by (subst bind_get_state) auto
  moreover have "keeps counters (create_ensemble C)"
    by (rule keeps_create_ensemble) (simp add: counters_simps)
  ultimately show ?thesis using finish_batch [of "create_ensemble C" s] by simp
qed

text \<open>
  Claim C9 (as amended). With exactly one family in the best-pipeline table, an ensemble
  batch (batch 3 and the odd batches from 5 on) returns a single stacked-ensemble pipeline
  built from the one input pipeline, whenever the factory instantiates that pipeline and
  builds the ensemble from it; more generally, with a table that is not empty the batch
  returns the single ensemble that the factory builds from one input pipeline per family,
  whenever the factory calls return.
\<close>

theorem ensemble_of_one_family:
  "(best_pipeline_info s = [(f, d)]
      \<and> pipeline_new C (info_pipeline d)
           (fst (transform_parameters C s (info_pipeline d) (info_parameters d)))
           (random_seed s) = Inr q
      \<and> make_stacked_ensemble_pipeline C [q] (problem_type q) (random_seed s)
           (n_jobs_ensemble s) = Inr en
      \<and> (batch_number s = 3 \<or> (5 \<le> batch_number s \<and> batch_number s mod 2 \<noteq> 0)) \<longrightarrow>
      fst (next_batch C s) = Inr [en])
   \<and> (best_pipeline_info s \<noteq> []
      \<and> for_each (ensemble_input C) (map fst (best_pipeline_info s)) s = (Inr inputs, s')
      \<and> make_stacked_ensemble_pipeline C inputs (problem_type (hd inputs)) (random_seed s)
           (n_jobs_ensemble s) = Inr en
      \<and> (batch_number s = 3 \<or> (5 \<le> batch_number s \<and> batch_number s mod 2 \<noteq> 0)) \<longrightarrow>
      fst (next_batch C s) = Inr [en] \<and> length inputs = length (best_pipeline_info s))"
proof (intro conjI impI)
  assume a: "best_pipeline_info s = [(f, d)]
      \<and> pipeline_new C (info_pipeline d)
           (fst (transform_parameters C s (info_pipeline d) (info_parameters d)))
           (random_seed s) = Inr q
      \<and> make_stacked_ensemble_pipeline C [q] (problem_type q) (random_seed s)
           (n_jobs_ensemble s) = Inr en
      \<and> (batch_number s = 3 \<or> (5 \<le> batch_number s \<and> batch_number s mod 2 \<noteq> 0))"
  obtain r s1 where r: "for_each (ensemble_input C) (map fst (best_pipeline_info s)) s = (r, s1)"
    by (cases "for_each (ensemble_input C) (map fst (best_pipeline_info s)) s")
  have "r = Inr [q]" using ensemble_input_single [of s f d C q] a r by simp
  then have "fst (create_ensemble C s) = Inr [en]"
    using create_ensemble_inputs [of C s "[q]" s1 en] a r by simp
  then show "fst (next_batch C s) = Inr [en]"
    using next_batch_ensemble [of s C] a by simp
next
  assume a: "best_pipeline_info s \<noteq> []
      \<and> for_each (ensemble_input C) (map fst (best_pipeline_info s)) s = (Inr inputs, s')
      \<and> make_stacked_ensemble_pipeline C inputs (problem_type (hd inputs)) (random_seed s)
           (n_jobs_ensemble s) = Inr en
      \<and> (batch_number s = 3 \<or> (5 \<le> batch_number s \<and> batch_number s mod 2 \<noteq> 0))"
  then have "fst (create_ensemble C s) = Inr [en]"
    using create_ensemble_inputs [of C s inputs s' en] by simp
  then show "fst (next_batch C s) = Inr [en]"
    using next_batch_ensemble [of s C] a by simp
next
  assume a: "best_pipeline_info s \<noteq> []
      \<and> for_each (ensemble_input C) (map fst (best_pipeline_info s)) s = (Inr inputs, s')
      \<and> make_stacked_ensemble_pipeline C inputs (problem_type (hd inputs)) (random_seed s)
           (n_jobs_ensemble s) = Inr en
      \<and> (batch_number s = 3 \<or> (5 \<le> batch_number s \<and> batch_number s mod 2 \<noteq> 0))"
  then have "for_each (ensemble_input C) (map fst (best_pipeline_info s)) s = (Inr inputs, s')"
    by simp
  from for_each_length [OF this] show "length inputs = length (best_pipeline_info s)" by simp
qed

theorem ensemble_of_one_family_witness:
  "best_pipeline_info one_family_state = [(LINEAR_MODEL, logistic_info)]
   \<and> batch_number one_family_state = 3
   \<and> fst (next_batch demo one_family_state) = Inr [demo_ensemble BINARY]"
proof -
  have a: "best_pipeline_info one_family_state = [(LINEAR_MODEL, logistic_info)]"
    by code_simp
  have b: "batch_number one_family_state = 3" by code_simp
  have c: "pipeline_new demo (info_pipeline logistic_info)
           (fst (transform_parameters demo one_family_state (info_pipeline logistic_info)
                   (info_parameters logistic_info)))
           (random_seed one_family_state)
         = Inr (logistic_pipeline\<lparr>parameters := [(''Logistic Regression Classifier'', [])]\<rparr>)"
    by code_simp
  have d: "make_stacked_ensemble_pipeline demo
             [logistic_pipeline\<lparr>parameters := [(''Logistic Regression Classifier'', [])]\<rparr>]
             (problem_type (logistic_pipeline\<lparr>parameters := [(''Logistic Regression Classifier'', [])]\<rparr>))
             (random_seed one_family_state) (n_jobs_ensemble one_family_state)
           = Inr (demo_ensemble BINARY)"
    by code_simp
  show ?thesis
    using ensemble_of_one_family [of one_family_state LINEAR_MODEL logistic_info demo
            "logistic_pipeline\<lparr>parameters := [(''Logistic Regression Classifier'', [])]\<rparr>"
            "demo_ensemble BINARY" "[]" one_family_state]
          a b c d
    by simp
qed

text \<open>
  Claim C9 as stated fails for zero families: after three batches without a recorded
  result the table is empty, and the ensemble batch raises the \<open>IndexError\<close> of
  \<open>input_pipelines[0]\<close> instead of returning a pipeline.
\<close>

theorem ensemble_of_no_family_raises:
  "best_pipeline_info (state_after 3) = []
   \<and> batch_number (state_after 3) = 3
   \<and> fst (next_batch demo (state_after 3)) = Inl (Exn IndexError ''list index out of range'')"
  by code_simp

section \<open>The repeating cycle\<close>


lemma length_concat_replicate: "length (concat (replicate n xs)) = n * length xs"
  by (induction n) simp_all

lemma lift_apply: "lift r s = (r, s)"
  by (simp add: lift_def)

lemma next_batch_even:
  assumes "6 \<le> batch_number s" and "batch_number s mod 2 = 0"
    and "top_n_pipelines s = Some ps"
  shows "next_batch C s =
     bind (for_each (propose_pipeline C) (concat (replicate 10 ps)))
       (\<lambda>nb.
           bind (modify (\<lambda>s. s\<lparr>pipeline_number := pipeline_number s + length nb\<rparr>)) (\<lambda>u.
           bind (modify (\<lambda>s. s\<lparr>batch_number := batch_number s + 1\<rparr>)) (\<lambda>u. ret nb))) s"
  unfolding next_batch_def using assms by (subst bind_get_state) auto

lemma keeps_if_cond:
  "(c \<Longrightarrow> keeps g a) \<Longrightarrow> (\<not> c \<Longrightarrow> keeps g b) \<Longrightarrow> keeps g (if c then a else b)"
  by simp

lemma next_batch_top_n_pipelines:
  assumes "batch_number s \<noteq> 4"
  shows "top_n_pipelines (snd (next_batch C s)) = top_n_pipelines s"
proof -
  have k: "keeps top_n_pipelines
     (bind (if batch_number s = 0 then create_naive_pipelines C
      else if batch_number s = 1 then create_naive_pipelines_with_feature_selection C
      else if batch_number s = 2 then create_fast_final C
      else if batch_number s = 3 then create_ensemble C
      else if batch_number s = 4 then create_long_top_n C 3
      else if batch_number s mod 2 \<noteq> 0 then create_ensemble C
      else (case top_n_pipelines s of
              None \<Rightarrow> raise (Exn TypeError
                        ([CHR 0x27] @ ''NoneType'' @ [CHR 0x27] @ '' object is not iterable''))
            | Some pipelines \<Rightarrow>
                for_each (propose_pipeline C) (concat (replicate 10 pipelines))))
       (\<lambda>nb.
           bind (modify (\<lambda>s. s\<lparr>pipeline_number := pipeline_number s + length nb\<rparr>)) (\<lambda>u.
           bind (modify (\<lambda>s. s\<lparr>batch_number := batch_number s + 1\<rparr>)) (\<lambda>u. ret nb))))"
    by (intro keeps_bind keeps_if_cond keeps_case_option keeps_raise keeps_for_each keeps_ret
          keeps_modify keeps_create_naive_pipelines
          keeps_create_naive_pipelines_with_feature_selection keeps_create_fast_final
          keeps_create_ensemble keeps_propose_pipeline)
       (simp_all add: assms)
  have "next_batch C s =
     bind (if batch_number s = 0 then create_naive_pipelines C
      else if batch_number s = 1 then create_naive_pipelines_with_feature_selection C
      else if batch_number s = 2 then create_fast_final C
      else if batch_number s = 3 then create_ensemble C
      else if batch_number s = 4 then create_long_top_n C 3
      else if batch_number s mod 2 \<noteq> 0 then create_ensemble C
      else (case top_n_pipelines s of
              None \<Rightarrow> raise (Exn TypeError
                        ([CHR 0x27] @ ''NoneType'' @ [CHR 0x27] @ '' object is not iterable''))
            | Some pipelines \<Rightarrow>
                for_each (propose_pipeline C) (concat (replicate 10 pipelines))))
       (\<lambda>nb.
           bind (modify (\<lambda>s. s\<lparr>pipeline_number := pipeline_number s + length nb\<rparr>)) (\<lambda>u.
           bind (modify (\<lambda>s. s\<lparr>batch_number := batch_number s + 1\<rparr>)) (\<lambda>u. ret nb))) s"
    unfolding next_batch_def by (subst bind_get_state) simp
  then show ?thesis using k by (simp add: keeps_def)
qed

lemma length_insort_score: "length (insort_score x xs) = Suc (length xs)"
  by (induction xs) simp_all

lemma length_sort_by_score: "length (sort_by_score xs) = length xs"
  unfolding sort_by_score_def by (induction xs) (simp_all add: length_insort_score)

lemma transform_parameters_batch_number:
  "transform_parameters C (s\<lparr>batch_number := k\<rparr>) p pp = transform_parameters C s p pp"
  by (simp add: transform_parameters_def)

lemma ensemble_input_batch_number:
  "ensemble_input C f (s\<lparr>batch_number := k\<rparr>) =
     (fst (ensemble_input C f s), (snd (ensemble_input C f s))\<lparr>batch_number := k\<rparr>)"
proof (cases "map_of (best_pipeline_info s) f")
  case None
  then show ?thesis by (simp add: ensemble_input_def bind_get_state raise_def)
next
  case (Some d)
  have "map_of (best_pipeline_info (s\<lparr>batch_number := k\<rparr>)) f = Some d" using Some by simp
  from ensemble_input_Some [OF this, of C] ensemble_input_Some [OF Some, of C]
  show ?thesis by (simp add: transform_parameters_batch_number)
qed

lemma for_each_simulation:
  assumes "\<And>x s. f x (u s) = (fst (f x s), u (snd (f x s)))"
  shows "for_each f xs (u s) = (fst (for_each f xs s), u (snd (for_each f xs s)))"
proof (induction xs arbitrary: s)
  case Nil
  then show ?case by (simp add: ret_def)
next
  case (Cons x xs)
  obtain r s1 where f: "f x s = (r, s1)" by (cases "f x s")
  have fu: "f x (u s) = (r, u s1)" using assms [of x s] f by simp
  show ?case
  proof (cases r)
    case (Inl e)
    then show ?thesis using f fu by (simp add: bind_def)
  next
    case (Inr y)
    obtain r2 s2 where g: "for_each f xs s1 = (r2, s2)" by (cases "for_each f xs s1")
    have gu: "for_each f xs (u s1) = (r2, u s2)" using Cons.IH [of s1] g by simp
    show ?thesis using f fu Inr g gu by (cases r2) (simp_all add: bind_def ret_def)
  qed
qed

lemma create_ensemble_fst:
  "fst (create_ensemble C s) =
     (case fst (for_each (ensemble_input C) (map fst (best_pipeline_info s)) s) of
        Inl e \<Rightarrow> Inl e
      | Inr inputs \<Rightarrow>
          (case inputs of
             [] \<Rightarrow> Inl (Exn IndexError ''list index out of range'')
           | first # others \<Rightarrow>
               (case make_stacked_ensemble_pipeline C inputs (problem_type first)
                       (random_seed s) (n_jobs_ensemble s) of
                  Inl e \<Rightarrow> Inl e
                | Inr en \<Rightarrow> Inr [en])))"
proof -
  obtain r s1 where f: "for_each (ensemble_input C) (map fst (best_pipeline_info s)) s = (r, s1)"
    by (cases "for_each (ensemble_input C) (map fst (best_pipeline_info s)) s")
  show ?thesis
  proof (cases r)
    case (Inl e)
    have "create_ensemble C s = (Inl e, s1)"
      unfolding create_ensemble_def
      by (subst bind_get_state) (simp add: bind_def f Inl)
    then show ?thesis using f Inl by simp
  next
    case (Inr inputs)
    have "create_ensemble C s =
          (case inputs of
             [] \<Rightarrow> raise (Exn IndexError ''list index out of range'')
           | first # others \<Rightarrow>
               bind (lift (make_stacked_ensemble_pipeline C inputs (problem_type first)
                             (random_seed s)
                             (if truthy (text_in_ensembling s) then PInt 1 else n_jobs s)))
                 (\<lambda>ensemble. ret [ensemble])) s1"
      unfolding create_ensemble_def
      by (subst bind_get_state) (simp add: bind_def f Inr Let_def)
    then show ?thesis using f Inr
      by (simp add: bind_lift ret_def raise_def n_jobs_ensemble_def
            split: list.splits sum.splits)
  qed
qed

lemma n_jobs_ensemble_batch_number:
  "n_jobs_ensemble (s\<lparr>batch_number := k\<rparr>) = n_jobs_ensemble s"
  by (simp add: n_jobs_ensemble_def)

lemma create_ensemble_batch_number:
  "fst (create_ensemble C (s\<lparr>batch_number := k\<rparr>)) = fst (create_ensemble C s)"
proof -
  have "for_each (ensemble_input C) xs (s\<lparr>batch_number := k\<rparr>) =
          (fst (for_each (ensemble_input C) xs s),
           (snd (for_each (ensemble_input C) xs s))\<lparr>batch_number := k\<rparr>)" for xs
    by (rule for_each_simulation [where u = "\<lambda>s. s\<lparr>batch_number := k\<rparr>"])
       (rule ensemble_input_batch_number)
  then show ?thesis
    unfolding create_ensemble_fst
    by (simp add: n_jobs_ensemble_batch_number split: sum.splits list.splits)
qed

text \<open>Calls that do not touch the state gather their values.\<close>

lemma for_each_lift: "for_each (\<lambda>x. lift (h x)) xs s = (gather (map h xs), s)"
  by (induction xs) (auto simp add: ret_def bind_def lift_def split: sum.splits prod.splits)

lemma gather_length: "gather xs = Inr ys \<Longrightarrow> length ys = length xs"
  by (induction xs arbitrary: ys) (auto split: sum.splits)

text \<open>The loops over the tuners, as programs on the tuner table.\<close>

lemma on_tuners_ret: "on_tuners (ret x) s = (Inr x, s)"
  by (simp add: on_tuners_def ret_def)

lemma propose_pipeline_on_tuners:
  "propose_pipeline C p s =
     on_tuners (tuner_proposal C (n_jobs s) (selected_cols s) (random_seed s) p) s"
proof (cases "map_of (tuners s) (name p)")
  case None
  then show ?thesis
    by (simp add: propose_pipeline_def bind_get_state raise_def on_tuners_def tuner_proposal_def)
next
  case (Some t)
  obtain outcome t' where o: "propose (tuner_backend C) t = (outcome, t')"
    by (cases "propose (tuner_backend C) t")
  show ?thesis using Some o
    by (simp add: propose_pipeline_def bind_get_state bind_modify bind_lift lift_apply Let_def
          select_columns_parameters_def transform_parameters_def on_tuners_def
          tuner_proposal_def split: sum.splits)
qed

lemma create_tuner_on_tuners:
  "name p \<notin> fst ` set (tuners s) \<Longrightarrow>
   create_tuner C p s = on_tuners (tuner_on_first_use C (custom_hyperparameters s) (random_seed s) p) s"
  by (simp add: create_tuner_def bind_get_state bind_lift bind_modify modify_def on_tuners_def
        tuner_on_first_use_def split: sum.splits)

lemma on_tuners_bind:
  assumes "\<And>x ts. f x (s\<lparr>tuners := ts\<rparr>) = on_tuners (g x) (s\<lparr>tuners := ts\<rparr>)"
  shows "bind (on_tuners m) f s = on_tuners (bind m g) s"
  using assms by (simp add: bind_def on_tuners_def split: prod.splits sum.splits)

lemma propose_with_tuner_on_tuners:
  "propose_with_tuner C p s =
     on_tuners (first_proposal C (custom_hyperparameters s) (n_jobs s) (selected_cols s)
                  (random_seed s) p) s"
proof (cases "name p \<in> fst ` set (tuners s)")
  case True
  then have "propose_with_tuner C p s = propose_pipeline C p s"
    unfolding propose_with_tuner_def by (subst bind_get_state) (simp add: bind_ret)
  then show ?thesis using True
    by (simp add: propose_pipeline_on_tuners first_proposal_def tuner_on_first_use_def
          bind_def on_tuners_def)
next
  case False
  then have "propose_with_tuner C p s =
        bind (create_tuner C p) (\<lambda>u. propose_pipeline C p) s"
    unfolding propose_with_tuner_def by (subst bind_get_state) simp
  also have "\<dots> =
        bind (on_tuners (tuner_on_first_use C (custom_hyperparameters s) (random_seed s) p))
          (\<lambda>u. propose_pipeline C p) s"
    by (rule bind_cong_at) (simp_all add: create_tuner_on_tuners False)
  also have "\<dots> = on_tuners (bind (tuner_on_first_use C (custom_hyperparameters s) (random_seed s) p)
                        (\<lambda>u. tuner_proposal C (n_jobs s) (selected_cols s) (random_seed s) p)) s"
    by (rule on_tuners_bind) (simp add: propose_pipeline_on_tuners)
  finally show ?thesis by (simp add: first_proposal_def)
qed

lemma for_each_on_tuners:
  assumes f: "\<And>x s. f x s = on_tuners (g (h s) x) s"
    and h: "\<And>s ts. h (s\<lparr>tuners := ts\<rparr>) = h s"
  shows "for_each f xs s = on_tuners (for_each (g (h s)) xs) s"
proof (induction xs arbitrary: s)
  case Nil
  then show ?case by (simp add: on_tuners_ret) (simp add: ret_def)
next
  case (Cons x xs)
  obtain r ts where g: "g (h s) x (tuners s) = (r, ts)" by (cases "g (h s) x (tuners s)")
  have fx: "f x s = (r, s\<lparr>tuners := ts\<rparr>)" using f [of x s] g by (simp add: on_tuners_def)
  show ?case
  proof (cases r)
    case (Inl e)
    then show ?thesis using fx g by (simp add: bind_def on_tuners_def)
  next
    case (Inr y)
    obtain r2 ts2 where g2: "for_each (g (h s)) xs ts = (r2, ts2)"
      by (cases "for_each (g (h s)) xs ts")
    have "for_each f xs (s\<lparr>tuners := ts\<rparr>) = (r2, s\<lparr>tuners := ts2\<rparr>)"
      using Cons.IH [of "s\<lparr>tuners := ts\<rparr>"] g2 by (simp add: h on_tuners_def)
    then show ?thesis using fx g Inr g2
      by (cases r2) (simp_all add: bind_def on_tuners_def ret_def)
  qed
qed

lemma proposals_on_tuners:
  "for_each (propose_pipeline C) xs s =
     on_tuners (for_each (tuner_proposal C (n_jobs s) (selected_cols s) (random_seed s)) xs) s"
  using for_each_on_tuners [where f = "propose_pipeline C"
          and g = "\<lambda>k. tuner_proposal C (fst k) (fst (snd k)) (snd (snd k))"
          and h = "\<lambda>s. (n_jobs s, selected_cols s, random_seed s)" and xs = xs and s = s]
  by (simp add: propose_pipeline_on_tuners)

lemma first_proposals_on_tuners:
  "for_each (propose_with_tuner C) xs s =
     on_tuners (for_each (first_proposal C (custom_hyperparameters s) (n_jobs s)
                            (selected_cols s) (random_seed s)) xs) s"
  using for_each_on_tuners [where f = "propose_with_tuner C"
          and g = "\<lambda>k. first_proposal C (fst k) (fst (snd k)) (fst (snd (snd k))) (snd (snd (snd k)))"
          and h = "\<lambda>s. (custom_hyperparameters s, n_jobs s, selected_cols s, random_seed s)"
          and xs = xs and s = s]
  by (simp add: propose_with_tuner_on_tuners)

text \<open>The two increments that end \<open>next_batch\<close>, after a program on the tuner table.\<close>

lemma finish_on_tuners:
  "bind (on_tuners m) (\<lambda>nb.
       bind (modify (\<lambda>s. s\<lparr>pipeline_number := pipeline_number s + length nb\<rparr>)) (\<lambda>u.
       bind (modify (\<lambda>s. s\<lparr>batch_number := batch_number s + 1\<rparr>)) (\<lambda>u. ret nb))) s
   = batch_outcome s (m (tuners s))"
  by (simp add: bind_def on_tuners_def modify_def ret_def batch_outcome_def
        split: prod.splits sum.splits)

lemma next_batch_even_outcome:
  assumes "6 \<le> batch_number s" and "batch_number s mod 2 = 0"
    and "top_n_pipelines s = Some ps"
  shows "next_batch C s =
     batch_outcome s
       (for_each (tuner_proposal C (n_jobs s) (selected_cols s) (random_seed s))
          (concat (replicate 10 ps)) (tuners s))"
proof -
  have "next_batch C s =
     bind (on_tuners (for_each (tuner_proposal C (n_jobs s) (selected_cols s) (random_seed s))
             (concat (replicate 10 ps))))
       (\<lambda>nb.
           bind (modify (\<lambda>s. s\<lparr>pipeline_number := pipeline_number s + length nb\<rparr>)) (\<lambda>u.
           bind (modify (\<lambda>s. s\<lparr>batch_number := batch_number s + 1\<rparr>)) (\<lambda>u. ret nb))) s"
    unfolding next_batch_even [OF assms]
    by (rule bind_cong_at) (simp_all add: proposals_on_tuners)
  then show ?thesis by (simp only: finish_on_tuners)
qed

text \<open>Batch 4: the top pipelines are built and stored, then the fifty rounds run.\<close>

lemma create_long_top_n_outcome:
  "create_long_top_n C n s =
     (case gather (map (\<lambda>e. make_pipeline C e (self_problem_type s) (sampler_name s)
                              [''SelectColumns''])
                     (top_estimators n (best_pipeline_info s))) of
        Inl e \<Rightarrow> (Inl e, s)
      | Inr ps \<Rightarrow>
          on_tuners (for_each (first_proposal C (custom_hyperparameters s) (n_jobs s)
                                 (selected_cols s) (random_seed s))
                       (concat (replicate 50 ps)))
            (s\<lparr>top_n_pipelines := Some ps\<rparr>))"
  unfolding create_long_top_n_def
  by (subst bind_get_state)
     (simp add: Let_def bind_def for_each_lift modify_def first_proposals_on_tuners
        top_estimators_def scored_estimators_def comp_def split: sum.splits)

lemma next_batch_four_body:
  assumes "batch_number s = 4"
  shows "next_batch C s =
     bind (create_long_top_n C 3)
       (\<lambda>nb.
           bind (modify (\<lambda>s. s\<lparr>pipeline_number := pipeline_number s + length nb\<rparr>)) (\<lambda>u.
           bind (modify (\<lambda>s. s\<lparr>batch_number := batch_number s + 1\<rparr>)) (\<lambda>u. ret nb))) s"
  unfolding next_batch_def using assms by (subst bind_get_state) simp

lemma next_batch_four_outcome:
  assumes "batch_number s = 4"
    and "gather (map (\<lambda>e. make_pipeline C e (self_problem_type s) (sampler_name s)
                              [''SelectColumns''])
                   (top_estimators 3 (best_pipeline_info s))) = Inr ps"
  shows "next_batch C s =
     batch_outcome (s\<lparr>top_n_pipelines := Some ps\<rparr>)
       (for_each (first_proposal C (custom_hyperparameters s) (n_jobs s) (selected_cols s)
                    (random_seed s))
          (concat (replicate 50 ps)) (tuners s))"
proof -
  have "next_batch C s =
     bind (on_tuners (for_each (first_proposal C (custom_hyperparameters s) (n_jobs s)
                                  (selected_cols s) (random_seed s))
                        (concat (replicate 50 ps))))
       (\<lambda>nb.
           bind (modify (\<lambda>s. s\<lparr>pipeline_number := pipeline_number s + length nb\<rparr>)) (\<lambda>u.
           bind (modify (\<lambda>s. s\<lparr>batch_number := batch_number s + 1\<rparr>)) (\<lambda>u. ret nb)))
       (s\<lparr>top_n_pipelines := Some ps\<rparr>)"
    unfolding next_batch_four_body [OF assms(1)]
    by (simp add: bind_def create_long_top_n_outcome assms(2))
  then show ?thesis unfolding finish_on_tuners by simp
qed

lemma next_batch_four_raises:
  assumes "batch_number s = 4"
    and "gather (map (\<lambda>e. make_pipeline C e (self_problem_type s) (sampler_name s)
                              [''SelectColumns''])
                   (top_estimators 3 (best_pipeline_info s))) = Inl e"
  shows "next_batch C s = (Inl e, s)"
  unfolding next_batch_four_body [OF assms(1)]
  by (simp add: bind_def create_long_top_n_outcome assms(2))

lemma batch_outcome_top_n_pipelines:
  "top_n_pipelines (snd (batch_outcome s outcome)) = top_n_pipelines s"
  by (simp add: batch_outcome_def split: prod.splits sum.splits)

lemma batch_outcome_fst:
  "fst (batch_outcome s outcome) = fst outcome"
  by (simp add: batch_outcome_def split: prod.splits sum.splits)

lemma next_batch_sets_top_n:
  assumes "batch_number s = 4" and "returns (next_batch C s)"
  shows "top_n_pipelines (snd (next_batch C s)) \<noteq> None"
proof (cases "gather (map (\<lambda>e. make_pipeline C e (self_problem_type s) (sampler_name s)
                              [''SelectColumns''])
                   (top_estimators 3 (best_pipeline_info s)))")
  case (Inl e)
  then show ?thesis using next_batch_four_raises [OF assms(1) Inl] assms(2)
    by (simp add: returns_def)
next
  case (Inr ps)
  show ?thesis
    unfolding next_batch_four_outcome [OF assms(1) Inr]
    by (simp add: batch_outcome_top_n_pipelines)
qed

text \<open>Once the counter has passed 4 the top pipelines are set.\<close>

lemma call_top_n_pipelines:
  assumes "5 \<le> batch_number s \<longrightarrow> top_n_pipelines s \<noteq> None"
  shows "5 \<le> batch_number (snd (call_of C c s))
         \<longrightarrow> top_n_pipelines (snd (call_of C c s)) \<noteq> None"
proof (cases c)
  case NextBatch
  show ?thesis
  proof (cases "fst (next_batch C s)")
    case (Inl e)
    then have b: "batch_number (snd (next_batch C s)) = batch_number s"
      using next_batch_counters [of C s] by (simp add: counters_def)
    show ?thesis
    proof (cases "batch_number s = 4")
      case True
      then show ?thesis using b NextBatch by simp
    next
      case False
      then show ?thesis using b NextBatch assms next_batch_top_n_pipelines [of s C] by simp
    qed
  next
    case (Inr batch)
    then have b: "batch_number (snd (next_batch C s)) = batch_number s + 1"
      using next_batch_counters [of C s] by (simp add: counters_def)
    have r: "returns (next_batch C s)" using Inr by (simp add: returns_def)
    show ?thesis
    proof (cases "batch_number s = 4")
      case True
      then show ?thesis using NextBatch next_batch_sets_top_n [OF True r] by simp
    next
      case False
      then show ?thesis using b NextBatch assms next_batch_top_n_pipelines [of s C] by simp
    qed
  qed
next
  case (AddResult sc p r)
  have "batch_number (snd (add_result C sc p r s)) = batch_number s"
    using add_result_counters [of C sc p r s] by (simp add: counters_def)
  then show ?thesis
    unfolding AddResult call_of_add_result_snd
    using assms add_result_top_n_pipelines [of C sc p r s] by simp
qed

lemma run_top_n_pipelines:
  "(5 \<le> batch_number s \<longrightarrow> top_n_pipelines s \<noteq> None) \<Longrightarrow>
   5 \<le> batch_number (run C cs s) \<longrightarrow> top_n_pipelines (run C cs s) \<noteq> None"
proof (induction cs arbitrary: s)
  case Nil
  then show ?case by simp
next
  case (Cons c cs)
  show ?case using Cons.IH [OF call_top_n_pipelines [OF Cons.prems, of C c]] by simp
qed

text \<open>The keys of the table stay distinct.\<close>

lemma add_result_distinct:
  assumes "distinct (map fst (best_pipeline_info s))"
  shows "distinct (map fst (best_pipeline_info (snd (add_result C sc p r s))))"
  unfolding add_result_info using assms by (simp add: distinct_update split: option.splits)

lemma run_distinct:
  "distinct (map fst (best_pipeline_info s)) \<Longrightarrow>
   distinct (map fst (best_pipeline_info (run C cs s)))"
proof (induction cs arbitrary: s)
  case Nil
  then show ?case by simp
next
  case (Cons c cs)
  have "distinct (map fst (best_pipeline_info (snd (call_of C c s))))"
  proof (cases c)
    case NextBatch
    then show ?thesis using Cons.prems by (simp add: next_batch_keys)
  next
    case (AddResult sc p r)
    show ?thesis unfolding AddResult call_of_add_result_snd
      by (rule add_result_distinct [OF Cons.prems])
  qed
  from Cons.IH [OF this] show ?case by simp
qed

text \<open>The ensemble step reads the entries of the table in order.\<close>

lemma ensemble_inputs_of_entries:
  assumes "distinct (map fst rest)"
    and "\<forall>entry \<in> set rest. map_of (best_pipeline_info s) (fst entry) = Some (snd entry)"
  shows "fst (for_each (ensemble_input C) (map fst rest) s) =
           ensemble_inputs C (n_jobs s) (random_seed s) rest"
  using assms
proof (induction rest arbitrary: s)
  case Nil
  then show ?case by (simp add: ensemble_inputs_def ret_def)
next
  case (Cons entry rest)
  obtain f d where entry: "entry = (f, d)" by (cases entry)
  have m: "map_of (best_pipeline_info s) f = Some d" using Cons.prems(2) entry by simp
  define s1 where "s1 = s\<lparr>best_pipeline_info :=
          AList.update f
            (d\<lparr>info_parameters :=
                 snd (transform_parameters C s (info_pipeline d) (info_parameters d))\<rparr>)
            (best_pipeline_info s)\<rparr>"
  have e: "ensemble_input C f s =
     (pipeline_new C (info_pipeline d)
        (fst (transform_parameters C s (info_pipeline d) (info_parameters d))) (random_seed s), s1)"
    unfolding s1_def by (rule ensemble_input_Some [OF m])
  have d1: "distinct (map fst rest)" using Cons.prems(1) by simp
  have "\<forall>entry' \<in> set rest. fst entry' \<noteq> f" using Cons.prems(1) entry by auto
  then have m1: "\<forall>entry' \<in> set rest.
       map_of (best_pipeline_info s1) (fst entry') = Some (snd entry')"
    using Cons.prems(2) by (simp add: s1_def update_conv')
  have ih: "fst (for_each (ensemble_input C) (map fst rest) s1) =
           ensemble_inputs C (n_jobs s) (random_seed s) rest"
    using Cons.IH [OF d1 m1] by (simp add: s1_def)
  show ?case
    using e ih entry
    by (cases "for_each (ensemble_input C) (map fst rest) s1")
       (auto simp add: bind_def ret_def ensemble_inputs_def transform_parameters_def
          split: sum.splits)
qed

lemma create_ensemble_stacked:
  assumes "distinct (map fst (best_pipeline_info s))"
  shows "fst (create_ensemble C s) =
     stacked_ensemble C (n_jobs s) (n_jobs_ensemble s) (random_seed s) (best_pipeline_info s)"
proof -
  have "\<forall>entry \<in> set (best_pipeline_info s).
          map_of (best_pipeline_info s) (fst entry) = Some (snd entry)"
    using assms by simp
  from ensemble_inputs_of_entries [OF assms this, of C]
  show ?thesis unfolding create_ensemble_fst by (simp add: stacked_ensemble_def)
qed

text \<open>The sort of \<open>_create_long_top_n\<close>: a stable, ascending permutation.\<close>

lemma float_le_trans:
  "a \<noteq> NaN \<Longrightarrow> b \<noteq> NaN \<Longrightarrow> c \<noteq> NaN \<Longrightarrow>
   \<not> float_lt b a \<Longrightarrow> \<not> float_lt c b \<Longrightarrow> \<not> float_lt c a"
  by (cases a; cases b; cases c) simp_all

lemma set_insort_score: "set (insort_score x xs) = insert x (set xs)"
  by (induction xs) auto

lemma count_insort_score:
  "count_list (insort_score x xs) y = count_list (x # xs) y"
  by (induction xs) auto

lemma count_sort_by_score: "count_list (sort_by_score xs) y = count_list xs y"
  unfolding sort_by_score_def by (induction xs) (simp_all add: count_insort_score)

lemma filter_insort_score:
  "filter (\<lambda>y. snd y = k) (insort_score x xs) = filter (\<lambda>y. snd y = k) (x # xs)"
  by (induction xs) (auto simp add: float_lt_irrefl)

lemma filter_sort_by_score:
  "filter (\<lambda>y. snd y = k) (sort_by_score xs) = filter (\<lambda>y. snd y = k) xs"
  unfolding sort_by_score_def by (induction xs) (simp_all add: filter_insort_score)

lemma ascending_insort_score:
  assumes "ascending xs" and "snd x \<noteq> NaN" and "\<forall>y \<in> set xs. snd y \<noteq> NaN"
  shows "ascending (insort_score x xs)"
  using assms
proof (induction xs)
  case Nil
  then show ?case by (simp add: ascending_def)
next
  case (Cons y ys)
  have a: "ascending ys" using Cons.prems(1) by (simp add: ascending_def)
  show ?case
  proof (cases "float_lt (snd y) (snd x)")
    case True
    have "ascending (insort_score x ys)" using Cons.IH [OF a Cons.prems(2)] Cons.prems(3) by simp
    moreover have "\<not> float_lt (snd x) (snd y)" using True float_lt_asym by blast
    ultimately show ?thesis using True Cons.prems(1)
      by (simp add: ascending_def set_insort_score)
  next
    case False
    have "\<forall>z \<in> set ys. \<not> float_lt (snd z) (snd x)"
    proof
      fix z assume z: "z \<in> set ys"
      have "\<not> float_lt (snd z) (snd y)" using Cons.prems(1) z by (simp add: ascending_def)
      then show "\<not> float_lt (snd z) (snd x)"
        using float_le_trans [of "snd x" "snd y" "snd z"] False Cons.prems(2,3) z by simp
    qed
    then show ?thesis using False Cons.prems(1) by (simp add: ascending_def)
  qed
qed

lemma ascending_sort_by_score:
  "\<forall>y \<in> set xs. snd y \<noteq> NaN \<Longrightarrow> ascending (sort_by_score xs)"
proof (induction xs)
  case Nil
  then show ?case by (simp add: sort_by_score_def ascending_def)
next
  case (Cons x xs)
  have s: "set (foldr insort_score xs []) = set xs"
    by (induction xs) (simp_all add: set_insort_score)
  have "ascending (insort_score x (sort_by_score xs))"
    by (rule ascending_insort_score) (use Cons s in \<open>simp_all add: sort_by_score_def\<close>)
  then show ?case by (simp add: sort_by_score_def)
qed

text \<open>The scores of the table are never NaN.\<close>

lemma set_update_cases:
  "x \<in> set (AList.update k v al) \<Longrightarrow> x = (k, v) \<or> x \<in> set al"
  by (induction al) (auto split: if_splits)

lemma no_nan_score_table: "no_nan (best_pipeline_info s) = (\<forall>x \<in> set (score_table s). snd x \<noteq> NaN)"
  by (simp add: no_nan_def score_table_def)

lemma add_result_no_nan:
  assumes "no_nan (best_pipeline_info s)"
  shows "no_nan (best_pipeline_info (snd (add_result C sc p r s)))"
proof (cases sc)
  case None
  then show ?thesis using assms by (simp add: add_result_info)
next
  case (Some x)
  show ?thesis
  proof (cases "float_lt x (current_best_score s (model_family p))")
    case True
    then have "x \<noteq> NaN" by (cases x) auto
    then show ?thesis
      unfolding add_result_info no_nan_def using assms Some
      by (auto simp add: no_nan_def dest!: set_update_cases)
  next
    case False
    then show ?thesis using assms Some by (simp add: add_result_info)
  qed
qed

lemma next_batch_no_nan:
  "no_nan (best_pipeline_info (snd (next_batch C s))) = no_nan (best_pipeline_info s)"
  using keeps_next_batch_scores [of C] by (simp add: no_nan_score_table keeps_def)

lemma run_no_nan:
  "no_nan (best_pipeline_info s) \<Longrightarrow> no_nan (best_pipeline_info (run C cs s))"
proof (induction cs arbitrary: s)
  case Nil
  then show ?case by simp
next
  case (Cons c cs)
  have "no_nan (best_pipeline_info (snd (call_of C c s)))"
  proof (cases c)
    case NextBatch
    then show ?thesis using Cons.prems by (simp add: next_batch_no_nan)
  next
    case (AddResult sc p r)
    show ?thesis unfolding AddResult call_of_add_result_snd
      by (rule add_result_no_nan [OF Cons.prems])
  qed
  from Cons.IH [OF this] show ?case by simp
qed

lemma ascending_top_estimators:
  assumes "no_nan table"
  shows "ascending (sort_by_score (scored_estimators table))"
  by (rule ascending_sort_by_score) (use assms in \<open>auto simp add: no_nan_def scored_estimators_def\<close>)

text \<open>Rounds over the same pipelines.\<close>

lemma for_each_append:
  assumes "for_each f xs s = (Inr a, s1)" and "for_each f ys s1 = (Inr b, s2)"
  shows "for_each f (xs @ ys) s = (Inr (a @ b), s2)"
  using assms
proof (induction xs arbitrary: s a)
  case Nil
  then show ?case by (simp add: ret_def)
next
  case (Cons x xs)
  from Cons.prems(1) obtain y s' where y: "f x s = (Inr y, s')"
    by (cases "f x s") (auto simp add: bind_def split: sum.splits)
  from Cons.prems(1) y obtain zs where zs: "for_each f xs s' = (Inr zs, s1)" "a = y # zs"
    by (cases "for_each f xs s'") (auto simp add: bind_def ret_def split: sum.splits)
  have "for_each f (xs @ ys) s' = (Inr (zs @ b), s2)" by (rule Cons.IH [OF zs(1) Cons.prems(2)])
  then show ?case using y zs(2) by (simp add: bind_def ret_def)
qed

lemma concat_replicate_Suc: "concat (replicate (Suc n) xs) = concat (replicate n xs) @ xs"
  by (induction n) simp_all

lemma for_each_rounds:
  assumes "\<And>i. i < n \<Longrightarrow> for_each f xs (T (k + i)) = (Inr (B (k + i)), T (Suc (k + i)))"
  shows "for_each f (concat (replicate n xs)) (T k) = (Inr (concat (map B [k..<k + n])), T (k + n))"
  using assms
proof (induction n)
  case 0
  then show ?case by (simp add: ret_def)
next
  case (Suc n)
  have a: "for_each f (concat (replicate n xs)) (T k) = (Inr (concat (map B [k..<k + n])), T (k + n))"
    by (rule Suc.IH) (simp add: Suc.prems)
  have b: "for_each f xs (T (k + n)) = (Inr (B (k + n)), T (Suc (k + n)))"
    by (rule Suc.prems) simp
  show ?case unfolding concat_replicate_Suc using for_each_append [OF a b] by simp
qed

lemma run_append: "run C (cs @ ds) s = run C ds (run C cs s)"
  by (induction cs arbitrary: s) simp_all


text \<open>The rounds of the three top pipelines with the collaborators \<open>cycle_demo\<close>.\<close>

lemma first_round:
  "for_each (first_proposal cycle_demo (PDict []) (PInt (- 1)) (Some [''a'', ''b'']) 0)
     top_pipelines
     [(''Decision Tree ClassifierSelectColumns'',
       \<lparr> search_space_ranges = [Integer 0 100],
         opt = [([PList [PStr ''a'', PStr ''b'']], Some (Finite 2))] \<rparr>)]
   = (Inr (round_proposals 0), tuners_in_round 1)"
  by (simp add: first_proposal_def tuner_on_first_use_def tuner_proposal_def bind_def ret_def
        top_pipelines_def selected_def round_proposals_def tuners_in_round_def
        cycle_demo_def demo_def cycle_backend_def list_backend_def propose_def tuner0_def
        Let_def columns_value_def replicate_append_same)

lemma later_round:
  "for_each (first_proposal cycle_demo (PDict []) (PInt (- 1)) (Some [''a'', ''b'']) 0)
     top_pipelines (tuners_in_round i) = (Inr (round_proposals i), tuners_in_round (Suc i))"
  by (simp add: first_proposal_def tuner_on_first_use_def tuner_proposal_def bind_def ret_def
        top_pipelines_def selected_def round_proposals_def tuners_in_round_def
        cycle_demo_def demo_def cycle_backend_def list_backend_def propose_def tuner0_def
        Let_def columns_value_def replicate_append_same)

lemma tuner_round:
  "for_each (tuner_proposal cycle_demo (PInt (- 1)) (Some [''a'', ''b'']) 0)
     top_pipelines (tuners_in_round i) = (Inr (round_proposals i), tuners_in_round (Suc i))"
  by (simp add: tuner_proposal_def bind_def ret_def
        top_pipelines_def selected_def round_proposals_def tuners_in_round_def
        cycle_demo_def demo_def cycle_backend_def list_backend_def propose_def tuner0_def
        Let_def columns_value_def replicate_append_same)

lemma length_round: "length (round_proposals i) = 3"
  by (simp add: round_proposals_def)

lemma length_round_proposals: "length (concat (map round_proposals is)) = 3 * length is"
  by (induction "is") (simp_all add: length_round)

lemma fifty_rounds:
  "for_each (first_proposal cycle_demo (PDict []) (PInt (- 1)) (Some [''a'', ''b'']) 0)
     (concat (replicate 50 top_pipelines))
     [(''Decision Tree ClassifierSelectColumns'',
       \<lparr> search_space_ranges = [Integer 0 100],
         opt = [([PList [PStr ''a'', PStr ''b'']], Some (Finite 2))] \<rparr>)]
   = (Inr (concat (map round_proposals [0..<50])), tuners_in_round 50)"
proof -
  define T where "T i = (if i = 0
       then [(''Decision Tree ClassifierSelectColumns'',
              \<lparr> search_space_ranges = [Integer 0 100],
                opt = [([PList [PStr ''a'', PStr ''b'']], Some (Finite 2))] \<rparr>)]
       else tuners_in_round i)" for i
  have "for_each (first_proposal cycle_demo (PDict []) (PInt (- 1)) (Some [''a'', ''b'']) 0)
          top_pipelines (T (0 + i)) = (Inr (round_proposals (0 + i)), T (Suc (0 + i)))" for i
    using first_round later_round [of i] by (simp add: T_def)
  from for_each_rounds [of 50 _ top_pipelines T 0 round_proposals, OF this]
  show ?thesis by (simp add: T_def)
qed

lemma ten_rounds:
  "for_each (tuner_proposal cycle_demo (PInt (- 1)) (Some [''a'', ''b'']) 0)
     (concat (replicate 10 top_pipelines)) (tuners_in_round 50)
   = (Inr (concat (map round_proposals [50..<60])), tuners_in_round 60)"
  using for_each_rounds [of 10 _ top_pipelines tuners_in_round 50 round_proposals,
          OF tuner_round]
  by simp


end
